theory Spec2Isabelle
  imports Complex_Main
begin

section \<open>Numbers and strings of the dashboard helpers\<close>

text \<open>
  The dashboard (\<^verbatim>\<open>src/pages/Dashboard.tsx\<close>) computes with JavaScript numbers and
  strings. A number is modelled by the real number it denotes, and comparisons are the
  order of the reals. In \<^verbatim>\<open>analyzeWeather\<close> a literal such as \<^verbatim>\<open>0.9\<close> is the real
  \<open>0.9\<close> and the few products and sums are those of the reals; what is proved of the
  values it renders is proved with a margin wider than the rounding of doubles. In
  \<^verbatim>\<open>computeCentroid\<close>, whose sums cancel, every operation is rounded to a double (see
  there). NaN and the infinities are not represented (no input field of the typed forecast
  and no baseline value produces them). A string is a \<open>char list\<close>; the two characters
  of the source outside ASCII (the em dash of the alerts and the en dash of the irrigation
  texts) are spelled as their UTF-8 bytes.
\<close>

type_synonym number = real

definition emdash :: string where
  "emdash = [CHR 0xE2, CHR 0x80, CHR 0x94]"

definition endash :: string where
  "endash = [CHR 0xE2, CHR 0x80, CHR 0x93]"

text \<open>The nullish coalescing operator \<^verbatim>\<open>a ?? b\<close>, an absent value being \<open>None\<close>.\<close>

definition nullish :: "'a option \<Rightarrow> 'a \<Rightarrow> 'a" where
  "nullish a b = (case a of None \<Rightarrow> b | Some v \<Rightarrow> v)"

subsection \<open>\<^verbatim>\<open>String.prototype.includes\<close>\<close>

fun startsWith :: "string \<Rightarrow> string \<Rightarrow> bool" where
  "startsWith s [] = True"
| "startsWith [] (p # ps) = False"
| "startsWith (c # cs) (p # ps) = (c = p \<and> startsWith cs ps)"

fun str_includes :: "string \<Rightarrow> string \<Rightarrow> bool" where
  "str_includes [] sub = (sub = [])"
| "str_includes (c # cs) sub = (startsWith (c # cs) sub \<or> str_includes cs sub)"

subsection \<open>The tolerant numeric parser \<^verbatim>\<open>num\<close>\<close>

text \<open>
  \<^verbatim>\<open>
  const num = (s: string | number) => {
    if (typeof s === "number") return s;
    const m = s.match(/-?\d+(\.\d+)?/);
    return m ? parseFloat(m[0]) : 0;
  };
  \<close>
  \<open>matchNumAt\<close> is the regular expression anchored at the head of the string:
  an optional minus sign, a greedy non-empty run of digits, and the fraction group when a
  dot is followed by at least one digit. \<open>matchNum\<close> is the leftmost match.
  \<open>parseFloat\<close> is given on the strings the expression can match, where it is the
  decimal value.
\<close>

datatype str_or_num = Str string | Num number

definition isDigit :: "char \<Rightarrow> bool" where
  "isDigit c = (let n = (of_char c :: nat) in 48 \<le> n \<and> n \<le> 57)"

definition digitVal :: "char \<Rightarrow> nat" where
  "digitVal c = (of_char c :: nat) - 48"

definition digitsVal :: "string \<Rightarrow> nat" where
  "digitsVal ds = fold (\<lambda>c n. 10 * n + digitVal c) ds 0"

definition stripMinus :: "string \<Rightarrow> string \<times> string" where
  "stripMinus s =
     (case s of
        [] \<Rightarrow> ([], [])
      | c # t \<Rightarrow> if c = CHR ''-'' then (''-'', t) else ([], c # t))"

definition fractionOf :: "string \<Rightarrow> string" where
  "fractionOf rest =
     (case rest of
        [] \<Rightarrow> []
      | c # t \<Rightarrow> if c = CHR ''.'' then takeWhile isDigit t else [])"

definition matchNumAt :: "string \<Rightarrow> string option" where
  "matchNumAt s =
     (let (sign, r) = stripMinus s;
          ip = takeWhile isDigit r;
          fr = fractionOf (dropWhile isDigit r)
      in if ip = [] then None
         else if fr = [] then Some (sign @ ip)
         else Some (sign @ ip @ ''.'' @ fr))"

fun matchNum :: "string \<Rightarrow> string option" where
  "matchNum [] = matchNumAt []"
| "matchNum (c # t) =
     (case matchNumAt (c # t) of Some m \<Rightarrow> Some m | None \<Rightarrow> matchNum t)"

definition parseFloat :: "string \<Rightarrow> number" where
  "parseFloat m =
     (let (sign, r) = stripMinus m;
          ip = takeWhile isDigit r;
          fr = fractionOf (dropWhile isDigit r);
          v = real (digitsVal ip) + real (digitsVal fr) / 10 ^ length fr
      in if sign = [] then v else - v)"

fun num :: "str_or_num \<Rightarrow> number" where
  "num (Num x) = x"
| "num (Str s) = (case matchNum s of Some m \<Rightarrow> parseFloat m | None \<Rightarrow> 0)"

subsection \<open>\<^verbatim>\<open>Number.prototype.toFixed\<close>\<close>

text \<open>
  \<^verbatim>\<open>x.toFixed(f)\<close> (ECMA-262, 21.1.3.3): a negative \<open>x\<close> is rendered as a minus sign
  followed by the rendering of \<open>- x\<close>; \<open>n\<close> is the integer for which \<open>n / 10^f - x\<close> is
  closest to zero, the larger one on a tie, that is \<open>\<lfloor>x * 10^f + 1/2\<rfloor>\<close>; its decimal digits
  are padded with zeros on the left to \<open>f + 1\<close> characters and the dot is put before the
  last \<open>f\<close> of them. From \<open>10^21\<close> on JavaScript switches to exponent notation; the
  dashboard renders soil values and field areas, far below, and the model keeps the digit
  expansion there.
\<close>

fun natToString :: "nat \<Rightarrow> string" where
  "natToString n =
     (if n < 10 then [''0123456789'' ! n]
      else natToString (n div 10) @ [''0123456789'' ! (n mod 10)])"

declare natToString.simps [simp del]

definition toFixedAbs :: "nat \<Rightarrow> number \<Rightarrow> string" where
  "toFixedAbs f x =
     (let n = nat \<lfloor>x * 10 ^ f + 1 / 2\<rfloor>;
          m = natToString n
      in if f = 0 then m
         else let m' = (if length m \<le> f
                        then replicate (f + 1 - length m) (CHR ''0'') @ m else m);
                  k = length m'
              in take (k - f) m' @ ''.'' @ drop (k - f) m')"

definition toFixed :: "nat \<Rightarrow> number \<Rightarrow> string" where
  "toFixed f x = (if x < 0 then ''-'' @ toFixedAbs f (- x) else toFixedAbs f x)"

text \<open>
  \<^verbatim>\<open>Array.from(new Set(xs))\<close>: the elements are added to the set one by one, an element
  already present is skipped, and the set is read back in insertion order.
\<close>

definition setAdd :: "'a \<Rightarrow> 'a list \<Rightarrow> 'a list" where
  "setAdd x acc = (if x \<in> set acc then acc else acc @ [x])"

definition arrayFromSet :: "'a list \<Rightarrow> 'a list" where
  "arrayFromSet xs = fold setAdd xs []"

text \<open>
  An assignment to a field of the object returned by \<^verbatim>\<open>arr.find(p)\<close>, guarded by
  \<^verbatim>\<open>if (found)\<close>: the first element satisfying \<open>p\<close> is rewritten, and nothing happens
  when there is none.
\<close>

fun updFirst :: "('a \<Rightarrow> bool) \<Rightarrow> ('a \<Rightarrow> 'a) \<Rightarrow> 'a list \<Rightarrow> 'a list" where
  "updFirst p f [] = []"
| "updFirst p f (x # xs) = (if p x then f x # xs else x # updFirst p f xs)"

section \<open>The soil data\<close>

text \<open>The soil record: three groups of entries \<^verbatim>\<open>{ name, value, status }\<close>.\<close>

record entry =
  e_name :: string
  e_value :: string
  e_status :: string

record soil =
  general :: "entry list"
  macroNutrients :: "entry list"
  microNutrients :: "entry list"

definition detailedSoilData :: soil where
  "detailedSoilData =
     \<lparr>general =
        [\<lparr>e_name = ''pH Level'', e_value = ''5.8'', e_status = ''Low''\<rparr>,
         \<lparr>e_name = ''Organic Carbon (OC)'', e_value = ''0.45%'', e_status = ''Low''\<rparr>],
      macroNutrients =
        [\<lparr>e_name = ''Nitrogen (N)'', e_value = ''210 kg/ha'', e_status = ''Low''\<rparr>,
         \<lparr>e_name = ''Phosphorus (P)'', e_value = ''15 kg/ha'', e_status = ''Optimal''\<rparr>,
         \<lparr>e_name = ''Potassium (K)'', e_value = ''120 kg/ha'', e_status = ''Low''\<rparr>],
      microNutrients =
        [\<lparr>e_name = ''Zinc (Zn)'', e_value = ''0.5 ppm'', e_status = ''Low''\<rparr>,
         \<lparr>e_name = ''Iron (Fe)'', e_value = ''4.8 ppm'', e_status = ''Optimal''\<rparr>]\<rparr>"

section \<open>\<^verbatim>\<open>computeCentroid\<close>\<close>

subsection \<open>Rounding to a double\<close>

text \<open>
  The coordinates of a field are latitudes and longitudes with many digits, and the sums of
  \<^verbatim>\<open>computeCentroid\<close> cancel almost completely, so here the rounding of
  JavaScript's arithmetic decides the result. Every \<^verbatim>\<open>number\<close> is an IEEE 754
  binary64 value, and \<^verbatim>\<open>+\<close>, \<^verbatim>\<open>-\<close>, \<^verbatim>\<open>*\<close> and \<^verbatim>\<open>/\<close> return the exact result rounded
  to the nearest double, a tie going to the even significand. \<open>fl x\<close> is that rounding
  of the real \<open>x\<close>: with \<open>e\<close> the binary exponent of \<open>\<bar>x\<bar>\<close> (at least \<open>-1022\<close>, below
  which the doubles are subnormal and equally spaced by \<open>2\<^sup>-\<^sup>1\<^sup>0\<^sup>7\<^sup>4\<close>) the doubles around
  \<open>x\<close> are the integer multiples of \<open>2\<^bsup>e - 52\<^esup>\<close>. Overflow to an infinity (from
  \<open>2\<^sup>1\<^sup>0\<^sup>2\<^sup>4 - 2\<^sup>9\<^sup>7\<^sup>0\<close> on) and NaN are not represented; no product or sum of coordinates
  on the globe comes near.
\<close>

text \<open>The number of binary digits of a natural number.\<close>

fun bitCount :: "nat \<Rightarrow> nat" where
  "bitCount n = (if n = 0 then 0 else Suc (bitCount (n div 2)))"

declare bitCount.simps [simp del]

text \<open>The binary exponent of a positive real \<open>x\<close>: the \<open>e\<close> with \<open>2\<^sup>e \<le> x < 2\<^bsup>e + 1\<^esup>\<close>.\<close>

definition binExp :: "real \<Rightarrow> int" where
  "binExp x =
     (if 1 \<le> x then int (bitCount (nat \<lfloor>x\<rfloor>)) - 1
      else (let k = bitCount (nat \<lfloor>1 / x\<rfloor>) - 1
            in if x * 2 ^ k = 1 then - int k else - int k - 1))"

definition pow2 :: "int \<Rightarrow> real" where
  "pow2 e = (if 0 \<le> e then 2 ^ nat e else 1 / 2 ^ nat (- e))"

text \<open>The nearest integer of a real that is not negative, a tie going to the even one.\<close>

definition roundEven :: "real \<Rightarrow> int" where
  "roundEven m =
     (let f = \<lfloor>m\<rfloor>; r = m - of_int f
      in if r < 1 / 2 then f
         else if 1 / 2 < r then f + 1
         else if even f then f else f + 1)"

definition fl :: "real \<Rightarrow> real" where
  "fl x =
     (if x = 0 then 0
      else (let e = max (binExp \<bar>x\<bar>) (- 1022);
                s = pow2 (52 - e);
                n = roundEven (\<bar>x\<bar> * s)
            in sgn x * of_int n / s))"

subsection \<open>The function\<close>

text \<open>
  \<^verbatim>\<open>
  const computeCentroid = (coords: [number, number][]) => {
    if (!coords || coords.length === 0) return null;
    let area = 0, cx = 0, cy = 0;
    for (let i = 0; i < coords.length; i++) {
      const [x1, y1] = coords[i];
      const [x2, y2] = coords[(i + 1) % coords.length];
      const cross = x1 * y2 - x2 * y1;
      area += cross;
      cx += (x1 + x2) * cross;
      cy += (y1 + y2) * cross;
    }
    area *= 0.5;
    if (Math.abs(area) < 1e-12) {
      const [lat, lon] = coords[0];
      return { lat, lon };
    }
    cx = cx / (6 * area);
    cy = cy / (6 * area);
    return { lat: cx, lon: cy };
  };
  \<close>
  \<open>centroidStep\<close> is the body of the \<^verbatim>\<open>for\<close> loop on the two vertices it reads
  and the three accumulators, every operation rounded as it is evaluated:
  \<^verbatim>\<open>x1 * y2 - x2 * y1\<close> is two rounded products and a rounded difference. The loop is a
  recursion on the index; both index reads are in range while \<open>i < length coords\<close>. The
  literal \<^verbatim>\<open>1e-12\<close> is the double nearest to \<open>10\<^sup>-\<^sup>1\<^sup>2\<close>, the literals \<^verbatim>\<open>0.5\<close> and \<^verbatim>\<open>6\<close>
  are doubles as they stand. \<open>None\<close> is \<^verbatim>\<open>null\<close>.
\<close>

record latlon =
  lat :: number
  lon :: number

definition centroidStep ::
  "number \<times> number \<Rightarrow> number \<times> number \<Rightarrow> number \<times> number \<times> number \<Rightarrow>
   number \<times> number \<times> number"
where
  "centroidStep p q acc =
     (let (x1, y1) = p; (x2, y2) = q; (area, cx, cy) = acc;
          cross = fl (fl (x1 * y2) - fl (x2 * y1))
      in (fl (area + cross),
          fl (cx + fl (fl (x1 + x2) * cross)),
          fl (cy + fl (fl (y1 + y2) * cross))))"

function centroidLoop ::
  "(number \<times> number) list \<Rightarrow> nat \<Rightarrow> number \<times> number \<times> number \<Rightarrow> number \<times> number \<times> number"
where
  "centroidLoop coords i acc =
     (if i < length coords
      then centroidLoop coords (i + 1)
             (centroidStep (coords ! i) (coords ! ((i + 1) mod length coords)) acc)
      else acc)"
  by pat_completeness auto
termination
  by (relation "measure (\<lambda>(coords, i, acc). length coords - i)") auto

declare centroidLoop.simps [simp del]

definition computeCentroid :: "(number \<times> number) list \<Rightarrow> latlon option" where
  "computeCentroid coords =
     (if length coords = 0 then None
      else (let (area0, cx, cy) = centroidLoop coords 0 (0, 0, 0);
                area = fl (area0 * 0.5)
            in if \<bar>area\<bar> < fl (1 / 10 ^ 12)
               then (let (lat0, lon0) = coords ! 0 in Some \<lparr>lat = lat0, lon = lon0\<rparr>)
               else Some \<lparr>lat = fl (cx / fl (6 * area)), lon = fl (cy / fl (6 * area))\<rparr>))"

section \<open>\<^verbatim>\<open>analyzeWeather\<close>\<close>

text \<open>
  \<^verbatim>\<open>
  type WeatherDaily = {
    dt: number;
    temp: { min: number; max: number };
    pop: number;
    rain?: number;
    wind_speed?: number;
    humidity?: number;
    weather?: { main: string; description: string; icon: string }[];
  };
  \<close>
  An optional field that is absent is \<open>None\<close>.
\<close>

record temp_range =
  temp_min :: number
  temp_max :: number

record WeatherDaily =
  dt :: number
  temp :: temp_range
  pop :: number
  rain :: "number option"
  wind_speed :: "number option"
  humidity :: "number option"
  weather :: "(string \<times> string \<times> string) list option"

definition alert_wind :: string where
  "alert_wind = ''High winds expected '' @ emdash @ '' risk of lodging and spray drift.''"

definition alert_fungal :: string where
  "alert_fungal = ''Very humid & warm '' @ emdash @ '' fungal disease pressure likely.''"

definition alert_leaching :: string where
  "alert_leaching =
     ''Heavy rain likely '' @ emdash @ '' leaching of Nitrogen and Potassium expected.''"

definition alert_drought :: string where
  "alert_drought =
     ''Heat wave & dry spell for 3+ days '' @ emdash @ '' drought stress risk.''"

definition alert_none :: string where
  "alert_none = ''No unusual weather risks detected this week.''"

text \<open>
  The body of \<^verbatim>\<open>daily.forEach\<close>, on the four variables it updates:
  \<^verbatim>\<open>alerts\<close>, \<^verbatim>\<open>heavyRainDays\<close>, \<^verbatim>\<open>droughtStreak\<close>, \<^verbatim>\<open>maxHeatStreak\<close>.
\<close>

type_synonym loop_vars = "string list \<times> nat \<times> nat \<times> nat"

definition dayStep :: "WeatherDaily \<Rightarrow> loop_vars \<Rightarrow> loop_vars" where
  "dayStep d vars =
     (case vars of (alerts, heavyRainDays, droughtStreak, maxHeatStreak) \<Rightarrow>
        (let rainAmount = nullish (rain d) 0;
             heavyRainDays1 =
               (if rainAmount \<ge> 50 \<or> (pop d \<ge> 0.8 \<and> rainAmount \<ge> 30)
                then heavyRainDays + 1 else heavyRainDays);
             isDryHot = (pop d \<le> 0.2 \<and> temp_max (temp d) \<ge> 35);
             droughtStreak1 = (if isDryHot then droughtStreak + 1 else 0);
             maxHeatStreak1 = max maxHeatStreak droughtStreak1;
             alerts1 =
               (if nullish (wind_speed d) 0 \<ge> 12 then alerts @ [alert_wind] else alerts);
             alerts2 =
               (if nullish (humidity d) 0 \<ge> 90 \<and> temp_max (temp d) \<ge> 28
                then alerts1 @ [alert_fungal] else alerts1)
         in (alerts2, heavyRainDays1, droughtStreak1, maxHeatStreak1)))"

definition forEachDay :: "WeatherDaily list \<Rightarrow> loop_vars" where
  "forEachDay daily = fold dayStep daily ([], 0, 0, 0)"

definition loopAlerts :: "WeatherDaily list \<Rightarrow> string list" where
  "loopAlerts daily = (case forEachDay daily of (alerts, h, s, m) \<Rightarrow> alerts)"

definition heavyRainDays :: "WeatherDaily list \<Rightarrow> nat" where
  "heavyRainDays daily = (case forEachDay daily of (alerts, h, s, m) \<Rightarrow> h)"

definition maxHeatStreak :: "WeatherDaily list \<Rightarrow> nat" where
  "maxHeatStreak daily = (case forEachDay daily of (alerts, h, s, m) \<Rightarrow> m)"

text \<open>The three pushes after the loop.\<close>

definition weekAlerts :: "WeatherDaily list \<Rightarrow> string list" where
  "weekAlerts daily =
     (let alerts = loopAlerts daily;
          alerts1 = (if heavyRainDays daily \<ge> 1 then alerts @ [alert_leaching] else alerts);
          alerts2 = (if maxHeatStreak daily \<ge> 3 then alerts1 @ [alert_drought] else alerts1)
      in if length alerts2 = 0 then alerts2 @ [alert_none] else alerts2)"

text \<open>
  The soil adjustment. \<^verbatim>\<open>adjusted\<close> is a copy of the baseline
  (\<^verbatim>\<open>JSON.parse(JSON.stringify(detailedSoilData))\<close>), so the assignments below rewrite
  entries of the copy only; the object graph itself is modelled in the section on the store.
  In each branch the entries are located first and assigned afterwards; the assignments
  change no name, so locating an entry before or after an earlier assignment finds the
  same one.
\<close>

definition nameHas :: "string \<Rightarrow> entry \<Rightarrow> bool" where
  "nameHas sub e = str_includes (e_name e) sub"

definition heavyRainAdjust :: "soil \<Rightarrow> soil" where
  "heavyRainAdjust adjusted =
     (let macro1 = updFirst (nameHas ''(N)'')
            (\<lambda>n. n\<lparr>e_value := toFixed 0 (max 0 (num (Str (e_value n)) * 0.9)) @ '' kg/ha''\<rparr>)
            (macroNutrients adjusted);
          macro2 = updFirst (nameHas ''(K)'')
            (\<lambda>k. k\<lparr>e_value := toFixed 0 (max 0 (num (Str (e_value k)) * 0.92)) @ '' kg/ha''\<rparr>)
            macro1;
          general1 = updFirst (nameHas ''pH'')
            (\<lambda>pH. pH\<lparr>e_value := toFixed 1 (max 0 (num (Str (e_value pH)) - 0.1))\<rparr>)
            (general adjusted);
          general2 = updFirst (nameHas ''Organic Carbon'')
            (\<lambda>oc. oc\<lparr>e_value := toFixed 2 (max 0 (num (Str (e_value oc)) * 0.98)) @ ''%''\<rparr>)
            general1
      in adjusted\<lparr>general := general2, macroNutrients := macro2\<rparr>)"

definition heatStreakAdjust :: "soil \<Rightarrow> soil" where
  "heatStreakAdjust adjusted =
     (let macro1 = updFirst (nameHas ''(K)'')
            (\<lambda>k. k\<lparr>e_value := toFixed 0 (max 0 (num (Str (e_value k)) * 0.95)) @ '' kg/ha''\<rparr>)
            (macroNutrients adjusted);
          general1 = updFirst (nameHas ''pH'')
            (\<lambda>pH. pH\<lparr>e_value := toFixed 1 (num (Str (e_value pH)) + 0.1)\<rparr>)
            (general adjusted);
          general2 = updFirst (nameHas ''Organic Carbon'')
            (\<lambda>oc. oc\<lparr>e_value := toFixed 2 (num (Str (e_value oc)) * 1.03) @ ''%''\<rparr>)
            general1
      in adjusted\<lparr>general := general2, macroNutrients := macro1\<rparr>)"

text \<open>
  \<^verbatim>\<open>setStatus\<close>: the five numbers are read first
  (\<^verbatim>\<open>num(arr.find(...)?.value ?? 0)\<close>), then the five statuses are set, each on the
  first entry of that exact name.
\<close>

definition readNum :: "string \<Rightarrow> entry list \<Rightarrow> number" where
  "readNum sub arr =
     num (case find (nameHas sub) arr of Some x \<Rightarrow> Str (e_value x) | None \<Rightarrow> Num 0)"

definition setEntryStatus :: "string \<Rightarrow> string \<Rightarrow> entry list \<Rightarrow> entry list" where
  "setEntryStatus nm st arr = updFirst (\<lambda>a. e_name a = nm) (\<lambda>a. a\<lparr>e_status := st\<rparr>) arr"

definition grade :: "number \<Rightarrow> number \<Rightarrow> number \<Rightarrow> string" where
  "grade lo hi v = (if v < lo then ''Low'' else if v > hi then ''High'' else ''Optimal'')"

definition setStatus :: "soil \<Rightarrow> soil" where
  "setStatus adjusted =
     (let n = readNum ''(N)'' (macroNutrients adjusted);
          p = readNum ''(P)'' (macroNutrients adjusted);
          k = readNum ''(K)'' (macroNutrients adjusted);
          pH = readNum ''pH'' (general adjusted);
          oc = readNum ''Organic Carbon'' (general adjusted);
          macro1 = setEntryStatus ''Nitrogen (N)'' (grade 250 350 n) (macroNutrients adjusted);
          macro2 = setEntryStatus ''Phosphorus (P)'' (grade 12 30 p) macro1;
          macro3 = setEntryStatus ''Potassium (K)'' (grade 150 300 k) macro2;
          general1 = setEntryStatus ''pH Level'' (grade 6.0 7.5 pH) (general adjusted);
          general2 = setEntryStatus ''Organic Carbon (OC)'' (grade 0.75 1.5 oc) general1
      in adjusted\<lparr>general := general2, macroNutrients := macro3\<rparr>)"

definition adjustSoil :: "nat \<Rightarrow> nat \<Rightarrow> soil \<Rightarrow> soil" where
  "adjustSoil heavy heat baseline =
     (let adjusted = baseline;
          adjusted1 = (if heavy \<ge> 1 then heavyRainAdjust adjusted else adjusted);
          adjusted2 = (if heat \<ge> 3 then heatStreakAdjust adjusted1 else adjusted1)
      in setStatus adjusted2)"

record recommendation_set =
  fertilizer :: string
  zinc :: string
  pH :: string
  irrigation :: string
  pest :: string

definition rec_fert_rain :: string where
  "rec_fert_rain = ''Split-apply N & K (e.g., Urea + MOP) after heavy rain; add stabilizers (NBPT) to reduce N losses.''"

definition rec_fert_heat :: string where
  "rec_fert_heat = ''Prefer K-rich blends (e.g., 10-5-20) to aid osmotic balance; avoid surface-applied urea before irrigation.''"

definition rec_fert_default :: string where
  "rec_fert_default = ''Balanced NPK (10-5-20). Base dose with top-up based on soil test and crop stage.''"

definition rec_zinc :: string where
  "rec_zinc = ''Apply Zinc Sulphate (21%) ~10 kg/acre at soil prep or 0.5% foliar if deficiency persists.''"

definition rec_pH_rain :: string where
  "rec_pH_rain = ''Consider light liming to buffer acidity from rain; ''"

definition rec_pH_lime :: string where
  "rec_pH_lime = ''Use dolomitic lime if Mg is low.''"

definition rec_irr_heat :: string where
  "rec_irr_heat = ''Adopt shorter, more frequent irrigation; mulch to conserve soil moisture.''"

definition rec_irr_rain :: string where
  "rec_irr_rain = ''Delay irrigation for 2'' @ endash @ ''3 days post heavy rain; improve drainage if waterlogging.''"

definition rec_irr_default :: string where
  "rec_irr_default = ''Irrigate 2'' @ endash @ ''3 days interval based on field condition.''"

definition rec_pest_humid :: string where
  "rec_pest_humid = ''High humidity: scout for late blight; preventive Mancozeb/Chlorothalonil spray window.''"

definition rec_pest_default :: string where
  "rec_pest_default = ''Keep scouting for aphids/whiteflies; use yellow sticky traps; spot-treat with Imidacloprid if needed.''"

text \<open>
  The recommendation object. \<^verbatim>\<open>heavyRainDays ? a : b\<close> tests the counter for
  truthiness, that is for being non-zero; \<^verbatim>\<open>daily.some(p)\<close> is \<open>list_ex\<close>.
\<close>

definition makeRecs :: "WeatherDaily list \<Rightarrow> nat \<Rightarrow> nat \<Rightarrow> recommendation_set" where
  "makeRecs daily heavy heat =
     \<lparr>fertilizer =
        (if heavy \<noteq> 0 then rec_fert_rain
         else if heat \<ge> 3 then rec_fert_heat else rec_fert_default),
      zinc = rec_zinc,
      pH = (if heavy \<noteq> 0 then rec_pH_rain else []) @ rec_pH_lime,
      irrigation =
        (if heat \<ge> 3 then rec_irr_heat
         else if heavy \<noteq> 0 then rec_irr_rain else rec_irr_default),
      pest =
        (if list_ex (\<lambda>d. nullish (humidity d) 0 \<ge> 90) daily
         then rec_pest_humid else rec_pest_default)\<rparr>"

record analysis =
  alerts :: "string list"
  adjustedSoil :: soil
  recs :: recommendation_set

definition analyzeWeather :: "WeatherDaily list \<Rightarrow> analysis" where
  "analyzeWeather daily =
     \<lparr>alerts = arrayFromSet (weekAlerts daily),
      adjustedSoil = adjustSoil (heavyRainDays daily) (maxHeatStreak daily) detailedSoilData,
      recs = makeRecs daily (heavyRainDays daily) (maxHeatStreak daily)\<rparr>"

section \<open>The object graph: baseline and copy in one store\<close>

text \<open>
  \<^verbatim>\<open>detailedSoilData\<close> is a module-level object: one record object, three arrays and
  seven entry objects, held by reference. \<^verbatim>\<open>analyzeWeather\<close> copies it with
  \<^verbatim>\<open>JSON.parse(JSON.stringify(detailedSoilData))\<close> and then assigns to fields of objects
  it finds through the copy. To say which objects those assignments touch, the objects live
  in a store: a map from addresses to objects with the next free address. A reference is
  an address.
\<close>

type_synonym addr = nat

datatype obj =
    Entry string string string
  | Arr "addr list"
  | Soil addr addr addr

record store =
  heap :: "addr \<Rightarrow> obj option"
  next_free :: addr

definition alloc :: "obj \<Rightarrow> store \<Rightarrow> addr \<times> store" where
  "alloc ob s =
     (next_free s, s\<lparr>heap := (heap s)(next_free s \<mapsto> ob), next_free := Suc (next_free s)\<rparr>)"

text \<open>
  \<^verbatim>\<open>JSON.stringify\<close> walks the graph from a record object; the text it produces is
  represented by the \<open>soil\<close> value it spells out. \<open>None\<close> stands for a store that holds
  no soil record at the address.
\<close>

definition readEntry :: "store \<Rightarrow> addr \<Rightarrow> entry option" where
  "readEntry s a =
     (case heap s a of
        Some (Entry n v t) \<Rightarrow> Some \<lparr>e_name = n, e_value = v, e_status = t\<rparr>
      | _ \<Rightarrow> None)"

fun readEntries :: "store \<Rightarrow> addr list \<Rightarrow> entry list option" where
  "readEntries s [] = Some []"
| "readEntries s (a # as) =
     (case readEntry s a of
        None \<Rightarrow> None
      | Some e \<Rightarrow> (case readEntries s as of None \<Rightarrow> None | Some es \<Rightarrow> Some (e # es)))"

definition readArray :: "store \<Rightarrow> addr \<Rightarrow> entry list option" where
  "readArray s a = (case heap s a of Some (Arr as) \<Rightarrow> readEntries s as | _ \<Rightarrow> None)"

definition stringifySoil :: "store \<Rightarrow> addr \<Rightarrow> soil option" where
  "stringifySoil s r =
     (case heap s r of
        Some (Soil g m z) \<Rightarrow>
          (case readArray s g of
             None \<Rightarrow> None
           | Some gs \<Rightarrow>
               (case readArray s m of
                  None \<Rightarrow> None
                | Some ms \<Rightarrow>
                    (case readArray s z of
                       None \<Rightarrow> None
                     | Some zs \<Rightarrow>
                         Some \<lparr>general = gs, macroNutrients = ms, microNutrients = zs\<rparr>)))
      | _ \<Rightarrow> None)"

text \<open>\<^verbatim>\<open>JSON.parse\<close> builds every object of the text anew.\<close>

fun parseEntries :: "entry list \<Rightarrow> store \<Rightarrow> addr list \<times> store" where
  "parseEntries [] s = ([], s)"
| "parseEntries (e # es) s =
     (let (a, s1) = alloc (Entry (e_name e) (e_value e) (e_status e)) s;
          (as, s2) = parseEntries es s1
      in (a # as, s2))"

definition parseArray :: "entry list \<Rightarrow> store \<Rightarrow> addr \<times> store" where
  "parseArray es s = (let (as, s1) = parseEntries es s in alloc (Arr as) s1)"

definition parseSoil :: "soil \<Rightarrow> store \<Rightarrow> addr \<times> store" where
  "parseSoil v s =
     (let (g, s1) = parseArray (general v) s;
          (m, s2) = parseArray (macroNutrients v) s1;
          (z, s3) = parseArray (microNutrients v) s2
      in alloc (Soil g m z) s3)"

text \<open>Field reads and writes on the objects of the store.\<close>

definition generalOf :: "store \<Rightarrow> addr \<Rightarrow> addr list" where
  "generalOf s r =
     (case heap s r of
        Some (Soil g m z) \<Rightarrow> (case heap s g of Some (Arr as) \<Rightarrow> as | _ \<Rightarrow> [])
      | _ \<Rightarrow> [])"

definition macroOf :: "store \<Rightarrow> addr \<Rightarrow> addr list" where
  "macroOf s r =
     (case heap s r of
        Some (Soil g m z) \<Rightarrow> (case heap s m of Some (Arr as) \<Rightarrow> as | _ \<Rightarrow> [])
      | _ \<Rightarrow> [])"

definition microOf :: "store \<Rightarrow> addr \<Rightarrow> addr list" where
  "microOf s r =
     (case heap s r of
        Some (Soil g m z) \<Rightarrow> (case heap s z of Some (Arr as) \<Rightarrow> as | _ \<Rightarrow> [])
      | _ \<Rightarrow> [])"

definition getValue :: "store \<Rightarrow> addr \<Rightarrow> string" where
  "getValue s a = (case heap s a of Some (Entry n v t) \<Rightarrow> v | _ \<Rightarrow> [])"

definition setValue :: "addr \<Rightarrow> string \<Rightarrow> store \<Rightarrow> store" where
  "setValue a v' s =
     (case heap s a of
        Some (Entry n v t) \<Rightarrow> s\<lparr>heap := (heap s)(a \<mapsto> Entry n v' t)\<rparr>
      | _ \<Rightarrow> s)"

definition setStatusField :: "addr \<Rightarrow> string \<Rightarrow> store \<Rightarrow> store" where
  "setStatusField a t' s =
     (case heap s a of
        Some (Entry n v t) \<Rightarrow> s\<lparr>heap := (heap s)(a \<mapsto> Entry n v t')\<rparr>
      | _ \<Rightarrow> s)"

text \<open>\<^verbatim>\<open>arr.find(p)\<close> on an array of references: the reference of the first match.\<close>

fun findRef :: "store \<Rightarrow> (entry \<Rightarrow> bool) \<Rightarrow> addr list \<Rightarrow> addr option" where
  "findRef s p [] = None"
| "findRef s p (a # as) =
     (case readEntry s a of
        Some e \<Rightarrow> if p e then Some a else findRef s p as
      | None \<Rightarrow> findRef s p as)"

text \<open>\<^verbatim>\<open>if (x) x.value = f(x.value)\<close> for a reference \<open>x\<close> that may be undefined.\<close>

definition assignValue :: "addr option \<Rightarrow> (string \<Rightarrow> string) \<Rightarrow> store \<Rightarrow> store" where
  "assignValue x f s = (case x of None \<Rightarrow> s | Some a \<Rightarrow> setValue a (f (getValue s a)) s)"

definition heavyRainAdjust_store :: "addr \<Rightarrow> store \<Rightarrow> store" where
  "heavyRainAdjust_store adjusted s =
     (let n = findRef s (nameHas ''(N)'') (macroOf s adjusted);
          k = findRef s (nameHas ''(K)'') (macroOf s adjusted);
          pH = findRef s (nameHas ''pH'') (generalOf s adjusted);
          oc = findRef s (nameHas ''Organic Carbon'') (generalOf s adjusted);
          s1 = assignValue n (\<lambda>v. toFixed 0 (max 0 (num (Str v) * 0.9)) @ '' kg/ha'') s;
          s2 = assignValue k (\<lambda>v. toFixed 0 (max 0 (num (Str v) * 0.92)) @ '' kg/ha'') s1;
          s3 = assignValue pH (\<lambda>v. toFixed 1 (max 0 (num (Str v) - 0.1))) s2
      in assignValue oc (\<lambda>v. toFixed 2 (max 0 (num (Str v) * 0.98)) @ ''%'') s3)"

definition heatStreakAdjust_store :: "addr \<Rightarrow> store \<Rightarrow> store" where
  "heatStreakAdjust_store adjusted s =
     (let k = findRef s (nameHas ''(K)'') (macroOf s adjusted);
          pH = findRef s (nameHas ''pH'') (generalOf s adjusted);
          oc = findRef s (nameHas ''Organic Carbon'') (generalOf s adjusted);
          s1 = assignValue k (\<lambda>v. toFixed 0 (max 0 (num (Str v) * 0.95)) @ '' kg/ha'') s;
          s2 = assignValue pH (\<lambda>v. toFixed 1 (num (Str v) + 0.1)) s1
      in assignValue oc (\<lambda>v. toFixed 2 (num (Str v) * 1.03) @ ''%'') s2)"

definition readNum_store :: "store \<Rightarrow> string \<Rightarrow> addr list \<Rightarrow> number" where
  "readNum_store s sub arr =
     num (case findRef s (nameHas sub) arr of
            Some x \<Rightarrow> Str (getValue s x)
          | None \<Rightarrow> Num 0)"

definition setEntryStatus_store :: "addr list \<Rightarrow> string \<Rightarrow> string \<Rightarrow> store \<Rightarrow> store" where
  "setEntryStatus_store arr nm st s =
     (case findRef s (\<lambda>a. e_name a = nm) arr of
        None \<Rightarrow> s
      | Some x \<Rightarrow> setStatusField x st s)"

definition setStatus_store :: "addr \<Rightarrow> store \<Rightarrow> store" where
  "setStatus_store adjusted s =
     (let n = readNum_store s ''(N)'' (macroOf s adjusted);
          p = readNum_store s ''(P)'' (macroOf s adjusted);
          k = readNum_store s ''(K)'' (macroOf s adjusted);
          pH = readNum_store s ''pH'' (generalOf s adjusted);
          oc = readNum_store s ''Organic Carbon'' (generalOf s adjusted);
          s1 = setEntryStatus_store (macroOf s adjusted) ''Nitrogen (N)'' (grade 250 350 n) s;
          s2 = setEntryStatus_store (macroOf s1 adjusted) ''Phosphorus (P)'' (grade 12 30 p) s1;
          s3 = setEntryStatus_store (macroOf s2 adjusted) ''Potassium (K)'' (grade 150 300 k) s2;
          s4 = setEntryStatus_store (generalOf s3 adjusted) ''pH Level'' (grade 6.0 7.5 pH) s3
      in setEntryStatus_store (generalOf s4 adjusted) ''Organic Carbon (OC)''
           (grade 0.75 1.5 oc) s4)"

text \<open>
  \<open>analyzeWeather\<close> on the store: \<open>baseline\<close> is the reference the module constant
  \<^verbatim>\<open>detailedSoilData\<close> holds. The alerts and the recommendations are fresh values that
  refer to no object of the store and are as in \<open>analyzeWeather\<close> above.
\<close>

definition analyzeWeather_store ::
  "WeatherDaily list \<Rightarrow> addr \<Rightarrow> store \<Rightarrow>
     ((string list \<times> addr \<times> recommendation_set) \<times> store) option"
where
  "analyzeWeather_store daily baseline s =
     (case stringifySoil s baseline of
        None \<Rightarrow> None
      | Some text \<Rightarrow>
          (let (adjusted, s0) = parseSoil text s;
               s1 = (if heavyRainDays daily \<ge> 1 then heavyRainAdjust_store adjusted s0 else s0);
               s2 = (if maxHeatStreak daily \<ge> 3 then heatStreakAdjust_store adjusted s1 else s1);
               s3 = setStatus_store adjusted s2
           in Some ((arrayFromSet (weekAlerts daily), adjusted,
                     makeRecs daily (heavyRainDays daily) (maxHeatStreak daily)), s3)))"

text \<open>The store after the module is loaded: the baseline record and nothing else.\<close>

definition moduleLoaded :: "addr \<times> store" where
  "moduleLoaded = parseSoil detailedSoilData \<lparr>heap = Map.empty, next_free = 0\<rparr>"

text \<open>The objects of a soil record: the record object, its three arrays and their entries.\<close>

definition soilObjects :: "store \<Rightarrow> addr \<Rightarrow> addr set" where
  "soilObjects s r =
     (case heap s r of
        Some (Soil g m z) \<Rightarrow>
          {r, g, m, z} \<union> set (generalOf s r) \<union> set (macroOf s r) \<union> set (microOf s r)
      | _ \<Rightarrow> {r})"

text \<open>Every allocated address lies below the next free one.\<close>

definition store_ok :: "store \<Rightarrow> bool" where
  "store_ok s \<longleftrightarrow> dom (heap s) \<subseteq> {a. a < next_free s}"

text \<open>
  The store in which the record \<open>v\<close> of two general, three macro and two micro entries is
  laid out from address \<open>n\<close> on, in the order in which \<open>parseSoil\<close> allocates.
\<close>

definition entryObj :: "entry \<Rightarrow> obj" where
  "entryObj e = Entry (e_name e) (e_value e) (e_status e)"

definition laidOut :: "addr \<Rightarrow> soil \<Rightarrow> (addr \<Rightarrow> obj option) \<Rightarrow> addr \<Rightarrow> obj option" where
  "laidOut n v h =
     h(n \<mapsto> entryObj (general v ! 0),
       n + 1 \<mapsto> entryObj (general v ! 1),
       n + 2 \<mapsto> Arr [n, n + 1],
       n + 3 \<mapsto> entryObj (macroNutrients v ! 0),
       n + 4 \<mapsto> entryObj (macroNutrients v ! 1),
       n + 5 \<mapsto> entryObj (macroNutrients v ! 2),
       n + 6 \<mapsto> Arr [n + 3, n + 4, n + 5],
       n + 7 \<mapsto> entryObj (microNutrients v ! 0),
       n + 8 \<mapsto> entryObj (microNutrients v ! 1),
       n + 9 \<mapsto> Arr [n + 7, n + 8],
       n + 10 \<mapsto> Soil (n + 2) (n + 6) (n + 9))"

definition baseline_names :: "soil \<Rightarrow> bool" where
  "baseline_names v \<longleftrightarrow>
     map e_name (general v) = [''pH Level'', ''Organic Carbon (OC)''] \<and>
     map e_name (macroNutrients v) = [''Nitrogen (N)'', ''Phosphorus (P)'', ''Potassium (K)''] \<and>
     map e_name (microNutrients v) = [''Zinc (Zn)'', ''Iron (Fe)'']"

section \<open>The analyzer's rules as the specification words them\<close>

text \<open>
  The definitions of this section follow the wording of the specification, not the code;
  the theorems further down relate them to \<open>analyzeWeather\<close>. An absent optional
  reading counts as \<open>0\<close>.
\<close>

definition spec_rainfall :: "WeatherDaily \<Rightarrow> number" where
  "spec_rainfall d = (case rain d of None \<Rightarrow> 0 | Some r \<Rightarrow> r)"

definition spec_heavy_rain_day :: "WeatherDaily \<Rightarrow> bool" where
  "spec_heavy_rain_day d \<longleftrightarrow>
     spec_rainfall d \<ge> 50 \<or> (pop d \<ge> 0.8 \<and> spec_rainfall d \<ge> 30)"

definition spec_dry_hot_day :: "WeatherDaily \<Rightarrow> bool" where
  "spec_dry_hot_day d \<longleftrightarrow> pop d \<le> 0.2 \<and> temp_max (temp d) \<ge> 35"

definition spec_high_wind_day :: "WeatherDaily \<Rightarrow> bool" where
  "spec_high_wind_day d \<longleftrightarrow> (case wind_speed d of None \<Rightarrow> False | Some w \<Rightarrow> w \<ge> 12)"

definition spec_fungal_day :: "WeatherDaily \<Rightarrow> bool" where
  "spec_fungal_day d \<longleftrightarrow>
     (case humidity d of None \<Rightarrow> False | Some h \<Rightarrow> h \<ge> 90) \<and> temp_max (temp d) \<ge> 28"

text \<open>
  A run of \<open>n\<close> consecutive days satisfying \<open>P\<close> starts at some day \<open>i\<close>; the maximum
  run is the largest such \<open>n\<close> (the run of length \<open>0\<close> always exists).
\<close>

definition spec_has_run :: "('a \<Rightarrow> bool) \<Rightarrow> nat \<Rightarrow> 'a list \<Rightarrow> bool" where
  "spec_has_run P n xs \<longleftrightarrow> (\<exists>i. i + n \<le> length xs \<and> (\<forall>j<n. P (xs ! (i + j))))"

definition spec_max_run :: "('a \<Rightarrow> bool) \<Rightarrow> 'a list \<Rightarrow> nat" where
  "spec_max_run P xs = Max {n. spec_has_run P n xs}"

text \<open>The length of the run that ends with the last element: the value of the streak counter.\<close>

definition trailing :: "('a \<Rightarrow> bool) \<Rightarrow> 'a list \<Rightarrow> nat" where
  "trailing P xs = length (takeWhile P (rev xs))"

definition spec_day_alerts :: "WeatherDaily \<Rightarrow> string list" where
  "spec_day_alerts d =
     (if spec_high_wind_day d then [alert_wind] else []) @
     (if spec_fungal_day d then [alert_fungal] else [])"

definition spec_alert_sequence :: "WeatherDaily list \<Rightarrow> string list" where
  "spec_alert_sequence daily =
     concat (map spec_day_alerts daily) @
     (if \<exists>d \<in> set daily. spec_heavy_rain_day d then [alert_leaching] else []) @
     (if spec_max_run spec_dry_hot_day daily \<ge> 3 then [alert_drought] else [])"

text \<open>De-duplication in encounter order: the first occurrence of every element stays.\<close>

primrec spec_dedup :: "'a list \<Rightarrow> 'a list" where
  "spec_dedup [] = []"
| "spec_dedup (x # xs) = x # filter (\<lambda>y. y \<noteq> x) (spec_dedup xs)"

definition spec_alerts :: "WeatherDaily list \<Rightarrow> string list" where
  "spec_alerts daily =
     (if spec_alert_sequence daily = [] then [alert_none]
      else spec_dedup (spec_alert_sequence daily))"

text \<open>Forecast days used as concrete inputs.\<close>

definition calm_day :: WeatherDaily where
  "calm_day =
     \<lparr>dt = 0, temp = \<lparr>temp_min = 15, temp_max = 25\<rparr>, pop = 0.1,
      rain = Some 0, wind_speed = Some 2, humidity = Some 40, weather = None\<rparr>"

definition rainy_day :: WeatherDaily where
  "rainy_day = calm_day\<lparr>rain := Some 55\<rparr>"

definition hot_day :: WeatherDaily where
  "hot_day = calm_day\<lparr>temp := \<lparr>temp_min = 20, temp_max = 36\<rparr>, rain := None\<rparr>"

definition windy_day :: WeatherDaily where
  "windy_day = calm_day\<lparr>wind_speed := Some 14\<rparr>"

definition muggy_day :: WeatherDaily where
  "muggy_day =
     calm_day\<lparr>temp := \<lparr>temp_min = 22, temp_max = 30\<rparr>, pop := 0.9, rain := Some 35,
       wind_speed := Some 13, humidity := Some 95\<rparr>"

definition bare_day :: WeatherDaily where
  "bare_day =
     \<lparr>dt = 0, temp = \<lparr>temp_min = 25, temp_max = 40\<rparr>, pop = 0.9,
      rain = None, wind_speed = None, humidity = None, weather = None\<rparr>"

section \<open>Reading and grading soil records\<close>

text \<open>
  Looking an entry up by its exact name and reading its display value; the grading rule and
  the table of thresholds as the specification gives them; and the three records the
  adjustment can produce besides the baseline.
\<close>

definition entryNamed :: "string \<Rightarrow> entry list \<Rightarrow> entry option" where
  "entryNamed nm arr = find (\<lambda>e. e_name e = nm) arr"

definition displayValue :: "string \<Rightarrow> entry list \<Rightarrow> string option" where
  "displayValue nm arr = map_option e_value (entryNamed nm arr)"

definition spec_grade :: "number \<Rightarrow> number \<Rightarrow> number \<Rightarrow> string" where
  "spec_grade low high v =
     (if v < low then ''Low'' else if v > high then ''High'' else ''Optimal'')"

definition spec_thresholds :: "string \<rightharpoonup> number \<times> number" where
  "spec_thresholds =
     [''Nitrogen (N)'' \<mapsto> (250, 350),
      ''Phosphorus (P)'' \<mapsto> (12, 30),
      ''Potassium (K)'' \<mapsto> (150, 300),
      ''pH Level'' \<mapsto> (6.0, 7.5),
      ''Organic Carbon (OC)'' \<mapsto> (0.75, 1.5)]"

definition spec_status_ok :: "entry \<Rightarrow> bool" where
  "spec_status_ok e \<longleftrightarrow>
     (case spec_thresholds (e_name e) of
        None \<Rightarrow> False
      | Some (low, high) \<Rightarrow> e_status e = spec_grade low high (num (Str (e_value e))))"

definition soil_rain :: soil where
  "soil_rain =
     \<lparr>general =
        [\<lparr>e_name = ''pH Level'', e_value = ''5.7'', e_status = ''Low''\<rparr>,
         \<lparr>e_name = ''Organic Carbon (OC)'', e_value = ''0.44%'', e_status = ''Low''\<rparr>],
      macroNutrients =
        [\<lparr>e_name = ''Nitrogen (N)'', e_value = ''189 kg/ha'', e_status = ''Low''\<rparr>,
         \<lparr>e_name = ''Phosphorus (P)'', e_value = ''15 kg/ha'', e_status = ''Optimal''\<rparr>,
         \<lparr>e_name = ''Potassium (K)'', e_value = ''110 kg/ha'', e_status = ''Low''\<rparr>],
      microNutrients =
        [\<lparr>e_name = ''Zinc (Zn)'', e_value = ''0.5 ppm'', e_status = ''Low''\<rparr>,
         \<lparr>e_name = ''Iron (Fe)'', e_value = ''4.8 ppm'', e_status = ''Optimal''\<rparr>]\<rparr>"

definition soil_heat :: soil where
  "soil_heat =
     \<lparr>general =
        [\<lparr>e_name = ''pH Level'', e_value = ''5.9'', e_status = ''Low''\<rparr>,
         \<lparr>e_name = ''Organic Carbon (OC)'', e_value = ''0.46%'', e_status = ''Low''\<rparr>],
      macroNutrients =
        [\<lparr>e_name = ''Nitrogen (N)'', e_value = ''210 kg/ha'', e_status = ''Low''\<rparr>,
         \<lparr>e_name = ''Phosphorus (P)'', e_value = ''15 kg/ha'', e_status = ''Optimal''\<rparr>,
         \<lparr>e_name = ''Potassium (K)'', e_value = ''114 kg/ha'', e_status = ''Low''\<rparr>],
      microNutrients =
        [\<lparr>e_name = ''Zinc (Zn)'', e_value = ''0.5 ppm'', e_status = ''Low''\<rparr>,
         \<lparr>e_name = ''Iron (Fe)'', e_value = ''4.8 ppm'', e_status = ''Optimal''\<rparr>]\<rparr>"

definition soil_rain_heat :: soil where
  "soil_rain_heat =
     \<lparr>general =
        [\<lparr>e_name = ''pH Level'', e_value = ''5.8'', e_status = ''Low''\<rparr>,
         \<lparr>e_name = ''Organic Carbon (OC)'', e_value = ''0.45%'', e_status = ''Low''\<rparr>],
      macroNutrients =
        [\<lparr>e_name = ''Nitrogen (N)'', e_value = ''189 kg/ha'', e_status = ''Low''\<rparr>,
         \<lparr>e_name = ''Phosphorus (P)'', e_value = ''15 kg/ha'', e_status = ''Optimal''\<rparr>,
         \<lparr>e_name = ''Potassium (K)'', e_value = ''105 kg/ha'', e_status = ''Low''\<rparr>],
      microNutrients =
        [\<lparr>e_name = ''Zinc (Zn)'', e_value = ''0.5 ppm'', e_status = ''Low''\<rparr>,
         \<lparr>e_name = ''Iron (Fe)'', e_value = ''4.8 ppm'', e_status = ''Optimal''\<rparr>]\<rparr>"


text \<open>A forecast day with every absent optional reading replaced by the reading \<open>0\<close>.\<close>

definition spec_zero_filled :: "WeatherDaily \<Rightarrow> WeatherDaily" where
  "spec_zero_filled d =
     d\<lparr>rain := Some (case rain d of None \<Rightarrow> 0 | Some r \<Rightarrow> r),
       wind_speed := Some (case wind_speed d of None \<Rightarrow> 0 | Some w \<Rightarrow> w),
       humidity := Some (case humidity d of None \<Rightarrow> 0 | Some h \<Rightarrow> h)\<rparr>"

definition default_recs :: recommendation_set where
  "default_recs =
     \<lparr>fertilizer = rec_fert_default, zinc = rec_zinc, pH = rec_pH_lime,
      irrigation = rec_irr_default, pest = rec_pest_default\<rparr>"

section \<open>The shoelace formulas as the specification writes them\<close>

text \<open>
  Vertex \<open>i\<close> of the closed loop, the index wrapping from the last vertex to the first;
  the signed area \<open>A = 1/2 * \<Sum> (x\<^sub>i * y\<^sub>i\<^sub>+\<^sub>1 - x\<^sub>i\<^sub>+\<^sub>1 * y\<^sub>i)\<close> and the centroid coordinates
  \<open>Cx = 1/(6A) * \<Sum> (x\<^sub>i + x\<^sub>i\<^sub>+\<^sub>1) * (x\<^sub>i * y\<^sub>i\<^sub>+\<^sub>1 - x\<^sub>i\<^sub>+\<^sub>1 * y\<^sub>i)\<close>, \<open>Cy\<close> alike.
\<close>

definition spec_x :: "(number \<times> number) list \<Rightarrow> nat \<Rightarrow> number" where
  "spec_x ps i = fst (ps ! (i mod length ps))"

definition spec_y :: "(number \<times> number) list \<Rightarrow> nat \<Rightarrow> number" where
  "spec_y ps i = snd (ps ! (i mod length ps))"

definition spec_cross :: "(number \<times> number) list \<Rightarrow> nat \<Rightarrow> number" where
  "spec_cross ps i = spec_x ps i * spec_y ps (i + 1) - spec_x ps (i + 1) * spec_y ps i"

definition spec_area :: "(number \<times> number) list \<Rightarrow> number" where
  "spec_area ps = 1 / 2 * (\<Sum>i<length ps. spec_cross ps i)"

definition spec_Cx :: "(number \<times> number) list \<Rightarrow> number" where
  "spec_Cx ps =
     1 / (6 * spec_area ps) *
     (\<Sum>i<length ps. (spec_x ps i + spec_x ps (i + 1)) * spec_cross ps i)"

definition spec_Cy :: "(number \<times> number) list \<Rightarrow> number" where
  "spec_Cy ps =
     1 / (6 * spec_area ps) *
     (\<Sum>i<length ps. (spec_y ps i + spec_y ps (i + 1)) * spec_cross ps i)"

text \<open>All vertices on one line \<open>a * x + b * y = c\<close>.\<close>

definition spec_collinear :: "(number \<times> number) list \<Rightarrow> bool" where
  "spec_collinear ps \<longleftrightarrow>
     (\<exists>a b c. (a \<noteq> 0 \<or> b \<noteq> 0) \<and> (\<forall>p \<in> set ps. a * fst p + b * snd p = c))"

text \<open>
  A point lies in the convex hull of the vertices when it is a convex combination of them:
  weights that are not negative and add up to \<open>1\<close>.
\<close>

definition spec_in_hull :: "(number \<times> number) list \<Rightarrow> latlon \<Rightarrow> bool" where
  "spec_in_hull ps c \<longleftrightarrow>
     (\<exists>w :: nat \<Rightarrow> real.
        (\<forall>i<length ps. 0 \<le> w i) \<and> (\<Sum>i<length ps. w i) = 1 \<and>
        lat c = (\<Sum>i<length ps. w i * fst (ps ! i)) \<and>
        lon c = (\<Sum>i<length ps. w i * snd (ps ! i)))"

text \<open>
  The signed doubled area of the triangle spanned by the first vertex and edge \<open>i\<close>. In a
  convex polygon listed along its boundary, and in every triangle, all these fan triangles
  have the same orientation.
\<close>

definition spec_fan :: "(number \<times> number) list \<Rightarrow> nat \<Rightarrow> number" where
  "spec_fan ps i =
     (spec_x ps i - spec_x ps 0) * (spec_y ps (i + 1) - spec_y ps 0) -
     (spec_x ps (i + 1) - spec_x ps 0) * (spec_y ps i - spec_y ps 0)"

definition spec_fan_oriented :: "(number \<times> number) list \<Rightarrow> bool" where
  "spec_fan_oriented ps \<longleftrightarrow>
     (\<forall>i<length ps. 0 \<le> spec_fan ps i) \<or> (\<forall>i<length ps. spec_fan ps i \<le> 0)"

text \<open>A bow-tie: the edges from vertex 0 to 1 and from vertex 2 to 3 cross at the origin.\<close>

definition bowtie :: "(number \<times> number) list" where
  "bowtie = [(-2, 2), (3, -3), (3, 3), (-2, -2)]"

text \<open>The square of side 100 centred at the origin.\<close>

definition square100 :: "(number \<times> number) list" where
  "square100 = [(-50, -50), (50, -50), (50, 50), (-50, 50)]"

text \<open>Three vertices on the diagonal.\<close>

definition diagonal3 :: "(number \<times> number) list" where
  "diagonal3 = [(1, 1), (2, 2), (3, 3)]"

text \<open>
  Vertices in convex position, listed along the boundary: any three of them, taken in list
  order, turn the same way.
\<close>

definition spec_turn :: "(number \<times> number) list \<Rightarrow> nat \<Rightarrow> nat \<Rightarrow> nat \<Rightarrow> number" where
  "spec_turn ps i j k =
     (spec_x ps j - spec_x ps i) * (spec_y ps k - spec_y ps i) -
     (spec_x ps k - spec_x ps i) * (spec_y ps j - spec_y ps i)"

definition spec_convex_order :: "(number \<times> number) list \<Rightarrow> bool" where
  "spec_convex_order ps \<longleftrightarrow>
     (\<forall>i j k. i < j \<and> j < k \<and> k < length ps \<longrightarrow> 0 \<le> spec_turn ps i j k) \<or>
     (\<forall>i j k. i < j \<and> j < k \<and> k < length ps \<longrightarrow> spec_turn ps i j k \<le> 0)"

text \<open>
  A field of about 11 m by 10 m in New Delhi, listed along its boundary. The corners are
  the doubles nearest to the decimal coordinates.
\<close>

definition delhi_square :: "(number \<times> number) list" where
  "delhi_square =
     [(fl 28.6139, fl 77.209), (fl 28.614, fl 77.209),
      (fl 28.614, fl 77.2091), (fl 28.6139, fl 77.2091)]"

text \<open>
  Three points of a straight boundary, about 480 m from end to end; as doubles the second
  is exactly half way between the first and the third.
\<close>

definition collinear3 :: "(number \<times> number) list" where
  "collinear3 =
     [(fl 60.1, fl 145.901), (fl 60.1036, fl 145.90575), (fl 60.1072, fl 145.9105)]"

section \<open>The forecast loop\<close>

lemma trailing_snoc: "trailing P (xs @ [x]) = (if P x then trailing P xs + 1 else 0)"
  by (simp add: trailing_def)

lemma trailing_iff:
  "n \<le> trailing P xs \<longleftrightarrow> n \<le> length xs \<and> (\<forall>j<n. P (xs ! (length xs - n + j)))"
proof (induction xs arbitrary: n rule: rev_induct)
  case Nil
  then show ?case by (auto simp add: trailing_def)
next
  case (snoc x xs)
  show ?case
  proof (cases n)
    case 0
    then show ?thesis by simp
  next
    case (Suc k)
    have lhs: "n \<le> trailing P (xs @ [x]) \<longleftrightarrow> P x \<and> k \<le> trailing P xs"
      using Suc by (simp add: trailing_snoc)
    have rhs: "(n \<le> length (xs @ [x]) \<and> (\<forall>j<n. P ((xs @ [x]) ! (length (xs @ [x]) - n + j))))
        \<longleftrightarrow> P x \<and> k \<le> length xs \<and> (\<forall>j<k. P (xs ! (length xs - k + j)))"
    proof (cases "k \<le> length xs")
      case False
      then show ?thesis using Suc by simp
    next
      case True
      have "(\<forall>j<Suc k. P ((xs @ [x]) ! (length xs - k + j)))
          \<longleftrightarrow> P ((xs @ [x]) ! (length xs - k + k)) \<and> (\<forall>j<k. P ((xs @ [x]) ! (length xs - k + j)))"
        by (auto simp: less_Suc_eq)
      also have "\<dots> \<longleftrightarrow> P x \<and> (\<forall>j<k. P (xs ! (length xs - k + j)))"
        using True by (auto simp: nth_append)
      finally show ?thesis using True Suc by simp
    qed
    show ?thesis unfolding lhs rhs using snoc.IH [of k] by blast
  qed
qed

lemma has_run_snoc:
  "spec_has_run P n (xs @ [x]) \<longleftrightarrow> spec_has_run P n xs \<or> n \<le> trailing P (xs @ [x])"
proof
  assume "spec_has_run P n (xs @ [x])"
  then obtain i where i: "i + n \<le> length xs + 1" "\<forall>j<n. P ((xs @ [x]) ! (i + j))"
    by (auto simp: spec_has_run_def)
  show "spec_has_run P n xs \<or> n \<le> trailing P (xs @ [x])"
  proof (cases "i + n \<le> length xs")
    case True
    then have "\<forall>j<n. P (xs ! (i + j))"
      using i(2) by (auto simp: nth_append)
    then show ?thesis using True by (auto simp: spec_has_run_def)
  next
    case False
    then have "i = length (xs @ [x]) - n" "n \<le> length (xs @ [x])"
      using i(1) by auto
    then show ?thesis using i(2) trailing_iff [of n P "xs @ [x]"] by auto
  qed
next
  assume "spec_has_run P n xs \<or> n \<le> trailing P (xs @ [x])"
  then show "spec_has_run P n (xs @ [x])"
  proof
    assume "spec_has_run P n xs"
    then obtain i where i: "i + n \<le> length xs" "\<forall>j<n. P (xs ! (i + j))"
      by (auto simp: spec_has_run_def)
    then have "\<forall>j<n. P ((xs @ [x]) ! (i + j))"
      by (auto simp: nth_append)
    then show ?thesis using i(1) unfolding spec_has_run_def
      by (intro exI [of _ i]) auto
  next
    assume "n \<le> trailing P (xs @ [x])"
    then have "n \<le> length (xs @ [x])" "\<forall>j<n. P ((xs @ [x]) ! (length (xs @ [x]) - n + j))"
      using trailing_iff [of n P "xs @ [x]"] by auto
    then show ?thesis unfolding spec_has_run_def
      by (intro exI [of _ "length (xs @ [x]) - n"]) auto
  qed
qed

lemma has_run_Nil: "spec_has_run P n [] \<longleftrightarrow> n = 0"
  by (auto simp: spec_has_run_def)

lemma forEachDay_snoc: "forEachDay (xs @ [d]) = dayStep d (forEachDay xs)"
  by (simp add: forEachDay_def)

lemma forEachDay_inv:
  "forEachDay xs = (al, h, s, m) \<Longrightarrow>
     al = concat (map spec_day_alerts xs) \<and>
     h = length (filter spec_heavy_rain_day xs) \<and>
     s = trailing spec_dry_hot_day xs \<and>
     (\<forall>n. n \<le> m \<longleftrightarrow> spec_has_run spec_dry_hot_day n xs)"
proof (induction xs arbitrary: al h s m rule: rev_induct)
  case Nil
  then show ?case
    by (auto simp: forEachDay_def trailing_def has_run_Nil)
next
  case (snoc d xs)
  obtain al0 h0 s0 m0 where prev: "forEachDay xs = (al0, h0, s0, m0)"
    by (cases "forEachDay xs") auto
  note IH = snoc.IH [OF prev]
  have step: "dayStep d (al0, h0, s0, m0) = (al, h, s, m)"
    using snoc.prems prev by (simp add: forEachDay_snoc)
  have al: "al = al0 @ spec_day_alerts d"
    using step
    by (auto simp: dayStep_def Let_def spec_day_alerts_def spec_high_wind_day_def
        spec_fungal_day_def nullish_def split: option.splits)
  have h: "h = (if spec_heavy_rain_day d then h0 + 1 else h0)"
    using step
    by (auto simp: dayStep_def Let_def spec_heavy_rain_day_def spec_rainfall_def nullish_def
        split: option.splits)
  have s: "s = (if spec_dry_hot_day d then s0 + 1 else 0)"
    using step by (auto simp: dayStep_def Let_def spec_dry_hot_day_def)
  have m: "m = max m0 s"
    using step by (auto simp: dayStep_def Let_def)
  have s': "s = trailing spec_dry_hot_day (xs @ [d])"
    using s IH by (simp add: trailing_snoc)
  have "\<forall>n. n \<le> m \<longleftrightarrow> spec_has_run spec_dry_hot_day n (xs @ [d])"
    using IH m s' by (simp add: has_run_snoc le_max_iff_disj)
  then show ?case using al h s' IH by simp
qed

lemma max_run_eq:
  assumes "\<forall>n. n \<le> m \<longleftrightarrow> spec_has_run P n xs"
  shows "spec_max_run P xs = m"
proof -
  have "{n. spec_has_run P n xs} = {..m}"
    using assms by auto
  moreover have "Max {..m} = m"
    by (rule Max_eqI) auto
  ultimately show ?thesis by (simp add: spec_max_run_def)
qed

lemma loopAlerts_eq: "loopAlerts daily = concat (map spec_day_alerts daily)"
  using forEachDay_inv [of daily] by (cases "forEachDay daily") (auto simp: loopAlerts_def)

lemma heavyRainDays_eq: "heavyRainDays daily = length (filter spec_heavy_rain_day daily)"
  using forEachDay_inv [of daily] by (cases "forEachDay daily") (auto simp: heavyRainDays_def)

lemma maxHeatStreak_eq: "maxHeatStreak daily = spec_max_run spec_dry_hot_day daily"
proof -
  obtain al h s m where st: "forEachDay daily = (al, h, s, m)"
    by (cases "forEachDay daily") auto
  from forEachDay_inv [OF st] have "spec_max_run spec_dry_hot_day daily = m"
    by (intro max_run_eq) simp
  then show ?thesis using st by (simp add: maxHeatStreak_def)
qed

lemma maxHeatStreak_ge:
  "n \<le> maxHeatStreak daily \<longleftrightarrow> spec_has_run spec_dry_hot_day n daily"
proof -
  obtain al h s m where st: "forEachDay daily = (al, h, s, m)"
    by (cases "forEachDay daily") auto
  from forEachDay_inv [OF st] show ?thesis using st by (simp add: maxHeatStreak_def)
qed

lemma heavyRainDays_ge1: "heavyRainDays daily \<ge> 1 \<longleftrightarrow> (\<exists>d \<in> set daily. spec_heavy_rain_day d)"
proof -
  have "heavyRainDays daily \<ge> 1 \<longleftrightarrow> filter spec_heavy_rain_day daily \<noteq> []"
    by (simp add: heavyRainDays_eq Suc_le_eq)
  then show ?thesis by (simp add: filter_empty_conv)
qed

lemma setAdd_fold:
  "fold setAdd xs acc = acc @ filter (\<lambda>y. y \<notin> set acc) (spec_dedup xs)"
proof (induction xs arbitrary: acc)
  case Nil
  then show ?case by simp
next
  case (Cons x xs)
  show ?case
  proof (cases "x \<in> set acc")
    case True
    then have "fold setAdd (x # xs) acc = acc @ filter (\<lambda>y. y \<notin> set acc) (spec_dedup xs)"
      by (simp add: setAdd_def Cons.IH)
    moreover have "filter (\<lambda>y. y \<notin> set acc) (spec_dedup (x # xs))
        = filter (\<lambda>y. y \<notin> set acc) (spec_dedup xs)"
      using True by (auto intro: filter_cong)
    ultimately show ?thesis by simp
  next
    case False
    then have "fold setAdd (x # xs) acc
        = (acc @ [x]) @ filter (\<lambda>y. y \<notin> set (acc @ [x])) (spec_dedup xs)"
      by (simp add: setAdd_def Cons.IH)
    moreover have "filter (\<lambda>y. y \<notin> set acc) (spec_dedup (x # xs))
        = x # filter (\<lambda>y. y \<notin> set (acc @ [x])) (spec_dedup xs)"
      using False by (auto intro: filter_cong)
    ultimately show ?thesis by simp
  qed
qed

lemma arrayFromSet_eq: "arrayFromSet xs = spec_dedup xs"
  by (simp add: arrayFromSet_def setAdd_fold)

lemma set_spec_dedup: "set (spec_dedup xs) = set xs"
  by (induction xs) auto

lemma distinct_spec_dedup: "distinct (spec_dedup xs)"
  by (induction xs) (auto simp: set_spec_dedup)

lemma spec_dedup_Nil_iff: "spec_dedup xs = [] \<longleftrightarrow> xs = []"
  by (cases xs) auto

section \<open>The soil adjustment\<close>

lemma adjustSoil_flags:
  "adjustSoil heavy heat b =
     adjustSoil (if heavy \<ge> 1 then Suc 0 else 0) (if heat \<ge> 3 then 3 else 0) b"
  by (simp add: adjustSoil_def)

lemma adjust_0_0: "adjustSoil 0 0 detailedSoilData = detailedSoilData"
  by code_simp

lemma adjust_1_0: "adjustSoil (Suc 0) 0 detailedSoilData = soil_rain"
  by code_simp

lemma adjust_0_3: "adjustSoil 0 3 detailedSoilData = soil_heat"
  by code_simp

lemma adjust_1_3: "adjustSoil (Suc 0) 3 detailedSoilData = soil_rain_heat"
  by code_simp

lemma adjustSoil_cases:
  "adjustSoil heavy heat detailedSoilData =
     (if heavy \<ge> 1 then (if heat \<ge> 3 then soil_rain_heat else soil_rain)
      else (if heat \<ge> 3 then soil_heat else detailedSoilData))"
  by (subst adjustSoil_flags) (simp add: adjust_0_0 adjust_1_0 adjust_0_3 adjust_1_3)

lemma adjustedSoil_cases:
  "adjustedSoil (analyzeWeather daily) =
     (if \<exists>d \<in> set daily. spec_heavy_rain_day d
      then (if spec_max_run spec_dry_hot_day daily \<ge> 3 then soil_rain_heat else soil_rain)
      else (if spec_max_run spec_dry_hot_day daily \<ge> 3 then soil_heat else detailedSoilData))"
proof -
  have h: "(1 \<le> heavyRainDays daily) = (\<exists>d \<in> set daily. spec_heavy_rain_day d)"
    by (rule heavyRainDays_ge1)
  have "adjustedSoil (analyzeWeather daily)
      = adjustSoil (heavyRainDays daily) (maxHeatStreak daily) detailedSoilData"
    by (simp add: analyzeWeather_def)
  then show ?thesis
    unfolding adjustSoil_cases h maxHeatStreak_eq .
qed

lemma status_ok_baseline:
  "\<forall>e \<in> set (macroNutrients detailedSoilData @ general detailedSoilData). spec_status_ok e"
  by code_simp

lemma status_ok_rain:
  "\<forall>e \<in> set (macroNutrients soil_rain @ general soil_rain). spec_status_ok e"
  by code_simp

lemma status_ok_heat:
  "\<forall>e \<in> set (macroNutrients soil_heat @ general soil_heat). spec_status_ok e"
  by code_simp

lemma status_ok_rain_heat:
  "\<forall>e \<in> set (macroNutrients soil_rain_heat @ general soil_rain_heat). spec_status_ok e"
  by code_simp

lemma micro_fixed:
  "microNutrients soil_rain = microNutrients detailedSoilData"
  "microNutrients soil_heat = microNutrients detailedSoilData"
  "microNutrients soil_rain_heat = microNutrients detailedSoilData"
  by (simp_all add: soil_rain_def soil_heat_def soil_rain_heat_def detailedSoilData_def)

lemma alert_strings_distinct:
  "distinct [alert_wind, alert_fungal, alert_leaching, alert_drought, alert_none]"
  by (simp add: alert_wind_def alert_fungal_def alert_leaching_def alert_drought_def
      alert_none_def)

lemma set_alerts:
  "set (alerts (analyzeWeather daily)) = set (weekAlerts daily)"
  by (simp add: analyzeWeather_def arrayFromSet_eq set_spec_dedup)

lemma leaching_alert_iff:
  "alert_leaching \<in> set (alerts (analyzeWeather daily)) \<longleftrightarrow>
     (\<exists>d \<in> set daily. spec_heavy_rain_day d)"
proof -
  have h: "(1 \<le> heavyRainDays daily) = (\<exists>d \<in> set daily. spec_heavy_rain_day d)"
    by (rule heavyRainDays_ge1)
  have "alert_leaching \<notin> set (spec_day_alerts d)" for d
    using alert_strings_distinct by (auto simp: spec_day_alerts_def)
  then have "alert_leaching \<notin> set (loopAlerts daily)"
    by (auto simp: loopAlerts_eq)
  then show ?thesis
    unfolding set_alerts weekAlerts_def Let_def h
    using alert_strings_distinct by auto
qed

lemma drought_alert_iff:
  "alert_drought \<in> set (alerts (analyzeWeather daily)) \<longleftrightarrow>
     spec_max_run spec_dry_hot_day daily \<ge> 3"
proof -
  have "alert_drought \<notin> set (spec_day_alerts d)" for d
    using alert_strings_distinct by (auto simp: spec_day_alerts_def)
  then have "alert_drought \<notin> set (loopAlerts daily)"
    by (auto simp: loopAlerts_eq)
  then show ?thesis
    unfolding set_alerts weekAlerts_def Let_def maxHeatStreak_eq
    using alert_strings_distinct by auto
qed

lemma wind_alert_iff:
  "alert_wind \<in> set (alerts (analyzeWeather daily)) \<longleftrightarrow>
     (\<exists>d \<in> set daily. spec_high_wind_day d)"
proof -
  have "alert_wind \<in> set (spec_day_alerts d) \<longleftrightarrow> spec_high_wind_day d" for d
    using alert_strings_distinct by (auto simp: spec_day_alerts_def)
  then have "alert_wind \<in> set (loopAlerts daily) \<longleftrightarrow> (\<exists>d \<in> set daily. spec_high_wind_day d)"
    by (auto simp: loopAlerts_eq)
  then show ?thesis
    unfolding set_alerts weekAlerts_def Let_def
    using alert_strings_distinct by auto
qed

lemma fungal_alert_iff:
  "alert_fungal \<in> set (alerts (analyzeWeather daily)) \<longleftrightarrow>
     (\<exists>d \<in> set daily. spec_fungal_day d)"
proof -
  have "alert_fungal \<in> set (spec_day_alerts d) \<longleftrightarrow> spec_fungal_day d" for d
    using alert_strings_distinct by (auto simp: spec_day_alerts_def)
  then have "alert_fungal \<in> set (loopAlerts daily) \<longleftrightarrow> (\<exists>d \<in> set daily. spec_fungal_day d)"
    by (auto simp: loopAlerts_eq)
  then show ?thesis
    unfolding set_alerts weekAlerts_def Let_def
    using alert_strings_distinct by auto
qed

lemma irrigation_cases:
  "irrigation (recs (analyzeWeather daily)) =
     (if spec_max_run spec_dry_hot_day daily \<ge> 3 then rec_irr_heat
      else if \<exists>d \<in> set daily. spec_heavy_rain_day d then rec_irr_rain else rec_irr_default)"
proof -
  have h: "(heavyRainDays daily \<noteq> 0) = (\<exists>d \<in> set daily. spec_heavy_rain_day d)"
    using heavyRainDays_ge1 [of daily] by auto
  show ?thesis
    using h by (auto simp add: analyzeWeather_def makeRecs_def maxHeatStreak_eq)
qed

lemma max_run_units:
  "spec_max_run spec_dry_hot_day daily = maxHeatStreak daily"
  by (simp add: maxHeatStreak_eq)

section \<open>The polygon centroid\<close>

lemma cyclic_shift:
  fixes f :: "nat \<Rightarrow> real"
  assumes "0 < n"
  shows "(\<Sum>i<n. f ((i + 1) mod n)) = (\<Sum>i<n. f i)"
proof -
  obtain m where n: "n = Suc m"
    using assms by (cases n) auto
  have "(\<Sum>i<Suc m. f ((i + 1) mod Suc m)) = (\<Sum>i<m. f ((i + 1) mod Suc m)) + f 0"
    by simp
  also have "(\<Sum>i<m. f ((i + 1) mod Suc m)) = (\<Sum>i<m. f (Suc i))"
    by (rule sum.cong) auto
  also have "(\<Sum>i<m. f (Suc i)) + f 0 = (\<Sum>i<Suc m. f i)"
    by (subst sum.lessThan_Suc_shift) simp
  finally show ?thesis by (simp add: n)
qed

lemma spec_x_shift: "spec_x ps (i + 1) = spec_x ps ((i + 1) mod length ps)"
  by (simp add: spec_x_def)

lemma spec_y_shift: "spec_y ps (i + 1) = spec_y ps ((i + 1) mod length ps)"
  by (simp add: spec_y_def)

lemma telescope:
  fixes T :: "nat \<Rightarrow> real"
  assumes "ps \<noteq> []"
    and "\<And>i. T i = g (spec_x ps i) (spec_y ps i)"
  shows "(\<Sum>i<length ps. g (spec_x ps (i + 1)) (spec_y ps (i + 1)) - g (spec_x ps i) (spec_y ps i)) = 0"
proof -
  have "(\<Sum>i<length ps. g (spec_x ps (i + 1)) (spec_y ps (i + 1)))
      = (\<Sum>i<length ps. T ((i + 1) mod length ps))"
    unfolding assms(2) using spec_x_shift [of ps] spec_y_shift [of ps] by simp
  also have "\<dots> = (\<Sum>i<length ps. T i)"
    using assms(1) by (intro cyclic_shift) simp
  finally show ?thesis
    by (simp add: sum_subtractf assms(2))
qed

lemma fan_minus_cross:
  "spec_fan ps i - spec_cross ps i =
     (spec_y ps 0 * spec_x ps (i + 1) - spec_x ps 0 * spec_y ps (i + 1)) -
     (spec_y ps 0 * spec_x ps i - spec_x ps 0 * spec_y ps i)"
  by (simp add: spec_fan_def spec_cross_def algebra_simps del: One_nat_def)

lemma sum_fan_eq_cross:
  assumes "ps \<noteq> []"
  shows "(\<Sum>i<length ps. spec_fan ps i) = (\<Sum>i<length ps. spec_cross ps i)"
proof -
  have "(\<Sum>i<length ps. spec_fan ps i - spec_cross ps i) = 0"
    unfolding fan_minus_cross
    by (rule telescope [where g = "\<lambda>x y. spec_y ps 0 * x - spec_x ps 0 * y"
          and T = "\<lambda>i. spec_y ps 0 * spec_x ps i - spec_x ps 0 * spec_y ps i", OF assms]) simp
  then show ?thesis by (simp add: sum_subtractf)
qed

lemma moment_x_pointwise:
  "(spec_x ps 0 + spec_x ps i + spec_x ps (i + 1)) * spec_fan ps i -
   (spec_x ps i + spec_x ps (i + 1)) * spec_cross ps i =
     (\<lambda>x y. spec_y ps 0 * x * x - spec_x ps 0 * x * y
            + spec_x ps 0 * spec_y ps 0 * x - spec_x ps 0 * spec_x ps 0 * y)
       (spec_x ps (i + 1)) (spec_y ps (i + 1)) -
     (\<lambda>x y. spec_y ps 0 * x * x - spec_x ps 0 * x * y
            + spec_x ps 0 * spec_y ps 0 * x - spec_x ps 0 * spec_x ps 0 * y)
       (spec_x ps i) (spec_y ps i)"
  by (simp add: spec_fan_def spec_cross_def algebra_simps del: One_nat_def)

lemma moment_y_pointwise:
  "(spec_y ps 0 + spec_y ps i + spec_y ps (i + 1)) * spec_fan ps i -
   (spec_y ps i + spec_y ps (i + 1)) * spec_cross ps i =
     (\<lambda>x y. spec_y ps 0 * x * y - spec_x ps 0 * y * y
            + spec_y ps 0 * spec_y ps 0 * x - spec_x ps 0 * spec_y ps 0 * y)
       (spec_x ps (i + 1)) (spec_y ps (i + 1)) -
     (\<lambda>x y. spec_y ps 0 * x * y - spec_x ps 0 * y * y
            + spec_y ps 0 * spec_y ps 0 * x - spec_x ps 0 * spec_y ps 0 * y)
       (spec_x ps i) (spec_y ps i)"
  by (simp add: spec_fan_def spec_cross_def algebra_simps del: One_nat_def)

lemma moment_x_fan:
  assumes "ps \<noteq> []"
  shows "(\<Sum>i<length ps. (spec_x ps 0 + spec_x ps i + spec_x ps (i + 1)) * spec_fan ps i)
       = (\<Sum>i<length ps. (spec_x ps i + spec_x ps (i + 1)) * spec_cross ps i)"
proof -
  have "(\<Sum>i<length ps. (spec_x ps 0 + spec_x ps i + spec_x ps (i + 1)) * spec_fan ps i -
      (spec_x ps i + spec_x ps (i + 1)) * spec_cross ps i) = 0"
    unfolding moment_x_pointwise
    by (rule telescope [OF assms, where T = "\<lambda>i. spec_y ps 0 * spec_x ps i * spec_x ps i
          - spec_x ps 0 * spec_x ps i * spec_y ps i
          + spec_x ps 0 * spec_y ps 0 * spec_x ps i - spec_x ps 0 * spec_x ps 0 * spec_y ps i"]) simp
  then show ?thesis by (simp add: sum_subtractf)
qed

lemma moment_y_fan:
  assumes "ps \<noteq> []"
  shows "(\<Sum>i<length ps. (spec_y ps 0 + spec_y ps i + spec_y ps (i + 1)) * spec_fan ps i)
       = (\<Sum>i<length ps. (spec_y ps i + spec_y ps (i + 1)) * spec_cross ps i)"
proof -
  have "(\<Sum>i<length ps. (spec_y ps 0 + spec_y ps i + spec_y ps (i + 1)) * spec_fan ps i -
      (spec_y ps i + spec_y ps (i + 1)) * spec_cross ps i) = 0"
    unfolding moment_y_pointwise
    by (rule telescope [OF assms, where T = "\<lambda>i. spec_y ps 0 * spec_x ps i * spec_y ps i
          - spec_x ps 0 * spec_y ps i * spec_y ps i
          + spec_y ps 0 * spec_y ps 0 * spec_x ps i - spec_x ps 0 * spec_y ps 0 * spec_y ps i"]) simp
  then show ?thesis by (simp add: sum_subtractf)
qed


lemma spec_point_in_set:
  assumes "ps \<noteq> []"
  shows "(spec_x ps i, spec_y ps i) \<in> set ps"
  using assms by (simp add: spec_x_def spec_y_def)

lemma collinear_area:
  assumes "spec_collinear ps"
  shows "spec_area ps = 0"
proof (cases "ps = []")
  case True
  then show ?thesis by (simp add: spec_area_def)
next
  case False
  obtain a b c where ab: "a \<noteq> 0 \<or> b \<noteq> 0"
    and line: "\<forall>p \<in> set ps. a * fst p + b * snd p = c"
    using assms unfolding spec_collinear_def by blast
  have on: "a * spec_x ps i + b * spec_y ps i = c" for i
    using line spec_point_in_set [OF False, of i] by force
  have bx: "b * spec_cross ps i = c * spec_x ps i - c * spec_x ps (i + 1)" for i
  proof -
    have "b * spec_cross ps i =
        spec_x ps i * (b * spec_y ps (i + 1)) - spec_x ps (i + 1) * (b * spec_y ps i)"
      by (simp add: spec_cross_def algebra_simps del: One_nat_def)
    also have "b * spec_y ps (i + 1) = c - a * spec_x ps (i + 1)"
      using on [of "i + 1"] by simp
    also have "b * spec_y ps i = c - a * spec_x ps i"
      using on [of i] by simp
    finally show ?thesis by (simp add: algebra_simps del: One_nat_def)
  qed
  have ay: "a * spec_cross ps i = c * spec_y ps (i + 1) - c * spec_y ps i" for i
  proof -
    have "a * spec_cross ps i =
        (a * spec_x ps i) * spec_y ps (i + 1) - (a * spec_x ps (i + 1)) * spec_y ps i"
      by (simp add: spec_cross_def algebra_simps del: One_nat_def)
    also have "a * spec_x ps (i + 1) = c - b * spec_y ps (i + 1)"
      using on [of "i + 1"] by simp
    also have "a * spec_x ps i = c - b * spec_y ps i"
      using on [of i] by simp
    finally show ?thesis by (simp add: algebra_simps del: One_nat_def)
  qed
  have tx: "(\<Sum>i<length ps. c * spec_x ps (i + 1) - c * spec_x ps i) = 0"
    by (rule telescope [OF False, where g = "\<lambda>x y. c * x" and T = "\<lambda>i. c * spec_x ps i"]) simp
  have ty: "(\<Sum>i<length ps. c * spec_y ps (i + 1) - c * spec_y ps i) = 0"
    by (rule telescope [OF False, where g = "\<lambda>x y. c * y" and T = "\<lambda>i. c * spec_y ps i"]) simp
  have "b * (\<Sum>i<length ps. spec_cross ps i) = - (\<Sum>i<length ps. c * spec_x ps (i + 1) - c * spec_x ps i)"
    unfolding sum_distrib_left bx sum_negf [symmetric] by simp
  then have b0: "b * (\<Sum>i<length ps. spec_cross ps i) = 0"
    using tx by simp
  have "a * (\<Sum>i<length ps. spec_cross ps i) = (\<Sum>i<length ps. c * spec_y ps (i + 1) - c * spec_y ps i)"
    unfolding sum_distrib_left ay by simp
  then have a0: "a * (\<Sum>i<length ps. spec_cross ps i) = 0"
    using ty by simp
  from ab a0 b0 have "(\<Sum>i<length ps. spec_cross ps i) = 0"
    by auto
  then show ?thesis by (simp add: spec_area_def)
qed

lemma weights_at:
  fixes a f :: "nat \<Rightarrow> real"
  assumes "\<forall>i<n. k i < n"
  shows "(\<Sum>j<n. (\<Sum>i<n. if k i = j then a i else 0) * f j) = (\<Sum>i<n. a i * f (k i))"
proof -
  have "(\<Sum>j<n. (\<Sum>i<n. if k i = j then a i else 0) * f j)
      = (\<Sum>j<n. \<Sum>i<n. if k i = j then a i * f j else 0)"
    by (simp add: sum_distrib_right if_distrib [of "\<lambda>x. x * _"] cong: if_cong)
  also have "\<dots> = (\<Sum>i<n. \<Sum>j<n. if k i = j then a i * f j else 0)"
    by (rule sum.swap)
  also have "\<dots> = (\<Sum>i<n. a i * f (k i))"
  proof (rule sum.cong [OF refl])
    fix i assume "i \<in> {..<n}"
    then have "k i \<in> {..<n}" using assms by simp
    then show "(\<Sum>j<n. if k i = j then a i * f j else 0) = a i * f (k i)"
      by (simp add: sum.delta)
  qed
  finally show ?thesis .
qed


lemma fan_weights:
  fixes a f :: "nat \<Rightarrow> real"
  assumes "0 < n"
  defines "w \<equiv> \<lambda>j. (\<Sum>i<n. if 0 = j then a i else 0) + (\<Sum>i<n. if i = j then a i else 0)
      + (\<Sum>i<n. if (i + 1) mod n = j then a i else 0)"
  shows "(\<Sum>j<n. w j * f j) = (\<Sum>i<n. a i * (f 0 + f i + f ((i + 1) mod n)))"
proof -
  have 1: "(\<Sum>j<n. (\<Sum>i<n. if 0 = j then a i else 0) * f j) = (\<Sum>i<n. a i * f 0)"
    using weights_at [of n "\<lambda>i. 0" a f] assms(1) by simp
  have 2: "(\<Sum>j<n. (\<Sum>i<n. if i = j then a i else 0) * f j) = (\<Sum>i<n. a i * f i)"
    using weights_at [of n "\<lambda>i. i" a f] by simp
  have 3: "(\<Sum>j<n. (\<Sum>i<n. if (i + 1) mod n = j then a i else 0) * f j)
      = (\<Sum>i<n. a i * f ((i + 1) mod n))"
    using weights_at [of n "\<lambda>i. (i + 1) mod n" a f] assms(1) by simp
  have "(\<Sum>j<n. w j * f j) =
      (\<Sum>j<n. (\<Sum>i<n. if 0 = j then a i else 0) * f j)
      + (\<Sum>j<n. (\<Sum>i<n. if i = j then a i else 0) * f j)
      + (\<Sum>j<n. (\<Sum>i<n. if (i + 1) mod n = j then a i else 0) * f j)"
    unfolding w_def by (simp add: distrib_right sum.distrib)
  also have "\<dots> = (\<Sum>i<n. a i * f 0) + (\<Sum>i<n. a i * f i) + (\<Sum>i<n. a i * f ((i + 1) mod n))"
    unfolding 1 2 3 ..
  also have "\<dots> = (\<Sum>i<n. a i * (f 0 + f i + f ((i + 1) mod n)))"
    by (simp add: distrib_left sum.distrib)
  finally show ?thesis .
qed

lemma centroid_in_hull:
  assumes ne: "ps \<noteq> []"
    and fan: "spec_fan_oriented ps"
    and area: "spec_area ps \<noteq> 0"
  shows "spec_in_hull ps \<lparr>lat = spec_Cx ps, lon = spec_Cy ps\<rparr>"
proof -
  define n where "n = length ps"
  define F where "F = (\<Sum>i<n. spec_fan ps i)"
  define a where "a = (\<lambda>i. spec_fan ps i / (3 * F))"
  define w where "w = (\<lambda>j. (\<Sum>i<n. if 0 = j then a i else 0)
      + (\<Sum>i<n. if i = j then a i else 0)
      + (\<Sum>i<n. if (i + 1) mod n = j then a i else 0))"
  have n0: "0 < n"
    using ne by (simp add: n_def)
  have Fc: "F = (\<Sum>i<n. spec_cross ps i)"
    unfolding F_def n_def by (rule sum_fan_eq_cross [OF ne])
  have FA: "F = 2 * spec_area ps"
    by (simp add: Fc spec_area_def n_def)
  have F0: "F \<noteq> 0"
    using area FA by simp
  have a_nonneg: "0 \<le> a i" if "i < n" for i
  proof -
    from fan consider "\<forall>i<n. 0 \<le> spec_fan ps i" | "\<forall>i<n. spec_fan ps i \<le> 0"
      unfolding spec_fan_oriented_def n_def by blast
    then show ?thesis
    proof cases
      case 1
      then have "0 \<le> F"
        unfolding F_def by (intro sum_nonneg) simp
      then show ?thesis
        using 1 that F0 by (simp add: a_def)
    next
      case 2
      then have "F \<le> 0"
        unfolding F_def by (intro sum_nonpos) simp
      then show ?thesis
        using 2 that F0 by (simp add: a_def divide_nonpos_nonpos)
    qed
  qed
  have w_nonneg: "\<forall>j<n. 0 \<le> w j"
    unfolding w_def using a_nonneg by (auto intro!: add_nonneg_nonneg sum_nonneg)
  have comb: "(\<Sum>j<n. w j * f j) = (\<Sum>i<n. a i * (f 0 + f i + f ((i + 1) mod n)))"
    for f :: "nat \<Rightarrow> real"
    unfolding w_def by (rule fan_weights [OF n0])
  have suma: "(\<Sum>i<n. a i) = 1 / 3"
    using F0 by (simp add: a_def F_def sum_divide_distrib [symmetric])
  have "(\<Sum>j<n. w j * 1) = (\<Sum>i<n. a i * (1 + 1 + 1))"
    by (rule comb [of "\<lambda>j. 1"])
  then have w_sum: "(\<Sum>j<n. w j) = 1"
    using suma by (simp add: sum_distrib_right [symmetric])
  have x_at: "fst (ps ! 0) = spec_x ps 0" "\<And>i. i < n \<Longrightarrow> fst (ps ! i) = spec_x ps i"
    "\<And>i. fst (ps ! ((i + 1) mod n)) = spec_x ps (i + 1)"
    using n0 by (simp_all add: spec_x_def n_def)
  have y_at: "snd (ps ! 0) = spec_y ps 0" "\<And>i. i < n \<Longrightarrow> snd (ps ! i) = spec_y ps i"
    "\<And>i. snd (ps ! ((i + 1) mod n)) = spec_y ps (i + 1)"
    using n0 by (simp_all add: spec_y_def n_def)
  have "(\<Sum>j<n. w j * fst (ps ! j))
      = (\<Sum>i<n. a i * (fst (ps ! 0) + fst (ps ! i) + fst (ps ! ((i + 1) mod n))))"
    by (rule comb)
  also have "\<dots> = (\<Sum>i<n. a i * (spec_x ps 0 + spec_x ps i + spec_x ps (i + 1)))"
    by (rule sum.cong) (simp_all add: x_at del: One_nat_def)
  also have "\<dots> = (\<Sum>i<n. (spec_x ps 0 + spec_x ps i + spec_x ps (i + 1)) * spec_fan ps i) / (3 * F)"
    by (simp add: a_def sum_divide_distrib mult.commute del: One_nat_def)
  also have "\<dots> = (\<Sum>i<n. (spec_x ps i + spec_x ps (i + 1)) * spec_cross ps i) / (3 * F)"
    unfolding n_def moment_x_fan [OF ne] ..
  also have "\<dots> = spec_Cx ps"
    by (simp add: spec_Cx_def FA n_def del: One_nat_def)
  finally have wx: "(\<Sum>j<n. w j * fst (ps ! j)) = spec_Cx ps" .
  have "(\<Sum>j<n. w j * snd (ps ! j))
      = (\<Sum>i<n. a i * (snd (ps ! 0) + snd (ps ! i) + snd (ps ! ((i + 1) mod n))))"
    by (rule comb)
  also have "\<dots> = (\<Sum>i<n. a i * (spec_y ps 0 + spec_y ps i + spec_y ps (i + 1)))"
    by (rule sum.cong) (simp_all add: y_at del: One_nat_def)
  also have "\<dots> = (\<Sum>i<n. (spec_y ps 0 + spec_y ps i + spec_y ps (i + 1)) * spec_fan ps i) / (3 * F)"
    by (simp add: a_def sum_divide_distrib mult.commute del: One_nat_def)
  also have "\<dots> = (\<Sum>i<n. (spec_y ps i + spec_y ps (i + 1)) * spec_cross ps i) / (3 * F)"
    unfolding n_def moment_y_fan [OF ne] ..
  also have "\<dots> = spec_Cy ps"
    by (simp add: spec_Cy_def FA n_def del: One_nat_def)
  finally have wy: "(\<Sum>j<n. w j * snd (ps ! j)) = spec_Cy ps" .
  show ?thesis
    unfolding spec_in_hull_def
    using w_nonneg w_sum wx wy by (intro exI [of _ w]) (simp add: n_def)
qed

lemma first_vertex_in_hull:
  assumes "ps \<noteq> []"
  shows "spec_in_hull ps \<lparr>lat = fst (ps ! 0), lon = snd (ps ! 0)\<rparr>"
proof -
  have "0 \<in> {..<length ps}"
    using assms by simp
  then have "(\<Sum>i<length ps. (if i = 0 then 1 else 0) * f i) = f 0" for f :: "nat \<Rightarrow> real"
    by (simp add: sum.delta' if_distrib [of "\<lambda>x. x * _"] cong: if_cong)
  from this [of "\<lambda>i. 1"] this [of "\<lambda>i. fst (ps ! i)"] this [of "\<lambda>i. snd (ps ! i)"]
  show ?thesis
    unfolding spec_in_hull_def
    by (intro exI [of _ "\<lambda>i. if i = 0 then 1 else 0"]) simp
qed

section \<open>Rounding to a double\<close>

text \<open>
  \<open>binExp\<close> is the binary exponent, and \<open>fl x\<close> is a point of the grid of doubles
  around \<open>x\<close>, the multiples of \<open>2\<^bsup>e - 52\<^esup>\<close>, at most half a step away from \<open>x\<close>.
\<close>

lemma bitCount_pos: "0 < n \<Longrightarrow> 0 < bitCount n"
  by (subst bitCount.simps) simp

lemma bitCount_bounds:
  "0 < n \<Longrightarrow> 2 ^ (bitCount n - 1) \<le> n \<and> n < 2 ^ bitCount n"
proof (induction n rule: bitCount.induct)
  case (1 n)
  show ?case
  proof (cases "n div 2 = 0")
    case True
    then have "n = 1"
      using 1(2) by auto
    then show ?thesis
      by (simp add: bitCount.simps)
  next
    case False
    then have ih: "2 ^ (bitCount (n div 2) - 1) \<le> n div 2" "n div 2 < 2 ^ bitCount (n div 2)"
      using 1 by auto
    have b: "0 < bitCount (n div 2)"
      using False by (simp add: bitCount_pos)
    have eq: "bitCount n = Suc (bitCount (n div 2))"
      using 1(2) by (subst bitCount.simps) simp
    have "(2 :: nat) ^ bitCount (n div 2) = 2 * 2 ^ (bitCount (n div 2) - 1)"
      using b by (cases "bitCount (n div 2)") simp_all
    moreover have "2 * (n div 2) \<le> n"
      by simp
    ultimately have lo: "2 ^ bitCount (n div 2) \<le> n"
      using ih(1) by linarith
    have hi: "n < 2 * 2 ^ bitCount (n div 2)"
      using ih(2) by linarith
    show ?thesis
      using lo hi by (simp add: eq)
  qed
qed

lemma pow2_powi: "pow2 e = 2 powi e"
  by (simp add: pow2_def power_int_def field_simps)

lemma pow2_pos: "0 < pow2 e"
  by (simp add: pow2_powi)

lemma pow2_add: "pow2 (a + b) = pow2 a * pow2 b"
  by (simp add: pow2_powi power_int_add)

lemma pow2_nat: "pow2 (int n) = 2 ^ n"
  by (simp add: pow2_def)

lemma pow2_neg_nat: "pow2 (- int n) = 1 / 2 ^ n"
  by (simp add: pow2_powi power_int_minus field_simps)

lemma binExp_bounds:
  assumes "0 < x"
  shows "pow2 (binExp x) \<le> x \<and> x < pow2 (binExp x + 1)"
proof (cases "1 \<le> x")
  case True
  define n where "n = nat \<lfloor>x\<rfloor>"
  have n: "0 < n" "real n \<le> x" "x < real n + 1"
    using True by (auto simp: n_def)
  have e: "binExp x = int (bitCount n - 1)"
    using True bitCount_pos [OF n(1)] by (simp add: binExp_def n_def)
  have e1: "binExp x + 1 = int (bitCount n)"
    using bitCount_pos [OF n(1)] by (simp add: e)
  from bitCount_bounds [OF n(1)]
  have "2 ^ (bitCount n - 1) \<le> n" "Suc n \<le> 2 ^ bitCount n"
    by simp_all
  then have "real (2 ^ (bitCount n - 1)) \<le> real n" "real (Suc n) \<le> real (2 ^ bitCount n)"
    by (simp_all only: of_nat_le_iff)
  then have "(2 :: real) ^ (bitCount n - 1) \<le> real n" "real n + 1 \<le> (2 :: real) ^ bitCount n"
    by simp_all
  then have "(2 :: real) ^ (bitCount n - 1) \<le> x \<and> x < (2 :: real) ^ bitCount n"
    using n by linarith
  then show ?thesis
    by (simp only: e1, simp only: e pow2_nat)
next
  case False
  define m where "m = nat \<lfloor>1 / x\<rfloor>"
  define k where "k = bitCount m - 1"
  have inv: "1 < 1 / x"
    using False assms by simp
  have m: "0 < m" "real m \<le> 1 / x" "1 / x < real m + 1"
    using inv by (auto simp: m_def) linarith+
  have bk: "bitCount m = Suc k"
    using bitCount_pos [OF m(1)] by (simp add: k_def)
  from bitCount_bounds [OF m(1)]
  have "2 ^ k \<le> m" "Suc m \<le> 2 ^ Suc k"
    by (simp_all add: k_def [symmetric] bk)
  then have "real (2 ^ k) \<le> real m" "real (Suc m) \<le> real (2 ^ Suc k)"
    by (simp_all only: of_nat_le_iff)
  then have "(2 :: real) ^ k \<le> real m" "real m + 1 \<le> 2 * (2 :: real) ^ k"
    by simp_all
  then have k: "2 ^ k \<le> 1 / x" "1 / x < 2 * 2 ^ k"
    using m by linarith+
  have up: "x * 2 ^ k \<le> 1"
    using k(1) assms by (simp add: field_simps)
  have low: "1 < x * (2 * 2 ^ k)"
    using k(2) assms by (simp add: field_simps)
  show ?thesis
  proof (cases "x * 2 ^ k = 1")
    case True
    then have e: "binExp x = - int k"
      using False by (simp add: binExp_def m_def k_def Let_def)
    have x: "x = 1 / 2 ^ k"
      using True by (simp add: field_simps)
    have "k \<noteq> 0"
    proof
      assume "k = 0"
      then have "x = 1"
        using x by simp
      then show False
        using False by simp
    qed
    then obtain j where j: "k = Suc j"
      by (cases k) auto
    have "binExp x + 1 = - int j"
      by (simp add: e j)
    then show ?thesis
      unfolding e pow2_neg_nat
      by (simp add: pow2_neg_nat x j field_simps)
  next
    case ne: False
    then have e: "binExp x = - int (Suc k)"
      using False by (simp add: binExp_def m_def k_def Let_def)
    have e1: "binExp x + 1 = - int k"
      by (simp add: e)
    have "x * 2 ^ k < 1"
      using up ne by simp
    then have "pow2 (- int (Suc k)) \<le> x \<and> x < pow2 (- int k)"
      unfolding pow2_neg_nat using low assms by (simp add: field_simps)
    then show ?thesis
      by (simp only: e1, simp only: e)
  qed
qed

lemma roundEven_near: "\<bar>of_int (roundEven m) - m\<bar> \<le> 1 / 2"
  by (simp add: roundEven_def Let_def)

lemma fl_grid:
  "\<exists>n :: int. fl x = of_int n * pow2 (max (binExp \<bar>x\<bar>) (- 1022) - 52)"
proof (cases "x = 0")
  case True
  then show ?thesis
    by (intro exI [of _ 0]) (simp add: fl_def)
next
  case False
  define e where "e = max (binExp \<bar>x\<bar>) (- 1022)"
  have "pow2 (e - 52) * pow2 (52 - e) = 1"
    by (simp add: pow2_add [symmetric] pow2_def)
  then have "of_int n / pow2 (52 - e) = of_int n * pow2 (e - 52)" for n :: int
    using pow2_pos [of "52 - e"] by (simp add: field_simps)
  then show ?thesis
    using False
    by (intro exI [of _ "(if 0 < x then 1 else - 1) * roundEven (\<bar>x\<bar> * pow2 (52 - e))"])
      (simp add: fl_def Let_def e_def [symmetric] sgn_if)
qed

lemma fl_nearest: "\<bar>fl x - x\<bar> \<le> pow2 (max (binExp \<bar>x\<bar>) (- 1022) - 53)"
proof (cases "x = 0")
  case True
  then show ?thesis
    using pow2_pos by (simp add: fl_def less_imp_le)
next
  case False
  define e where "e = max (binExp \<bar>x\<bar>) (- 1022)"
  define s where "s = pow2 (52 - e)"
  define n where "n = roundEven (\<bar>x\<bar> * s)"
  have s: "0 < s"
    by (simp add: s_def pow2_pos)
  have "pow2 (e - 53) * pow2 (52 - e) = pow2 (- 1)"
    by (simp add: pow2_add [symmetric])
  then have half: "pow2 (e - 53) = 1 / 2 / s"
    using s by (simp add: s_def pow2_def field_simps)
  have "\<bar>of_int n - \<bar>x\<bar> * s\<bar> \<le> 1 / 2"
    unfolding n_def by (rule roundEven_near)
  then have "\<bar>of_int n - \<bar>x\<bar> * s\<bar> / s \<le> 1 / 2 / s"
    using s by (intro divide_right_mono) simp_all
  moreover have "of_int n / s - \<bar>x\<bar> = (of_int n - \<bar>x\<bar> * s) / s"
    using s by (simp add: field_simps)
  then have "\<bar>of_int n - \<bar>x\<bar> * s\<bar> / s = \<bar>of_int n / s - \<bar>x\<bar>\<bar>"
    using s by (simp only: abs_divide abs_of_pos)
  ultimately have near: "\<bar>of_int n / s - \<bar>x\<bar>\<bar> \<le> pow2 (e - 53)"
    by (simp add: half)
  have "fl x = sgn x * (of_int n / s)"
    using False by (simp add: fl_def Let_def e_def [symmetric] s_def [symmetric] n_def [symmetric])
  then have "\<bar>fl x - x\<bar> = \<bar>of_int n / s - \<bar>x\<bar>\<bar>"
    using False by (cases "0 < x") (simp_all add: sgn_if abs_if)
  then show ?thesis
    using near by (simp add: e_def)
qed

lemmas fl_eval = fl_def binExp_def bitCount.simps pow2_def roundEven_def Let_def

text \<open>
  The decimal \<open>0.1\<close> is not a double, and \<^verbatim>\<open>0.1 + 0.2\<close> is the double above the one
  nearest to \<open>0.3\<close>; \<open>2\<^sup>5\<^sup>3 + 1\<close> lies half way between two doubles and goes to the even
  one.
\<close>

lemma fl_tenth: "fl 0.1 = 3602879701896397 / 36028797018963968"
  by (simp add: fl_eval)

lemma fl_tenth_plus_fifth:
  "fl (fl 0.1 + fl 0.2) = 1351079888211149 / 4503599627370496 \<and>
   fl 0.3 = 5404319552844595 / 18014398509481984 \<and>
   fl 0.3 < fl (fl 0.1 + fl 0.2)"
  by (simp add: fl_eval)

lemma fl_tie_even: "fl (2 ^ 53 + 1) = 2 ^ 53 \<and> fl (2 ^ 53 + 3) = 2 ^ 53 + 4"
  by (simp add: fl_eval)


lemma fl_epsilon: "fl (1 / 10 ^ 12) = 4951760157141521 / 4951760157141521099596496896"
  by (simp add: fl_eval)

lemma fl_zero: "fl 0 = 0"
  by (simp add: fl_def)

lemma fl_small_integers: "fl 6 = 6 \<and> fl (1 / 2) = 1 / 2 \<and> fl (- 50) = - 50 \<and> fl 10000 = 10000"
  by (simp add: fl_eval)

section \<open>Polygons\<close>

lemma all_less_4: "(\<forall>i<4::nat. P i) \<longleftrightarrow> P 0 \<and> P 1 \<and> P 2 \<and> P 3"
  by (auto simp: less_Suc_eq numeral_eq_Suc)

lemma sum_less_4: "(\<Sum>i<4::nat. f i) = f 0 + f 1 + f 2 + (f 3 :: real)"
  by (simp add: numeral_eq_Suc)

lemma sum_less_3: "(\<Sum>i<3::nat. f i) = f 0 + f 1 + (f 2 :: real)"
  by (simp add: numeral_eq_Suc)

lemma bowtie_length: "length bowtie = 4"
  by (simp add: bowtie_def)

lemma square100_length: "length square100 = 4"
  by (simp add: square100_def)

lemma diagonal3_length: "length diagonal3 = 3"
  by (simp add: diagonal3_def)

lemma delhi_square_length: "length delhi_square = 4"
  by (simp add: delhi_square_def)

lemma collinear3_length: "length collinear3 = 3"
  by (simp add: collinear3_def)

subsection \<open>Inputs that every operation of the loop handles exactly\<close>

text \<open>Copies of one point: every cross product is the difference of two equal doubles.\<close>

lemma centroidStep_same: "centroidStep (x, y) (x, y) (0, 0, 0) = (0, 0, 0)"
  by (simp add: centroidStep_def fl_zero)

lemma centroidLoop_replicate: "centroidLoop (replicate n (x, y)) i (0, 0, 0) = (0, 0, 0)"
proof (induction "n - i" arbitrary: i)
  case 0
  then show ?case by (simp add: centroidLoop.simps)
next
  case (Suc k)
  then have "i < n" "k = n - (i + 1)" "(i + 1) mod n < n"
    by auto
  then show ?case
    using Suc.hyps(1) [of "i + 1"]
    by (subst centroidLoop.simps) (simp add: centroidStep_same del: One_nat_def)
qed

lemma computeCentroid_replicate:
  "computeCentroid (replicate (Suc n) (x, y)) = Some \<lparr>lat = x, lon = y\<rparr>"
  unfolding computeCentroid_def centroidLoop_replicate prod.case Let_def
  using fl_epsilon by (simp add: fl_zero)

lemma diagonal3_area: "spec_area diagonal3 = 0"
  unfolding spec_area_def spec_cross_def spec_x_def spec_y_def diagonal3_length sum_less_3
  by (simp add: diagonal3_def)

lemma square100_area: "spec_area square100 = 10000"
  unfolding spec_area_def spec_cross_def spec_x_def spec_y_def square100_length sum_less_4
  by (simp add: square100_def)

lemma square100_formula: "spec_Cx square100 = 0 \<and> spec_Cy square100 = 0"
  unfolding spec_Cx_def spec_Cy_def square100_area
  unfolding spec_cross_def spec_x_def spec_y_def square100_length sum_less_4
  by (simp add: square100_def)

subsection \<open>The formula on a vertex order that crosses itself\<close>

text \<open>
  The bow-tie is not the outline of a polygon: its two lobes have opposite orientation,
  their signed areas 9 and -4 partly cancel, and the formula gives \<open>(14/3, 0)\<close>, beyond
  every vertex.
\<close>

lemma beyond_vertices_outside_hull:
  assumes "list_all (\<lambda>p. fst p < lat c) ps"
  shows "\<not> spec_in_hull ps c"
proof
  assume "spec_in_hull ps c"
  then obtain w :: "nat \<Rightarrow> real" where w: "\<forall>i<length ps. 0 \<le> w i"
    "(\<Sum>i<length ps. w i) = 1" "lat c = (\<Sum>i<length ps. w i * fst (ps ! i))"
    unfolding spec_in_hull_def by blast
  have lt: "fst (ps ! i) < lat c" if "i < length ps" for i
    using assms that by (simp add: list_all_length)
  have "(\<Sum>i<length ps. w i * (lat c - fst (ps ! i))) =
      lat c * (\<Sum>i<length ps. w i) - (\<Sum>i<length ps. w i * fst (ps ! i))"
    by (simp add: algebra_simps sum_subtractf sum_distrib_left)
  then have zero: "(\<Sum>i<length ps. w i * (lat c - fst (ps ! i))) = 0"
    using w by simp
  have nonneg: "0 \<le> w i * (lat c - fst (ps ! i))" if "i \<in> {..<length ps}" for i
    using w(1) lt [of i] that by simp
  have "(\<Sum>i<length ps. w i * (lat c - fst (ps ! i))) = 0 \<longleftrightarrow>
      (\<forall>i\<in>{..<length ps}. w i * (lat c - fst (ps ! i)) = 0)"
    by (rule sum_nonneg_eq_0_iff) (simp_all add: nonneg)
  with zero have "\<forall>i\<in>{..<length ps}. w i * (lat c - fst (ps ! i)) = 0"
    by simp
  then have "\<forall>i\<in>{..<length ps}. w i = 0"
    using lt by fastforce
  then have "(\<Sum>i<length ps. w i) = 0"
    by simp
  with w(2) show False
    by simp
qed

lemma bowtie_area: "spec_area bowtie = 5"
  unfolding spec_area_def spec_cross_def spec_x_def spec_y_def bowtie_length sum_less_4
  by (simp add: bowtie_def)

lemma bowtie_formula: "spec_Cx bowtie = 14 / 3 \<and> spec_Cy bowtie = 0"
  unfolding spec_Cx_def spec_Cy_def bowtie_area
  unfolding spec_cross_def spec_x_def spec_y_def bowtie_length sum_less_4
  by (simp add: bowtie_def)

lemma bowtie_formula_outside_hull:
  "\<not> spec_in_hull bowtie \<lparr>lat = spec_Cx bowtie, lon = spec_Cy bowtie\<rparr>"
proof -
  have "list_all (\<lambda>p. fst p < 14 / 3) bowtie"
    by (simp add: bowtie_def)
  then show ?thesis
    using beyond_vertices_outside_hull [of "\<lparr>lat = 14 / 3, lon = 0\<rparr>" bowtie]
    by (simp add: bowtie_formula)
qed

subsection \<open>The loop, pass by pass\<close>

text \<open>
  Each of the following lemmas is one pass of the loop body on given accumulators, or the
  whole loop, or the whole function, on one of four inputs; the doubles are written as
  fractions. On the square and on the diagonal every intermediate result is an integer and
  nothing is rounded.
\<close>

lemma square100_step0:
  "centroidStep (- 50, - 50)
     (50, - 50)
     (0, 0, 0) =
   (5000, 0, - 500000)"
  unfolding centroidStep_def prod.case Let_def
  by (simp add: fl_eval)

lemma square100_step1:
  "centroidStep (50, - 50)
     (50, 50)
     (5000, 0, - 500000) =
   (10000, 500000, - 500000)"
  unfolding centroidStep_def prod.case Let_def
  by (simp add: fl_eval)

lemma square100_step2:
  "centroidStep (50, 50)
     (- 50, 50)
     (10000, 500000, - 500000) =
   (15000, 500000, 0)"
  unfolding centroidStep_def prod.case Let_def
  by (simp add: fl_eval)

lemma square100_step3:
  "centroidStep (- 50, 50)
     (- 50, - 50)
     (15000, 500000, 0) =
   (20000, 0, 0)"
  unfolding centroidStep_def prod.case Let_def
  by (simp add: fl_eval)

lemma square100_loop:
  "centroidLoop square100 0 (0, 0, 0) =
     (20000, 0, 0)"
  unfolding square100_def
  by (simp add: centroidLoop.simps square100_step0 square100_step1 square100_step2 square100_step3)

lemma square100_centroid:
  "computeCentroid square100 =
     Some \<lparr>lat = 0, lon = 0\<rparr>"
  unfolding computeCentroid_def square100_loop prod.case Let_def
  by (simp add: fl_eval square100_def)

lemma diagonal3_step0:
  "centroidStep (1, 1)
     (2, 2)
     (0, 0, 0) =
   (0, 0, 0)"
  unfolding centroidStep_def prod.case Let_def
  by (simp add: fl_eval)

lemma diagonal3_step1:
  "centroidStep (2, 2)
     (3, 3)
     (0, 0, 0) =
   (0, 0, 0)"
  unfolding centroidStep_def prod.case Let_def
  by (simp add: fl_eval)

lemma diagonal3_step2:
  "centroidStep (3, 3)
     (1, 1)
     (0, 0, 0) =
   (0, 0, 0)"
  unfolding centroidStep_def prod.case Let_def
  by (simp add: fl_eval)

lemma diagonal3_loop:
  "centroidLoop diagonal3 0 (0, 0, 0) =
     (0, 0, 0)"
  unfolding diagonal3_def
  by (simp add: centroidLoop.simps diagonal3_step0 diagonal3_step1 diagonal3_step2)

lemma diagonal3_centroid:
  "computeCentroid diagonal3 =
     Some \<lparr>lat = 1, lon = 1\<rparr>"
  unfolding computeCentroid_def diagonal3_loop prod.case Let_def
  by (simp add: fl_eval diagonal3_def)

lemma delhi_square_vertices:
  "delhi_square =
     [(503381052256315 / 17592186044416, 1358275092303315 / 17592186044416),
      (8054124983598711 / 281474976710656, 1358275092303315 / 17592186044416),
      (8054124983598711 / 281474976710656, 2716553703043839 / 35184372088832),
      (503381052256315 / 17592186044416, 2716553703043839 / 35184372088832)]"
  by (simp add: delhi_square_def fl_eval)

lemma delhi_square_step0:
  "centroidStep (503381052256315 / 17592186044416, 1358275092303315 / 17592186044416)
     (8054124983598711 / 281474976710656, 1358275092303315 / 17592186044416)
     (0, 0, 0) =
   (- (8489219327 / 1099511627776), - (7959678070351845 / 18014398509481984), - (2684699177035133 / 2251799813685248))"
  unfolding centroidStep_def prod.case Let_def
  by (simp add: fl_eval)

lemma delhi_square_step1:
  "centroidStep (8054124983598711 / 281474976710656, 1358275092303315 / 17592186044416)
     (8054124983598711 / 281474976710656, 2716553703043839 / 35184372088832)
     (- (8489219327 / 1099511627776), - (7959678070351845 / 18014398509481984), - (2684699177035133 / 2251799813685248)) =
   (- (5343076755 / 1099511627776), - (5009780696894789 / 18014398509481984), - (3379474070484307 / 4503599627370496))"
  unfolding centroidStep_def prod.case Let_def
  by (simp add: fl_eval)

lemma delhi_square_step2:
  "centroidStep (8054124983598711 / 281474976710656, 2716553703043839 / 35184372088832)
     (503381052256315 / 17592186044416, 2716553703043839 / 35184372088832)
     (- (5343076755 / 1099511627776), - (5009780696894789 / 18014398509481984), - (3379474070484307 / 4503599627370496)) =
   (3146153567 / 1099511627776, 737476920652499 / 4503599627370496, 994969096129183 / 2251799813685248)"
  unfolding centroidStep_def prod.case Let_def
  by (simp add: fl_eval)

lemma delhi_square_step3:
  "centroidStep (503381052256315 / 17592186044416, 2716553703043839 / 35184372088832)
     (503381052256315 / 17592186044416, 1358275092303315 / 17592186044416)
     (3146153567 / 1099511627776, 737476920652499 / 4503599627370496, 994969096129183 / 2251799813685248) =
   (10995 / 549755813888, 15463783923 / 9007199254740992, 10431485919 / 2251799813685248)"
  unfolding centroidStep_def prod.case Let_def
  by (simp add: fl_eval)

lemma delhi_square_loop:
  "centroidLoop delhi_square 0 (0, 0, 0) =
     (10995 / 549755813888, 15463783923 / 9007199254740992, 10431485919 / 2251799813685248)"
  unfolding delhi_square_vertices
  by (simp add: centroidLoop.simps delhi_square_step0 delhi_square_step1 delhi_square_step2 delhi_square_step3)

lemma delhi_square_centroid:
  "computeCentroid delhi_square =
     Some \<lparr>lat = 8054139302312637 / 281474976710656, lon = 5433123040265515 / 70368744177664\<rparr>"
  unfolding computeCentroid_def delhi_square_loop prod.case Let_def
  by (simp add: fl_eval delhi_square_def)

lemma collinear3_vertices:
  "collinear3 =
     [(8458323050155213 / 140737488355328, 2566717536066339 / 17592186044416),
      (2114707426278323 / 35184372088832, 1283400549475025 / 8796093022208),
      (8459336360071371 / 140737488355328, 2566884661833761 / 17592186044416)]"
  by (simp add: collinear3_def fl_eval)

lemma collinear3_step0:
  "centroidStep (8458323050155213 / 140737488355328, 2566717536066339 / 17592186044416)
     (2114707426278323 / 35184372088832, 1283400549475025 / 8796093022208)
     (0, 0, 0) =
   (- (131814181837 / 549755813888), - (4056202032092675 / 140737488355328), - (9616067001441 / 137438953472))"
  unfolding centroidStep_def prod.case Let_def
  by (simp add: fl_eval)

lemma collinear3_step1:
  "centroidStep (2114707426278323 / 35184372088832, 1283400549475025 / 8796093022208)
     (8459336360071371 / 140737488355328, 2566884661833761 / 17592186044416)
     (- (131814181837 / 549755813888), - (4056202032092675 / 140737488355328), - (9616067001441 / 137438953472)) =
   (- (131814181837 / 274877906944), - (126760109751333 / 2199023255552), - (4923506447760349 / 35184372088832))"
  unfolding centroidStep_def prod.case Let_def
  by (simp add: fl_eval)

lemma collinear3_step2:
  "centroidStep (8459336360071371 / 140737488355328, 2566884661833761 / 17592186044416)
     (8458323050155213 / 140737488355328, 2566717536066339 / 17592186044416)
     (- (131814181837 / 274877906944), - (126760109751333 / 2199023255552), - (4923506447760349 / 35184372088832)) =
   (1 / 274877906944, 61547 / 140737488355328, 4669 / 4398046511104)"
  unfolding centroidStep_def prod.case Let_def
  by (simp add: fl_eval)

lemma collinear3_loop:
  "centroidLoop collinear3 0 (0, 0, 0) =
     (1 / 274877906944, 61547 / 140737488355328, 4669 / 4398046511104)"
  unfolding collinear3_vertices
  by (simp add: centroidLoop.simps collinear3_step0 collinear3_step1 collinear3_step2)

lemma collinear3_centroid:
  "computeCentroid collinear3 =
     Some \<lparr>lat = 5639303512894123 / 140737488355328, lon = 6844826386781525 / 70368744177664\<rparr>"
  unfolding computeCentroid_def collinear3_loop prod.case Let_def
  by (simp add: fl_eval collinear3_def)

subsection \<open>Convex position\<close>

lemma fan_as_turn:
  assumes "i < length ps"
  shows "spec_fan ps i =
     (if i = 0 \<or> i + 1 = length ps then 0 else spec_turn ps 0 i (i + 1))"
proof (cases "i = 0 \<or> i + 1 = length ps")
  case True
  then show ?thesis
    using assms by (auto simp: spec_fan_def spec_x_def spec_y_def)
next
  case False
  then show ?thesis
    by (simp add: spec_fan_def spec_turn_def)
qed

lemma convex_order_fan_oriented:
  assumes "spec_convex_order ps"
  shows "spec_fan_oriented ps"
proof -
  from assms consider
    "\<forall>i j k. i < j \<and> j < k \<and> k < length ps \<longrightarrow> 0 \<le> spec_turn ps i j k"
    | "\<forall>i j k. i < j \<and> j < k \<and> k < length ps \<longrightarrow> spec_turn ps i j k \<le> 0"
    unfolding spec_convex_order_def by blast
  then show ?thesis
  proof cases
    case 1
    have "0 \<le> spec_fan ps i" if "i < length ps" for i
    proof (cases "i = 0 \<or> i + 1 = length ps")
      case True
      then show ?thesis using that by (simp add: fan_as_turn)
    next
      case False
      then have "0 < i \<and> i < i + 1 \<and> i + 1 < length ps"
        using that by auto
      then have "0 \<le> spec_turn ps 0 i (i + 1)"
        using 1 by blast
      then show ?thesis using that False by (simp add: fan_as_turn)
    qed
    then show ?thesis unfolding spec_fan_oriented_def by blast
  next
    case 2
    have "spec_fan ps i \<le> 0" if "i < length ps" for i
    proof (cases "i = 0 \<or> i + 1 = length ps")
      case True
      then show ?thesis using that by (simp add: fan_as_turn)
    next
      case False
      then have "0 < i \<and> i < i + 1 \<and> i + 1 < length ps"
        using that by auto
      then have "spec_turn ps 0 i (i + 1) \<le> 0"
        using 2 by blast
      then show ?thesis using that False by (simp add: fan_as_turn)
    qed
    then show ?thesis unfolding spec_fan_oriented_def by blast
  qed
qed

lemma triangle_convex_order:
  assumes "length ps = 3"
  shows "spec_convex_order ps"
proof -
  have only: "i = 0 \<and> j = 1 \<and> k = 2" if "i < j \<and> j < k \<and> k < length ps" for i j k :: nat
    using that assms by auto
  show ?thesis
  proof (cases "0 \<le> spec_turn ps 0 1 2")
    case True
    then have "\<forall>i j k. i < j \<and> j < k \<and> k < length ps \<longrightarrow> 0 \<le> spec_turn ps i j k"
      using only by blast
    then show ?thesis unfolding spec_convex_order_def by blast
  next
    case False
    then have "\<forall>i j k. i < j \<and> j < k \<and> k < length ps \<longrightarrow> spec_turn ps i j k \<le> 0"
      using only by (metis linear)
    then show ?thesis unfolding spec_convex_order_def by blast
  qed
qed

subsection \<open>The two fields\<close>

lemma triples_less_4:
  assumes "i < j \<and> j < k \<and> k < (4 :: nat)"
  shows "i = 0 \<and> j = 1 \<and> k = 2 \<or> i = 0 \<and> j = 1 \<and> k = 3 \<or>
     i = 0 \<and> j = 2 \<and> k = 3 \<or> i = 1 \<and> j = 2 \<and> k = 3"
  using assms by auto

lemma delhi_square_turns:
  "0 \<le> spec_turn delhi_square 0 1 2" "0 \<le> spec_turn delhi_square 0 1 3"
  "0 \<le> spec_turn delhi_square 0 2 3" "0 \<le> spec_turn delhi_square 1 2 3"
  unfolding spec_turn_def spec_x_def spec_y_def delhi_square_length
  by (simp_all add: delhi_square_vertices)

lemma delhi_square_convex: "spec_convex_order delhi_square"
proof -
  have "0 \<le> spec_turn delhi_square i j k"
    if "i < j \<and> j < k \<and> k < length delhi_square" for i j k
    using triples_less_4 [of i j k] that delhi_square_turns
    by (auto simp: delhi_square_length)
  then show ?thesis
    unfolding spec_convex_order_def by blast
qed

lemma delhi_square_area:
  "spec_area delhi_square = 99035203145887240239 / 9903520314283042199192993792"
  unfolding spec_area_def spec_cross_def spec_x_def spec_y_def delhi_square_length sum_less_4
  by (simp add: delhi_square_vertices)

text \<open>The formula gives the middle of the rectangle.\<close>

lemma delhi_square_formula:
  "spec_Cx delhi_square = 16108221819699751 / 2 ^ 49 \<and>
   spec_Cy delhi_square = 5433103887650469 / 2 ^ 46"
  unfolding spec_Cx_def spec_Cy_def delhi_square_area
  unfolding spec_cross_def spec_x_def spec_y_def delhi_square_length sum_less_4
  by (simp add: delhi_square_vertices)

lemma delhi_square_formula_in_hull:
  "spec_in_hull delhi_square \<lparr>lat = spec_Cx delhi_square, lon = spec_Cy delhi_square\<rparr>"
proof -
  have "delhi_square \<noteq> []"
    by (simp add: delhi_square_def)
  moreover have "spec_fan_oriented delhi_square"
    using delhi_square_convex by (rule convex_order_fan_oriented)
  moreover have "spec_area delhi_square \<noteq> 0"
    by (simp add: delhi_square_area)
  ultimately show ?thesis
    by (rule centroid_in_hull)
qed

lemma collinear3_collinear: "spec_collinear collinear3"
  unfolding spec_collinear_def
  by (intro exI [of _ "83562883711 / 8796093022208"]
      exI [of _ "- (506654958079 / 70368744177664)"]
      exI [of _ "- (296819150103067136094283669 / 618970019642690137449562112)"])
    (simp add: collinear3_vertices)

lemma collinear3_area: "spec_area collinear3 = 0"
  using collinear3_collinear by (rule collinear_area)


section \<open>The copy in the store\<close>

lemma baseline_names_shape:
  assumes "baseline_names v"
  obtains g1 g2 m1 m2 m3 z1 z2 where
    "general v = [g1, g2]" "macroNutrients v = [m1, m2, m3]" "microNutrients v = [z1, z2]"
    "e_name g1 = ''pH Level''" "e_name g2 = ''Organic Carbon (OC)''"
    "e_name m1 = ''Nitrogen (N)''" "e_name m2 = ''Phosphorus (P)''"
    "e_name m3 = ''Potassium (K)''"
    "e_name z1 = ''Zinc (Zn)''" "e_name z2 = ''Iron (Fe)''"
  using assms unfolding baseline_names_def by (auto simp: map_eq_Cons_conv)

lemma parseSoil_laidOut:
  assumes "baseline_names v"
  shows "parseSoil v s =
     (next_free s + 10, s\<lparr>heap := laidOut (next_free s) v (heap s), next_free := next_free s + 11\<rparr>)"
proof -
  from assms obtain g1 g2 m1 m2 m3 z1 z2 where
    sh: "general v = [g1, g2]" "macroNutrients v = [m1, m2, m3]" "microNutrients v = [z1, z2]"
    by (rule baseline_names_shape)
  show ?thesis
    by (simp add: parseSoil_def parseArray_def alloc_def Let_def sh laidOut_def entryObj_def
        numeral_eq_Suc)
qed


lemma laidOut_below: "a < n \<Longrightarrow> laidOut n v h a = h a"
  by (simp add: laidOut_def)

lemma laidOut_at:
  "laidOut n v h n = Some (entryObj (general v ! 0))"
  "laidOut n v h (n + 1) = Some (entryObj (general v ! 1))"
  "laidOut n v h (n + 2) = Some (Arr [n, n + 1])"
  "laidOut n v h (n + 3) = Some (entryObj (macroNutrients v ! 0))"
  "laidOut n v h (n + 4) = Some (entryObj (macroNutrients v ! 1))"
  "laidOut n v h (n + 5) = Some (entryObj (macroNutrients v ! 2))"
  "laidOut n v h (n + 6) = Some (Arr [n + 3, n + 4, n + 5])"
  "laidOut n v h (n + 7) = Some (entryObj (microNutrients v ! 0))"
  "laidOut n v h (n + 8) = Some (entryObj (microNutrients v ! 1))"
  "laidOut n v h (n + 9) = Some (Arr [n + 7, n + 8])"
  "laidOut n v h (n + 10) = Some (Soil (n + 2) (n + 6) (n + 9))"
  "laidOut n v h (Suc n) = Some (entryObj (general v ! 1))"
  "laidOut n v h (Suc (Suc n)) = Some (Arr [n, n + 1])"
  by (simp_all add: laidOut_def)

lemma laidOut_arrays:
  assumes "heap t = laidOut n v h"
  shows "generalOf t (n + 10) = [n, n + 1]"
    and "macroOf t (n + 10) = [n + 3, n + 4, n + 5]"
    and "microOf t (n + 10) = [n + 7, n + 8]"
  by (simp_all add: generalOf_def macroOf_def microOf_def assms laidOut_at)

lemma readEntry_entryObj:
  "heap t a = Some (entryObj e) \<Longrightarrow> readEntry t a = Some e"
  by (simp add: readEntry_def entryObj_def)

lemma laidOut_read:
  assumes "baseline_names v" and "heap t = laidOut n v h"
  shows "stringifySoil t (n + 10) = Some v"
proof -
  from assms(1) obtain g1 g2 m1 m2 m3 z1 z2 where
    sh: "general v = [g1, g2]" "macroNutrients v = [m1, m2, m3]" "microNutrients v = [z1, z2]"
    by (rule baseline_names_shape)
  have v: "v = \<lparr>general = [g1, g2], macroNutrients = [m1, m2, m3], microNutrients = [z1, z2]\<rparr>"
    using sh by simp
  have g: "readArray t (n + 2) = Some [g1, g2]"
    by (simp add: readArray_def assms(2) laidOut_at readEntry_entryObj sh)
  have m: "readArray t (n + 6) = Some [m1, m2, m3]"
    by (simp add: readArray_def assms(2) laidOut_at readEntry_entryObj sh)
  have z: "readArray t (n + 9) = Some [z1, z2]"
    by (simp add: readArray_def assms(2) laidOut_at readEntry_entryObj sh)
  have "stringifySoil t (n + 10) =
      Some \<lparr>general = [g1, g2], macroNutrients = [m1, m2, m3], microNutrients = [z1, z2]\<rparr>"
    using g m z by (simp add: stringifySoil_def assms(2) laidOut_at)
  with v show ?thesis by simp
qed

lemma laidOut_objects:
  assumes "heap t = laidOut n v h"
  shows "soilObjects t (n + 10) = {n..n + 10}"
proof -
  have "soilObjects t (n + 10) =
      {n + 10, n + 2, n + 6, n + 9} \<union> {n, n + 1} \<union> {n + 3, n + 4, n + 5} \<union> {n + 7, n + 8}"
    by (simp add: soilObjects_def laidOut_arrays [OF assms] assms laidOut_at)
  also have "\<dots> = {n..n + 10}"
    by (rule set_eqI) (simp, presburger)
  finally show ?thesis .
qed


lemma laidOut_entries:
  assumes "heap t = laidOut n v h"
  shows "readEntry t n = Some (general v ! 0)"
    and "readEntry t (n + 1) = Some (general v ! 1)"
    and "readEntry t (n + 3) = Some (macroNutrients v ! 0)"
    and "readEntry t (n + 4) = Some (macroNutrients v ! 1)"
    and "readEntry t (n + 5) = Some (macroNutrients v ! 2)"
    and "readEntry t (n + 7) = Some (microNutrients v ! 0)"
    and "readEntry t (n + 8) = Some (microNutrients v ! 1)"
    and "readEntry t (Suc n) = Some (general v ! 1)"
  by (simp_all add: readEntry_entryObj assms laidOut_at)


lemma setValue_entry:
  "heap s a = Some (Entry nm x st) \<Longrightarrow>
     setValue a y s = s\<lparr>heap := (heap s)(a \<mapsto> Entry nm y st)\<rparr>"
  by (simp add: setValue_def)

lemma getValue_entry: "heap s a = Some (Entry nm x st) \<Longrightarrow> getValue s a = x"
  by (simp add: getValue_def)

lemma heavyRainAdjust_names:
  assumes "baseline_names v"
  shows "baseline_names (heavyRainAdjust v)"
proof -
  from assms obtain g1 g2 m1 m2 m3 z1 z2 where
    sh: "general v = [g1, g2]" "macroNutrients v = [m1, m2, m3]" "microNutrients v = [z1, z2]"
    and nm: "e_name g1 = ''pH Level''" "e_name g2 = ''Organic Carbon (OC)''"
    "e_name m1 = ''Nitrogen (N)''" "e_name m2 = ''Phosphorus (P)''"
    "e_name m3 = ''Potassium (K)''" "e_name z1 = ''Zinc (Zn)''" "e_name z2 = ''Iron (Fe)''"
    by (rule baseline_names_shape)
  show ?thesis
    by (simp add: baseline_names_def heavyRainAdjust_def Let_def sh nm nameHas_def)
qed

lemma heavyRainAdjust_sim:
  assumes "baseline_names v" and "heap t = laidOut n v h"
  shows "heavyRainAdjust_store (n + 10) t = t\<lparr>heap := laidOut n (heavyRainAdjust v) h\<rparr>"
proof -
  from assms(1) obtain g1 g2 m1 m2 m3 z1 z2 where
    sh: "general v = [g1, g2]" "macroNutrients v = [m1, m2, m3]" "microNutrients v = [z1, z2]"
    and nm: "e_name g1 = ''pH Level''" "e_name g2 = ''Organic Carbon (OC)''"
    "e_name m1 = ''Nitrogen (N)''" "e_name m2 = ''Phosphorus (P)''"
    "e_name m3 = ''Potassium (K)''" "e_name z1 = ''Zinc (Zn)''" "e_name z2 = ''Iron (Fe)''"
    by (rule baseline_names_shape)
  note arr = laidOut_arrays [OF assms(2)]
  note ent = laidOut_entries [OF assms(2)]
  have refs:
    "findRef t (nameHas ''(N)'') [n + 3, n + 4, n + 5] = Some (n + 3)"
    "findRef t (nameHas ''(K)'') [n + 3, n + 4, n + 5] = Some (n + 5)"
    "findRef t (nameHas ''pH'') [n, n + 1] = Some n"
    "findRef t (nameHas ''Organic Carbon'') [n, n + 1] = Some (n + 1)"
    by (simp_all add: ent sh nm nameHas_def)
  have pure: "heavyRainAdjust v =
      v\<lparr>general :=
          [g1\<lparr>e_value := toFixed 1 (max 0 (num (Str (e_value g1)) - 0.1))\<rparr>,
           g2\<lparr>e_value := toFixed 2 (max 0 (num (Str (e_value g2)) * 0.98)) @ ''%''\<rparr>],
        macroNutrients :=
          [m1\<lparr>e_value := toFixed 0 (max 0 (num (Str (e_value m1)) * 0.9)) @ '' kg/ha''\<rparr>,
           m2,
           m3\<lparr>e_value := toFixed 0 (max 0 (num (Str (e_value m3)) * 0.92)) @ '' kg/ha''\<rparr>]\<rparr>"
    by (simp add: heavyRainAdjust_def Let_def sh nm nameHas_def)
  show ?thesis
    unfolding heavyRainAdjust_store_def arr refs Let_def assignValue_def pure
    by (simp add: setValue_def getValue_def assms(2) laidOut_def entryObj_def sh fun_eq_iff)
qed


lemma heatStreakAdjust_names:
  assumes "baseline_names v"
  shows "baseline_names (heatStreakAdjust v)"
proof -
  from assms obtain g1 g2 m1 m2 m3 z1 z2 where
    sh: "general v = [g1, g2]" "macroNutrients v = [m1, m2, m3]" "microNutrients v = [z1, z2]"
    and nm: "e_name g1 = ''pH Level''" "e_name g2 = ''Organic Carbon (OC)''"
    "e_name m1 = ''Nitrogen (N)''" "e_name m2 = ''Phosphorus (P)''"
    "e_name m3 = ''Potassium (K)''" "e_name z1 = ''Zinc (Zn)''" "e_name z2 = ''Iron (Fe)''"
    by (rule baseline_names_shape)
  show ?thesis
    by (simp add: baseline_names_def heatStreakAdjust_def Let_def sh nm nameHas_def)
qed

lemma heatStreakAdjust_sim:
  assumes "baseline_names v" and "heap t = laidOut n v h"
  shows "heatStreakAdjust_store (n + 10) t = t\<lparr>heap := laidOut n (heatStreakAdjust v) h\<rparr>"
proof -
  from assms(1) obtain g1 g2 m1 m2 m3 z1 z2 where
    sh: "general v = [g1, g2]" "macroNutrients v = [m1, m2, m3]" "microNutrients v = [z1, z2]"
    and nm: "e_name g1 = ''pH Level''" "e_name g2 = ''Organic Carbon (OC)''"
    "e_name m1 = ''Nitrogen (N)''" "e_name m2 = ''Phosphorus (P)''"
    "e_name m3 = ''Potassium (K)''" "e_name z1 = ''Zinc (Zn)''" "e_name z2 = ''Iron (Fe)''"
    by (rule baseline_names_shape)
  note arr = laidOut_arrays [OF assms(2)]
  note ent = laidOut_entries [OF assms(2)]
  have refs:
    "findRef t (nameHas ''(K)'') [n + 3, n + 4, n + 5] = Some (n + 5)"
    "findRef t (nameHas ''pH'') [n, n + 1] = Some n"
    "findRef t (nameHas ''Organic Carbon'') [n, n + 1] = Some (n + 1)"
    by (simp_all add: ent sh nm nameHas_def)
  have pure: "heatStreakAdjust v =
      v\<lparr>general :=
          [g1\<lparr>e_value := toFixed 1 (num (Str (e_value g1)) + 0.1)\<rparr>,
           g2\<lparr>e_value := toFixed 2 (num (Str (e_value g2)) * 1.03) @ ''%''\<rparr>],
        macroNutrients :=
          [m1, m2,
           m3\<lparr>e_value := toFixed 0 (max 0 (num (Str (e_value m3)) * 0.95)) @ '' kg/ha''\<rparr>]\<rparr>"
    by (simp add: heatStreakAdjust_def Let_def sh nm nameHas_def)
  show ?thesis
    unfolding heatStreakAdjust_store_def arr refs Let_def assignValue_def pure
    by (simp add: setValue_def getValue_def assms(2) laidOut_def entryObj_def sh fun_eq_iff)
qed

lemma setStatus_names:
  assumes "baseline_names v"
  shows "baseline_names (setStatus v)"
proof -
  from assms obtain g1 g2 m1 m2 m3 z1 z2 where
    sh: "general v = [g1, g2]" "macroNutrients v = [m1, m2, m3]" "microNutrients v = [z1, z2]"
    and nm: "e_name g1 = ''pH Level''" "e_name g2 = ''Organic Carbon (OC)''"
    "e_name m1 = ''Nitrogen (N)''" "e_name m2 = ''Phosphorus (P)''"
    "e_name m3 = ''Potassium (K)''" "e_name z1 = ''Zinc (Zn)''" "e_name z2 = ''Iron (Fe)''"
    by (rule baseline_names_shape)
  show ?thesis
    by (simp add: baseline_names_def setStatus_def setEntryStatus_def Let_def sh nm)
qed

lemma setStatus_sim:
  assumes "baseline_names v" and "heap t = laidOut n v h"
  shows "setStatus_store (n + 10) t = t\<lparr>heap := laidOut n (setStatus v) h\<rparr>"
proof -
  from assms(1) obtain g1 g2 m1 m2 m3 z1 z2 where
    sh: "general v = [g1, g2]" "macroNutrients v = [m1, m2, m3]" "microNutrients v = [z1, z2]"
    and nm: "e_name g1 = ''pH Level''" "e_name g2 = ''Organic Carbon (OC)''"
    "e_name m1 = ''Nitrogen (N)''" "e_name m2 = ''Phosphorus (P)''"
    "e_name m3 = ''Potassium (K)''" "e_name z1 = ''Zinc (Zn)''" "e_name z2 = ''Iron (Fe)''"
    by (rule baseline_names_shape)
  note arr = laidOut_arrays [OF assms(2)]
  note ent = laidOut_entries [OF assms(2)]
  have nums:
    "readNum_store t ''(N)'' [n + 3, n + 4, n + 5] = num (Str (e_value m1))"
    "readNum_store t ''(P)'' [n + 3, n + 4, n + 5] = num (Str (e_value m2))"
    "readNum_store t ''(K)'' [n + 3, n + 4, n + 5] = num (Str (e_value m3))"
    "readNum_store t ''pH'' [n, n + 1] = num (Str (e_value g1))"
    "readNum_store t ''Organic Carbon'' [n, n + 1] = num (Str (e_value g2))"
    by (simp_all add: readNum_store_def ent sh nm nameHas_def getValue_def assms(2) laidOut_at
        entryObj_def)
  have pure: "setStatus v =
      v\<lparr>general :=
          [g1\<lparr>e_status := grade 6.0 7.5 (num (Str (e_value g1)))\<rparr>,
           g2\<lparr>e_status := grade 0.75 1.5 (num (Str (e_value g2)))\<rparr>],
        macroNutrients :=
          [m1\<lparr>e_status := grade 250 350 (num (Str (e_value m1)))\<rparr>,
           m2\<lparr>e_status := grade 12 30 (num (Str (e_value m2)))\<rparr>,
           m3\<lparr>e_status := grade 150 300 (num (Str (e_value m3)))\<rparr>]\<rparr>"
    by (simp add: setStatus_def setEntryStatus_def readNum_def Let_def sh nm nameHas_def)
  show ?thesis
    unfolding setStatus_store_def arr nums Let_def pure
    by (simp add: setEntryStatus_store_def setStatusField_def macroOf_def generalOf_def
        readEntry_def assms(2) laidOut_def entryObj_def sh nm fun_eq_iff)
qed


lemma baseline_names_detailed: "baseline_names detailedSoilData"
  by (simp add: baseline_names_def detailedSoilData_def)

lemma adjustSoil_names:
  assumes "baseline_names v"
  shows "baseline_names (adjustSoil heavy heat v)"
  using assms
  by (simp add: adjustSoil_def Let_def setStatus_names heavyRainAdjust_names
      heatStreakAdjust_names)

lemma analyzeWeather_store_result:
  assumes "stringifySoil s baseline = Some detailedSoilData"
  shows "analyzeWeather_store daily baseline s =
     Some ((alerts (analyzeWeather daily), next_free s + 10, recs (analyzeWeather daily)),
           s\<lparr>heap := laidOut (next_free s) (adjustedSoil (analyzeWeather daily)) (heap s),
             next_free := next_free s + 11\<rparr>)"
proof -
  define n where "n = next_free s"
  define s0 where "s0 = s\<lparr>heap := laidOut n detailedSoilData (heap s), next_free := n + 11\<rparr>"
  define v1 where "v1 = (if heavyRainDays daily \<ge> 1 then heavyRainAdjust detailedSoilData
     else detailedSoilData)"
  define v2 where "v2 = (if maxHeatStreak daily \<ge> 3 then heatStreakAdjust v1 else v1)"
  define s1 where "s1 = (if heavyRainDays daily \<ge> 1 then heavyRainAdjust_store (n + 10) s0 else s0)"
  define s2 where "s2 = (if maxHeatStreak daily \<ge> 3 then heatStreakAdjust_store (n + 10) s1 else s1)"
  have parse: "parseSoil detailedSoilData s = (n + 10, s0)"
    by (simp add: parseSoil_laidOut [OF baseline_names_detailed] n_def s0_def)
  have h0: "heap s0 = laidOut n detailedSoilData (heap s)"
    by (simp add: s0_def)
  have n1: "baseline_names v1"
    by (simp add: v1_def baseline_names_detailed heavyRainAdjust_names)
  have n2: "baseline_names v2"
    by (simp add: v2_def n1 heatStreakAdjust_names)
  have e1: "s1 = s0\<lparr>heap := laidOut n v1 (heap s)\<rparr>"
    using heavyRainAdjust_sim [OF baseline_names_detailed h0]
    by (simp add: s1_def v1_def s0_def)
  then have h1: "heap s1 = laidOut n v1 (heap s)"
    by simp
  have e2: "s2 = s0\<lparr>heap := laidOut n v2 (heap s)\<rparr>"
    using heatStreakAdjust_sim [OF n1 h1] e1
    by (simp add: s2_def v2_def)
  then have h2: "heap s2 = laidOut n v2 (heap s)"
    by simp
  have e3: "setStatus_store (n + 10) s2 = s0\<lparr>heap := laidOut n (setStatus v2) (heap s)\<rparr>"
    using setStatus_sim [OF n2 h2] e2 by simp
  have adj: "adjustedSoil (analyzeWeather daily) = setStatus v2"
    by (simp add: analyzeWeather_def adjustSoil_def Let_def v2_def v1_def)
  have "analyzeWeather_store daily baseline s =
      Some ((arrayFromSet (weekAlerts daily), n + 10,
             makeRecs daily (heavyRainDays daily) (maxHeatStreak daily)),
            setStatus_store (n + 10) s2)"
    by (simp add: analyzeWeather_store_def assms parse Let_def s1_def s2_def)
  then show ?thesis
    unfolding e3 adj [symmetric]
    by (simp add: s0_def n_def analyzeWeather_def)
qed

lemma readEntries_cong:
  assumes "\<forall>a \<in> set as. heap s1 a = heap s a"
  shows "readEntries s1 as = readEntries s as"
  using assms by (induction as) (simp_all add: readEntry_def cong: option.case_cong)

lemma readEntries_dom:
  assumes "readEntries s as = Some es"
  shows "set as \<subseteq> dom (heap s)"
  using assms
proof (induction as arbitrary: es)
  case Nil
  then show ?case by simp
next
  case (Cons a as)
  then show ?case
    by (auto simp: readEntry_def split: option.splits obj.splits)
qed

lemma stringifySoil_cong:
  assumes "\<forall>a \<in> soilObjects s r. heap s1 a = heap s a"
  shows "stringifySoil s1 r = stringifySoil s r"
proof (cases "heap s r")
  case None
  then show ?thesis using assms by (simp add: stringifySoil_def soilObjects_def)
next
  case (Some ob)
  show ?thesis
  proof (cases ob)
    case (Soil g m z)
    have r: "heap s r = Some (Soil g m z)" "heap s1 r = Some (Soil g m z)"
      using Some Soil assms by (simp_all add: soilObjects_def)
    have objs: "soilObjects s r =
        {r, g, m, z} \<union> set (generalOf s r) \<union> set (macroOf s r) \<union> set (microOf s r)"
      by (simp add: soilObjects_def r)
    have same: "heap s1 g = heap s g" "heap s1 m = heap s m" "heap s1 z = heap s z"
      using assms objs by auto
    have arr: "readArray s1 x = readArray s x"
      if "heap s1 x = heap s x"
        "\<forall>a \<in> (case heap s x of Some (Arr as) \<Rightarrow> set as | _ \<Rightarrow> {}). heap s1 a = heap s a" for x
      using that by (auto simp: readArray_def intro: readEntries_cong split: option.splits obj.splits)
    have "readArray s1 g = readArray s g"
      using assms objs
      by (intro arr same) (auto simp: generalOf_def r split: option.splits obj.splits)
    moreover have "readArray s1 m = readArray s m"
      using assms objs
      by (intro arr same) (auto simp: macroOf_def r split: option.splits obj.splits)
    moreover have "readArray s1 z = readArray s z"
      using assms objs
      by (intro arr same) (auto simp: microOf_def r split: option.splits obj.splits)
    ultimately show ?thesis
      by (simp add: stringifySoil_def r cong: option.case_cong)
  next
    case (Entry x1 x2 x3)
    then show ?thesis using Some assms by (simp add: stringifySoil_def soilObjects_def)
  next
    case (Arr x)
    then show ?thesis using Some assms by (simp add: stringifySoil_def soilObjects_def)
  qed
qed

lemma soilObjects_cong:
  assumes "\<forall>a \<in> soilObjects s r. heap s1 a = heap s a"
  shows "soilObjects s1 r = soilObjects s r"
proof (cases "heap s r")
  case None
  then show ?thesis using assms by (simp add: soilObjects_def)
next
  case (Some ob)
  show ?thesis
  proof (cases ob)
    case (Soil g m z)
    have r: "heap s r = Some (Soil g m z)" "heap s1 r = Some (Soil g m z)"
      using Some Soil assms by (simp_all add: soilObjects_def)
    have objs: "soilObjects s r =
        {r, g, m, z} \<union> set (generalOf s r) \<union> set (macroOf s r) \<union> set (microOf s r)"
      by (simp add: soilObjects_def r)
    have same: "heap s1 g = heap s g" "heap s1 m = heap s m" "heap s1 z = heap s z"
      using assms objs by auto
    show ?thesis
      by (simp add: soilObjects_def r generalOf_def macroOf_def microOf_def same)
  next
    case (Entry x1 x2 x3)
    then show ?thesis using Some assms by (simp add: soilObjects_def)
  next
    case (Arr x)
    then show ?thesis using Some assms by (simp add: soilObjects_def)
  qed
qed

lemma stringifySoil_dom:
  assumes "stringifySoil s r = Some v"
  shows "soilObjects s r \<subseteq> dom (heap s)"
proof -
  from assms obtain g m z where r: "heap s r = Some (Soil g m z)"
    by (auto simp: stringifySoil_def split: option.splits obj.splits)
  from assms r obtain gs ms zs where
    a: "readArray s g = Some gs" "readArray s m = Some ms" "readArray s z = Some zs"
    by (auto simp: stringifySoil_def split: option.splits)
  have arr: "x \<in> dom (heap s) \<and> (case heap s x of Some (Arr as) \<Rightarrow> set as | _ \<Rightarrow> {}) \<subseteq> dom (heap s)"
    if "readArray s x = Some es" for x es
    using that readEntries_dom
    by (auto simp: readArray_def split: option.splits obj.splits)
  show ?thesis
    using arr [OF a(1)] arr [OF a(2)] arr [OF a(3)] r
    by (auto simp: soilObjects_def generalOf_def macroOf_def microOf_def
        split: option.splits obj.splits)
qed

section \<open>Rendering is insensitive to the last digits\<close>

text \<open>
  \<open>toFixed\<close> depends on its argument only through the integer \<open>\<lfloor>x * 10^f + 1/2\<rfloor>\<close>, so
  every number close enough to the exact product renders as the exact product does. The
  lemmas below give such a margin for each value the adjustment rules produce from the
  baseline; the rounding of a JavaScript multiplication or addition is many orders of
  magnitude below these margins.
\<close>

lemma toFixed_same_digits:
  assumes "0 \<le> x" and "0 \<le> y"
    and "\<lfloor>x * 10 ^ f + 1 / 2\<rfloor> = \<lfloor>y * 10 ^ f + 1 / 2\<rfloor>"
  shows "toFixed f x = toFixed f y"
  using assms by (simp add: toFixed_def toFixedAbs_def)

lemma toFixed_near:
  assumes "0 \<le> x" and "0 \<le> y"
    and "of_int k \<le> y * 10 ^ f + 1 / 2" and "y * 10 ^ f + 1 / 2 < of_int k + 1"
    and "of_int k \<le> x * 10 ^ f + 1 / 2" and "x * 10 ^ f + 1 / 2 < of_int k + 1"
  shows "toFixed f x = toFixed f y"
proof -
  have "\<lfloor>x * 10 ^ f + 1 / 2\<rfloor> = k" "\<lfloor>y * 10 ^ f + 1 / 2\<rfloor> = k"
    using assms by (simp_all add: floor_eq_iff)
  then show ?thesis
    using assms(1,2) by (intro toFixed_same_digits) simp_all
qed

lemma near_nitrogen_rain:
  assumes "\<bar>x - 189\<bar> \<le> 4 / 10"
  shows "toFixed 0 (max 0 x) = toFixed 0 (189)"
proof -
  have b: "1886 / 10 \<le> x" "x \<le> 1894 / 10"
    using assms by linarith+
  then have m: "max 0 x = x"
    by simp
  show ?thesis
    unfolding m using b by (intro toFixed_near [where k = 189]) simp_all
qed

lemma near_potassium_rain:
  assumes "\<bar>x - 1104 / 10\<bar> \<le> 9 / 100"
  shows "toFixed 0 (max 0 x) = toFixed 0 (1104 / 10)"
proof -
  have b: "11031 / 100 \<le> x" "x \<le> 11049 / 100"
    using assms by linarith+
  then have m: "max 0 x = x"
    by simp
  show ?thesis
    unfolding m using b by (intro toFixed_near [where k = 110]) simp_all
qed

lemma near_pH_rain:
  assumes "\<bar>x - 57 / 10\<bar> \<le> 4 / 100"
  shows "toFixed 1 (max 0 x) = toFixed 1 (57 / 10)"
proof -
  have b: "566 / 100 \<le> x" "x \<le> 574 / 100"
    using assms by linarith+
  then have m: "max 0 x = x"
    by simp
  show ?thesis
    unfolding m using b by (intro toFixed_near [where k = 57]) simp_all
qed

lemma near_carbon_rain:
  assumes "\<bar>x - 441 / 1000\<bar> \<le> 3 / 1000"
  shows "toFixed 2 (max 0 x) = toFixed 2 (441 / 1000)"
proof -
  have b: "438 / 1000 \<le> x" "x \<le> 444 / 1000"
    using assms by linarith+
  then have m: "max 0 x = x"
    by simp
  show ?thesis
    unfolding m using b by (intro toFixed_near [where k = 44]) simp_all
qed

lemma near_potassium_heat:
  assumes "\<bar>x - 114\<bar> \<le> 4 / 10"
  shows "toFixed 0 (max 0 x) = toFixed 0 (114)"
proof -
  have b: "1136 / 10 \<le> x" "x \<le> 1144 / 10"
    using assms by linarith+
  then have m: "max 0 x = x"
    by simp
  show ?thesis
    unfolding m using b by (intro toFixed_near [where k = 114]) simp_all
qed

lemma near_pH_heat:
  assumes "\<bar>x - 59 / 10\<bar> \<le> 4 / 100"
  shows "toFixed 1 (x) = toFixed 1 (59 / 10)"
proof -
  have b: "586 / 100 \<le> x" "x \<le> 594 / 100"
    using assms by linarith+
  show ?thesis
    using b by (intro toFixed_near [where k = 59]) simp_all
qed

lemma near_carbon_heat:
  assumes "\<bar>x - 4635 / 10000\<bar> \<le> 1 / 1000"
  shows "toFixed 2 (x) = toFixed 2 (4635 / 10000)"
proof -
  have b: "4625 / 10000 \<le> x" "x \<le> 4645 / 10000"
    using assms by linarith+
  show ?thesis
    using b by (intro toFixed_near [where k = 46]) simp_all
qed

lemma stable_nitrogen_rain:
  assumes "\<bar>x - 210 * 0.9\<bar> \<le> 4 / 10"
  shows "toFixed 0 (max 0 x) @ '' kg/ha'' = ''189 kg/ha''"
proof -
  have "\<bar>x - 189\<bar> \<le> 4 / 10"
    using assms by simp
  then have "toFixed 0 (max 0 x) = toFixed 0 (189)"
    by (rule near_nitrogen_rain)
  moreover have "toFixed 0 (189) @ '' kg/ha'' = ''189 kg/ha''"
    by code_simp
  ultimately show ?thesis by simp
qed

lemma stable_potassium_rain:
  assumes "\<bar>x - 120 * 0.92\<bar> \<le> 9 / 100"
  shows "toFixed 0 (max 0 x) @ '' kg/ha'' = ''110 kg/ha''"
proof -
  have "\<bar>x - 1104 / 10\<bar> \<le> 9 / 100"
    using assms by simp
  then have "toFixed 0 (max 0 x) = toFixed 0 (1104 / 10)"
    by (rule near_potassium_rain)
  moreover have "toFixed 0 (1104 / 10) @ '' kg/ha'' = ''110 kg/ha''"
    by code_simp
  ultimately show ?thesis by simp
qed

lemma stable_pH_rain:
  assumes "\<bar>x - (5.8 - 0.1)\<bar> \<le> 4 / 100"
  shows "toFixed 1 (max 0 x) = ''5.7''"
proof -
  have "\<bar>x - 57 / 10\<bar> \<le> 4 / 100"
    using assms by simp
  then have "toFixed 1 (max 0 x) = toFixed 1 (57 / 10)"
    by (rule near_pH_rain)
  moreover have "toFixed 1 (57 / 10) = ''5.7''"
    by code_simp
  ultimately show ?thesis by simp
qed

lemma stable_carbon_rain:
  assumes "\<bar>x - 0.45 * 0.98\<bar> \<le> 3 / 1000"
  shows "toFixed 2 (max 0 x) @ ''%'' = ''0.44%''"
proof -
  have "\<bar>x - 441 / 1000\<bar> \<le> 3 / 1000"
    using assms by simp
  then have "toFixed 2 (max 0 x) = toFixed 2 (441 / 1000)"
    by (rule near_carbon_rain)
  moreover have "toFixed 2 (441 / 1000) @ ''%'' = ''0.44%''"
    by code_simp
  ultimately show ?thesis by simp
qed

lemma stable_potassium_heat:
  assumes "\<bar>x - 120 * 0.95\<bar> \<le> 4 / 10"
  shows "toFixed 0 (max 0 x) @ '' kg/ha'' = ''114 kg/ha''"
proof -
  have "\<bar>x - 114\<bar> \<le> 4 / 10"
    using assms by simp
  then have "toFixed 0 (max 0 x) = toFixed 0 (114)"
    by (rule near_potassium_heat)
  moreover have "toFixed 0 (114) @ '' kg/ha'' = ''114 kg/ha''"
    by code_simp
  ultimately show ?thesis by simp
qed

lemma stable_pH_heat:
  assumes "\<bar>x - (5.8 + 0.1)\<bar> \<le> 4 / 100"
  shows "toFixed 1 (x) = ''5.9''"
proof -
  have "\<bar>x - 59 / 10\<bar> \<le> 4 / 100"
    using assms by simp
  then have "toFixed 1 (x) = toFixed 1 (59 / 10)"
    by (rule near_pH_heat)
  moreover have "toFixed 1 (59 / 10) = ''5.9''"
    by code_simp
  ultimately show ?thesis by simp
qed

lemma stable_carbon_heat:
  assumes "\<bar>x - 0.45 * 1.03\<bar> \<le> 1 / 1000"
  shows "toFixed 2 (x) @ ''%'' = ''0.46%''"
proof -
  have "\<bar>x - 4635 / 10000\<bar> \<le> 1 / 1000"
    using assms by simp
  then have "toFixed 2 (x) = toFixed 2 (4635 / 10000)"
    by (rule near_carbon_heat)
  moreover have "toFixed 2 (4635 / 10000) @ ''%'' = ''0.46%''"
    by code_simp
  ultimately show ?thesis by simp
qed

section \<open>The alert list\<close>

text \<open>
  C1. For every forecast list, the alert list returned by \<open>analyzeWeather\<close> is the
  de-duplicated, encounter-order sequence of: one high-wind alert for each day with wind
  speed at least 12 and one fungal-disease alert for each day with humidity at least 90 and
  maximum temperature at least 28, in the order of the days; then the leaching alert exactly
  when some day is a heavy-rain day; then the drought-stress alert exactly when the maximum
  run of consecutive dry-hot days is at least 3; and the single sentinel when no rule fired.
  The list has no duplicates and is never empty.
\<close>

theorem analyzeWeather_alerts:
  "alerts (analyzeWeather daily) = spec_alerts daily \<and>
   distinct (alerts (analyzeWeather daily)) \<and>
   alerts (analyzeWeather daily) \<noteq> []"
proof -
  have h: "(1 \<le> heavyRainDays daily) = (\<exists>d \<in> set daily. spec_heavy_rain_day d)"
    by (rule heavyRainDays_ge1)
  have "(let alerts = loopAlerts daily;
          alerts1 = (if heavyRainDays daily \<ge> 1 then alerts @ [alert_leaching] else alerts)
         in (if maxHeatStreak daily \<ge> 3 then alerts1 @ [alert_drought] else alerts1))
      = spec_alert_sequence daily"
    unfolding h Let_def spec_alert_sequence_def loopAlerts_eq maxHeatStreak_eq by simp
  then have seq: "weekAlerts daily =
      (if spec_alert_sequence daily = [] then [alert_none] else spec_alert_sequence daily)"
    unfolding weekAlerts_def Let_def by simp
  have a: "alerts (analyzeWeather daily) = spec_dedup (weekAlerts daily)"
    by (simp add: analyzeWeather_def arrayFromSet_eq)
  have "weekAlerts daily \<noteq> []"
    using seq by auto
  then have ne: "alerts (analyzeWeather daily) \<noteq> []"
    using a by (simp add: spec_dedup_Nil_iff)
  have d: "distinct (alerts (analyzeWeather daily))"
    unfolding a by (rule distinct_spec_dedup)
  have "alerts (analyzeWeather daily) = spec_alerts daily"
    using a seq by (simp add: spec_alerts_def)
  then show ?thesis using ne d by blast
qed

text \<open>
  A week with two windy days, a humid and warm day that is also windy and a heavy-rain day,
  and three hot dry days in a row: every rule fires, the high-wind alert only once.
\<close>

theorem analyzeWeather_alerts_witness:
  "spec_alerts [windy_day, muggy_day, windy_day, hot_day, hot_day, hot_day, calm_day]
     = [alert_wind, alert_fungal, alert_leaching, alert_drought] \<and>
   distinct [alert_wind, alert_fungal, alert_leaching, alert_drought]"
proof -
  let ?w = "[windy_day, muggy_day, windy_day, hot_day, hot_day, hot_day, calm_day]"
  have "alerts (analyzeWeather ?w) = [alert_wind, alert_fungal, alert_leaching, alert_drought]"
    by code_simp
  then show ?thesis using analyzeWeather_alerts [of ?w] by metis
qed

section \<open>The adjusted soil record\<close>

text \<open>
  C2. When no day of the forecast is a heavy-rain day and the maximum run of consecutive
  dry-hot days is below 3, the adjusted soil record returned by \<open>analyzeWeather\<close> is the
  baseline record: every display value and every status of the general metrics, the
  macro-nutrients and the micro-nutrients is the same.
\<close>

theorem adjustedSoil_baseline:
  assumes "\<forall>d \<in> set daily. \<not> spec_heavy_rain_day d"
    and "spec_max_run spec_dry_hot_day daily < 3"
  shows "adjustedSoil (analyzeWeather daily) = detailedSoilData"
  using assms by (simp add: adjustedSoil_cases)

text \<open>Seven calm days (pop 0.1, no rain, wind 2, humidity 40, maximum temperature 25).\<close>

theorem adjustedSoil_baseline_witness:
  "list_all (\<lambda>d. \<not> spec_heavy_rain_day d) (replicate 7 calm_day) \<and>
   spec_max_run spec_dry_hot_day (replicate 7 calm_day) < 3 \<and>
   adjustedSoil (analyzeWeather (replicate 7 calm_day)) = detailedSoilData"
proof -
  have a: "\<forall>d \<in> set (replicate 7 calm_day). \<not> spec_heavy_rain_day d"
    by code_simp
  have "maxHeatStreak (replicate 7 calm_day) = 0"
    by code_simp
  then have b: "spec_max_run spec_dry_hot_day (replicate 7 calm_day) < 3"
    by (simp add: max_run_units)
  show ?thesis using a b adjustedSoil_baseline [OF a b] by (simp add: list_all_iff)
qed

text \<open>
  C3. For a 7-day forecast with exactly one heavy-rain day and no dry-hot streak of length
  3 or more, the adjusted record shows Nitrogen \<^verbatim>\<open>189 kg/ha\<close> (210 x 0.9, no decimals),
  Potassium \<^verbatim>\<open>110 kg/ha\<close> (120 x 0.92 = 110.4, no decimals), pH \<^verbatim>\<open>5.7\<close> (5.8 - 0.1, one
  decimal) and Organic Carbon \<^verbatim>\<open>0.44%\<close> (0.45 x 0.98, two decimals), each floored at 0
  and with its unit suffix, and the alert list contains the leaching alert. Each of the four
  strings is also what every number within 0.4, 0.09, 0.04 and 0.003 of the exact result
  renders to, so the last digits of the computed products do not matter.
\<close>

theorem heavy_rain_week:
  assumes "length daily = 7"
    and "length (filter spec_heavy_rain_day daily) = 1"
    and "spec_max_run spec_dry_hot_day daily < 3"
  shows "displayValue ''Nitrogen (N)'' (macroNutrients (adjustedSoil (analyzeWeather daily)))
           = Some ''189 kg/ha'' \<and>
         toFixed 0 (max 0 (210 * 0.9)) @ '' kg/ha'' = ''189 kg/ha'' \<and>
         displayValue ''Potassium (K)'' (macroNutrients (adjustedSoil (analyzeWeather daily)))
           = Some ''110 kg/ha'' \<and>
         toFixed 0 (max 0 (120 * 0.92)) @ '' kg/ha'' = ''110 kg/ha'' \<and>
         displayValue ''pH Level'' (general (adjustedSoil (analyzeWeather daily)))
           = Some ''5.7'' \<and>
         toFixed 1 (max 0 (5.8 - 0.1)) = ''5.7'' \<and>
         displayValue ''Organic Carbon (OC)'' (general (adjustedSoil (analyzeWeather daily)))
           = Some ''0.44%'' \<and>
         toFixed 2 (max 0 (0.45 * 0.98)) @ ''%'' = ''0.44%'' \<and>
         (\<forall>x. \<bar>x - 210 * 0.9\<bar> \<le> 4 / 10 \<longrightarrow>
            toFixed 0 (max 0 x) @ '' kg/ha'' = ''189 kg/ha'') \<and>
         (\<forall>x. \<bar>x - 120 * 0.92\<bar> \<le> 9 / 100 \<longrightarrow>
            toFixed 0 (max 0 x) @ '' kg/ha'' = ''110 kg/ha'') \<and>
         (\<forall>x. \<bar>x - (5.8 - 0.1)\<bar> \<le> 4 / 100 \<longrightarrow> toFixed 1 (max 0 x) = ''5.7'') \<and>
         (\<forall>x. \<bar>x - 0.45 * 0.98\<bar> \<le> 3 / 1000 \<longrightarrow>
            toFixed 2 (max 0 x) @ ''%'' = ''0.44%'') \<and>
         alert_leaching \<in> set (alerts (analyzeWeather daily))"
proof -
  have "filter spec_heavy_rain_day daily \<noteq> []"
    using assms(2) by auto
  then have heavy: "\<exists>d \<in> set daily. spec_heavy_rain_day d"
    by (simp add: filter_empty_conv)
  then have adj: "adjustedSoil (analyzeWeather daily) = soil_rain"
    using assms(3) by (simp add: adjustedSoil_cases)
  have n: "displayValue ''Nitrogen (N)'' (macroNutrients soil_rain) = Some ''189 kg/ha''"
    by code_simp
  have k: "displayValue ''Potassium (K)'' (macroNutrients soil_rain) = Some ''110 kg/ha''"
    by code_simp
  have p: "displayValue ''pH Level'' (general soil_rain) = Some ''5.7''"
    by code_simp
  have o: "displayValue ''Organic Carbon (OC)'' (general soil_rain) = Some ''0.44%''"
    by code_simp
  have n': "toFixed 0 (max 0 (210 * 0.9)) @ '' kg/ha'' = ''189 kg/ha''"
    by code_simp
  have k': "toFixed 0 (max 0 (120 * 0.92)) @ '' kg/ha'' = ''110 kg/ha''"
    by code_simp
  have p': "toFixed 1 (max 0 (5.8 - 0.1)) = ''5.7''"
    by code_simp
  have o': "toFixed 2 (max 0 (0.45 * 0.98)) @ ''%'' = ''0.44%''"
    by code_simp
  have al: "alert_leaching \<in> set (alerts (analyzeWeather daily))"
    using heavy by (simp add: leaching_alert_iff)
  have st: "\<forall>x. \<bar>x - 210 * 0.9\<bar> \<le> 4 / 10 \<longrightarrow>
        toFixed 0 (max 0 x) @ '' kg/ha'' = ''189 kg/ha''"
    "\<forall>x. \<bar>x - 120 * 0.92\<bar> \<le> 9 / 100 \<longrightarrow>
        toFixed 0 (max 0 x) @ '' kg/ha'' = ''110 kg/ha''"
    "\<forall>x. \<bar>x - (5.8 - 0.1)\<bar> \<le> 4 / 100 \<longrightarrow> toFixed 1 (max 0 x) = ''5.7''"
    "\<forall>x. \<bar>x - 0.45 * 0.98\<bar> \<le> 3 / 1000 \<longrightarrow> toFixed 2 (max 0 x) @ ''%'' = ''0.44%''"
    using stable_nitrogen_rain stable_potassium_rain stable_pH_rain stable_carbon_rain
    by blast+
  show ?thesis unfolding adj using n k p o n' k' p' o' st al by blast
qed

text \<open>One day with 55 mm of rain, followed by six calm days.\<close>

theorem heavy_rain_week_witness:
  "length (rainy_day # replicate 6 calm_day) = 7 \<and>
   length (filter spec_heavy_rain_day (rainy_day # replicate 6 calm_day)) = 1 \<and>
   spec_max_run spec_dry_hot_day (rainy_day # replicate 6 calm_day) < 3 \<and>
   displayValue ''Nitrogen (N)''
     (macroNutrients (adjustedSoil (analyzeWeather (rainy_day # replicate 6 calm_day))))
     = Some ''189 kg/ha'' \<and>
   alert_leaching \<in> set (alerts (analyzeWeather (rainy_day # replicate 6 calm_day)))"
proof -
  let ?w = "rainy_day # replicate 6 calm_day"
  have a: "length ?w = 7"
    by simp
  have b: "length (filter spec_heavy_rain_day ?w) = 1"
    by code_simp
  have "maxHeatStreak ?w = 0"
    by code_simp
  then have c: "spec_max_run spec_dry_hot_day ?w < 3"
    by (simp add: max_run_units)
  show ?thesis using a b c heavy_rain_week [OF a b c] by blast
qed

text \<open>
  C4. For a 7-day forecast with three consecutive days of precipitation probability 0.1 and
  maximum temperature 36 and no heavy-rain day, the adjusted record shows Potassium
  \<^verbatim>\<open>114 kg/ha\<close> (120 x 0.95, floored at 0, no decimals), pH \<^verbatim>\<open>5.9\<close> (5.8 + 0.1, one
  decimal) and Organic Carbon \<^verbatim>\<open>0.46%\<close> (0.45 x 1.03, two decimals); the drought-stress
  alert is present; and the irrigation recommendation is the shorter, more frequent
  irrigation text. That text is chosen for every forecast with a dry-hot run of 3, with or
  without heavy rain, and differs from the heavy-rain and the default texts. Each of the
  three strings is also what every number within 0.4, 0.04 and 0.001 of the exact result
  renders to.
\<close>

theorem heat_streak_week:
  assumes "length daily = 7"
    and "daily = before @ [d1, d2, d3] @ after"
    and "\<forall>d \<in> set [d1, d2, d3]. pop d = 0.1 \<and> temp_max (temp d) = 36"
    and "\<forall>d \<in> set daily. \<not> spec_heavy_rain_day d"
  shows "displayValue ''Potassium (K)'' (macroNutrients (adjustedSoil (analyzeWeather daily)))
           = Some ''114 kg/ha'' \<and>
         toFixed 0 (max 0 (120 * 0.95)) @ '' kg/ha'' = ''114 kg/ha'' \<and>
         displayValue ''pH Level'' (general (adjustedSoil (analyzeWeather daily)))
           = Some ''5.9'' \<and>
         toFixed 1 (5.8 + 0.1) = ''5.9'' \<and>
         displayValue ''Organic Carbon (OC)'' (general (adjustedSoil (analyzeWeather daily)))
           = Some ''0.46%'' \<and>
         toFixed 2 (0.45 * 1.03) @ ''%'' = ''0.46%'' \<and>
         (\<forall>x. \<bar>x - 120 * 0.95\<bar> \<le> 4 / 10 \<longrightarrow>
            toFixed 0 (max 0 x) @ '' kg/ha'' = ''114 kg/ha'') \<and>
         (\<forall>x. \<bar>x - (5.8 + 0.1)\<bar> \<le> 4 / 100 \<longrightarrow> toFixed 1 x = ''5.9'') \<and>
         (\<forall>x. \<bar>x - 0.45 * 1.03\<bar> \<le> 1 / 1000 \<longrightarrow> toFixed 2 x @ ''%'' = ''0.46%'') \<and>
         alert_drought \<in> set (alerts (analyzeWeather daily)) \<and>
         irrigation (recs (analyzeWeather daily)) = rec_irr_heat \<and>
         (\<forall>week. spec_max_run spec_dry_hot_day week \<ge> 3 \<longrightarrow>
            irrigation (recs (analyzeWeather week)) = rec_irr_heat) \<and>
         rec_irr_heat \<noteq> rec_irr_rain \<and> rec_irr_heat \<noteq> rec_irr_default"
proof -
  have dh: "spec_dry_hot_day d1" "spec_dry_hot_day d2" "spec_dry_hot_day d3"
    using assms(3) by (simp_all add: spec_dry_hot_day_def)
  have "\<forall>j<3. spec_dry_hot_day (daily ! (length before + j))"
  proof (intro allI impI)
    fix j :: nat
    assume "j < 3"
    then have "j = 0 \<or> j = 1 \<or> j = 2"
      by auto
    then show "spec_dry_hot_day (daily ! (length before + j))"
      using dh by (auto simp: assms(2) nth_append)
  qed
  moreover have "length before + 3 \<le> length daily"
    by (simp add: assms(2))
  ultimately have "spec_has_run spec_dry_hot_day 3 daily"
    unfolding spec_has_run_def by blast
  then have run: "spec_max_run spec_dry_hot_day daily \<ge> 3"
    using maxHeatStreak_ge [of 3 daily] by (simp add: max_run_units)
  then have adj: "adjustedSoil (analyzeWeather daily) = soil_heat"
    using assms(4) by (simp add: adjustedSoil_cases)
  have k: "displayValue ''Potassium (K)'' (macroNutrients soil_heat) = Some ''114 kg/ha''"
    by code_simp
  have p: "displayValue ''pH Level'' (general soil_heat) = Some ''5.9''"
    by code_simp
  have o: "displayValue ''Organic Carbon (OC)'' (general soil_heat) = Some ''0.46%''"
    by code_simp
  have k': "toFixed 0 (max 0 (120 * 0.95)) @ '' kg/ha'' = ''114 kg/ha''"
    by code_simp
  have p': "toFixed 1 (5.8 + 0.1) = ''5.9''"
    by code_simp
  have o': "toFixed 2 (0.45 * 1.03) @ ''%'' = ''0.46%''"
    by code_simp
  have al: "alert_drought \<in> set (alerts (analyzeWeather daily))"
    using run by (simp add: drought_alert_iff)
  have irr: "\<forall>week. spec_max_run spec_dry_hot_day week \<ge> 3 \<longrightarrow>
      irrigation (recs (analyzeWeather week)) = rec_irr_heat"
    by (simp add: irrigation_cases)
  have ne: "rec_irr_heat \<noteq> rec_irr_rain" "rec_irr_heat \<noteq> rec_irr_default"
    by (simp_all add: rec_irr_heat_def rec_irr_rain_def rec_irr_default_def)
  have st: "\<forall>x. \<bar>x - 120 * 0.95\<bar> \<le> 4 / 10 \<longrightarrow>
        toFixed 0 (max 0 x) @ '' kg/ha'' = ''114 kg/ha''"
    "\<forall>x. \<bar>x - (5.8 + 0.1)\<bar> \<le> 4 / 100 \<longrightarrow> toFixed 1 x = ''5.9''"
    "\<forall>x. \<bar>x - 0.45 * 1.03\<bar> \<le> 1 / 1000 \<longrightarrow> toFixed 2 x @ ''%'' = ''0.46%''"
    using stable_potassium_heat stable_pH_heat stable_carbon_heat
    by blast+
  show ?thesis unfolding adj using k p o k' p' o' st al irr run ne by blast
qed

text \<open>A calm day, three hot dry days (pop 0.1, maximum 36, no rain reading), three calm days.\<close>

theorem heat_streak_week_witness:
  "length ([calm_day] @ [hot_day, hot_day, hot_day] @ replicate 3 calm_day) = 7 \<and>
   list_all (\<lambda>d. pop d = 0.1 \<and> temp_max (temp d) = 36) [hot_day, hot_day, hot_day] \<and>
   list_all (\<lambda>d. \<not> spec_heavy_rain_day d)
     ([calm_day] @ [hot_day, hot_day, hot_day] @ replicate 3 calm_day) \<and>
   displayValue ''Potassium (K)''
     (macroNutrients (adjustedSoil (analyzeWeather
        ([calm_day] @ [hot_day, hot_day, hot_day] @ replicate 3 calm_day))))
     = Some ''114 kg/ha'' \<and>
   irrigation (recs (analyzeWeather
        ([calm_day] @ [hot_day, hot_day, hot_day] @ replicate 3 calm_day))) = rec_irr_heat"
proof -
  let ?w = "[calm_day] @ [hot_day, hot_day, hot_day] @ replicate 3 calm_day"
  have a: "length ?w = 7"
    by simp
  have b: "?w = [calm_day] @ [hot_day, hot_day, hot_day] @ replicate 3 calm_day"
    by (rule refl)
  have c: "\<forall>d \<in> set [hot_day, hot_day, hot_day]. pop d = 0.1 \<and> temp_max (temp d) = 36"
    by code_simp
  have d: "\<forall>d \<in> set ?w. \<not> spec_heavy_rain_day d"
    by code_simp
  have c': "list_all (\<lambda>d. pop d = 0.1 \<and> temp_max (temp d) = 36) [hot_day, hot_day, hot_day]"
    using c by (simp add: list_all_iff)
  have d': "list_all (\<lambda>d. \<not> spec_heavy_rain_day d) ?w"
    using d unfolding list_all_iff .
  show ?thesis using a c' d' heat_streak_week [OF a b c d] by blast
qed

text \<open>
  C5. In every adjusted record returned by \<open>analyzeWeather\<close>, the status of each
  macro-nutrient and general metric is the grade of its post-adjustment number under the
  fixed thresholds (Nitrogen 250/350, Phosphorus 12/30, Potassium 150/300, pH 6.0/7.5,
  Organic Carbon 0.75/1.5; Low below, High above, Optimal between), and the micro-nutrient
  entries keep their baseline values and statuses.
\<close>

theorem adjusted_status_graded:
  "(\<forall>e \<in> set (macroNutrients (adjustedSoil (analyzeWeather daily)) @
               general (adjustedSoil (analyzeWeather daily))). spec_status_ok e) \<and>
   microNutrients (adjustedSoil (analyzeWeather daily)) = microNutrients detailedSoilData"
proof -
  consider "adjustedSoil (analyzeWeather daily) = detailedSoilData"
    | "adjustedSoil (analyzeWeather daily) = soil_rain"
    | "adjustedSoil (analyzeWeather daily) = soil_heat"
    | "adjustedSoil (analyzeWeather daily) = soil_rain_heat"
    by (cases "\<exists>d \<in> set daily. spec_heavy_rain_day d";
        cases "spec_max_run spec_dry_hot_day daily \<ge> 3")
      (simp_all add: adjustedSoil_cases)
  then show ?thesis
  proof cases
    case 1
    then show ?thesis using status_ok_baseline by simp
  next
    case 2
    then show ?thesis using status_ok_rain by (simp add: micro_fixed)
  next
    case 3
    then show ?thesis using status_ok_heat by (simp add: micro_fixed)
  next
    case 4
    then show ?thesis using status_ok_rain_heat by (simp add: micro_fixed)
  qed
qed

text \<open>A week with a heavy-rain day and three hot dry days: both adjustments are applied.\<close>

theorem adjusted_status_graded_witness:
  "adjustedSoil (analyzeWeather [rainy_day, hot_day, hot_day, hot_day]) = soil_rain_heat \<and>
   list_all spec_status_ok (macroNutrients soil_rain_heat @ general soil_rain_heat) \<and>
   microNutrients soil_rain_heat = microNutrients detailedSoilData"
proof -
  have "adjustedSoil (analyzeWeather [rainy_day, hot_day, hot_day, hot_day]) = soil_rain_heat"
    by code_simp
  then show ?thesis
    using adjusted_status_graded [of "[rainy_day, hot_day, hot_day, hot_day]"]
    by (simp add: list_all_iff)
qed

section \<open>Forecasts of any length and absent readings\<close>

lemma dayStep_zero_filled: "dayStep (spec_zero_filled d) = dayStep d"
  by (rule ext) (simp add: dayStep_def spec_zero_filled_def nullish_def split: option.splits)

lemma forEachDay_zero_filled: "forEachDay (map spec_zero_filled daily) = forEachDay daily"
proof -
  have "dayStep \<circ> spec_zero_filled = dayStep"
    by (rule ext) (simp add: dayStep_zero_filled)
  then show ?thesis
    by (simp add: forEachDay_def fold_map)
qed

lemma humid_zero_filled:
  "list_ex (\<lambda>d. nullish (humidity d) 0 \<ge> 90) (map spec_zero_filled daily)
     = list_ex (\<lambda>d. nullish (humidity d) 0 \<ge> 90) daily"
  by (induction daily) (simp_all add: spec_zero_filled_def nullish_def split: option.splits)

text \<open>
  C10. \<open>analyzeWeather\<close> is defined on forecast lists of every length. A day whose
  rain, wind speed or humidity reading is absent is treated as a day with the reading 0: the
  result does not change when the absent readings are replaced by 0; a day without a rain
  reading does not count as a heavy-rain day (the counter is what it is without that day);
  a day without a wind reading does not decide the high-wind alert, and a day without a
  humidity reading does not decide the fungal-disease alert. For the empty forecast the
  result is the single sentinel alert, the baseline record and the default recommendations.
\<close>

theorem analyzeWeather_absent_readings:
  "analyzeWeather (map spec_zero_filled daily) = analyzeWeather daily \<and>
   (rain d = None \<longrightarrow> heavyRainDays (xs @ [d] @ ys) = heavyRainDays (xs @ ys)) \<and>
   (wind_speed d = None \<longrightarrow>
      (alert_wind \<in> set (alerts (analyzeWeather (xs @ [d] @ ys))) \<longleftrightarrow>
       alert_wind \<in> set (alerts (analyzeWeather (xs @ ys))))) \<and>
   (humidity d = None \<longrightarrow>
      (alert_fungal \<in> set (alerts (analyzeWeather (xs @ [d] @ ys))) \<longleftrightarrow>
       alert_fungal \<in> set (alerts (analyzeWeather (xs @ ys))))) \<and>
   ((\<forall>d \<in> set daily. rain d = None) \<longrightarrow>
      heavyRainDays daily = 0 \<and> alert_leaching \<notin> set (alerts (analyzeWeather daily))) \<and>
   ((\<forall>d \<in> set daily. wind_speed d = None) \<longrightarrow>
      alert_wind \<notin> set (alerts (analyzeWeather daily))) \<and>
   ((\<forall>d \<in> set daily. humidity d = None) \<longrightarrow>
      alert_fungal \<notin> set (alerts (analyzeWeather daily))) \<and>
   analyzeWeather [] =
     \<lparr>alerts = [alert_none], adjustedSoil = detailedSoilData, recs = default_recs\<rparr>"
proof -
  have zero: "analyzeWeather (map spec_zero_filled daily) = analyzeWeather daily"
    by (simp add: analyzeWeather_def weekAlerts_def loopAlerts_def heavyRainDays_def
        maxHeatStreak_def makeRecs_def forEachDay_zero_filled humid_zero_filled)
  have rain1: "rain d = None \<longrightarrow> heavyRainDays (xs @ [d] @ ys) = heavyRainDays (xs @ ys)"
    by (simp add: heavyRainDays_eq spec_heavy_rain_day_def spec_rainfall_def)
  have wind1: "wind_speed d = None \<longrightarrow>
      (alert_wind \<in> set (alerts (analyzeWeather (xs @ [d] @ ys))) \<longleftrightarrow>
       alert_wind \<in> set (alerts (analyzeWeather (xs @ ys))))"
    by (auto simp: wind_alert_iff spec_high_wind_day_def)
  have hum1: "humidity d = None \<longrightarrow>
      (alert_fungal \<in> set (alerts (analyzeWeather (xs @ [d] @ ys))) \<longleftrightarrow>
       alert_fungal \<in> set (alerts (analyzeWeather (xs @ ys))))"
    by (auto simp: fungal_alert_iff spec_fungal_day_def)
  have rain2: "(\<forall>d \<in> set daily. rain d = None) \<longrightarrow>
      heavyRainDays daily = 0 \<and> alert_leaching \<notin> set (alerts (analyzeWeather daily))"
    by (auto simp: leaching_alert_iff heavyRainDays_eq spec_heavy_rain_day_def
        spec_rainfall_def filter_empty_conv)
  have wind2: "(\<forall>d \<in> set daily. wind_speed d = None) \<longrightarrow>
      alert_wind \<notin> set (alerts (analyzeWeather daily))"
    by (auto simp: wind_alert_iff spec_high_wind_day_def)
  have hum2: "(\<forall>d \<in> set daily. humidity d = None) \<longrightarrow>
      alert_fungal \<notin> set (alerts (analyzeWeather daily))"
    by (auto simp: fungal_alert_iff spec_fungal_day_def)
  have empty: "analyzeWeather [] =
      \<lparr>alerts = [alert_none], adjustedSoil = detailedSoilData, recs = default_recs\<rparr>"
    by code_simp
  show ?thesis using zero rain1 wind1 hum1 rain2 wind2 hum2 empty by blast
qed

text \<open>
  Two days that carry no optional reading at all (maximum temperature 40, precipitation
  probability 0.9): a forecast of length 2 on which no alert rule fires.
\<close>

theorem analyzeWeather_absent_readings_witness:
  "rain bare_day = None \<and> wind_speed bare_day = None \<and> humidity bare_day = None \<and>
   list_all (\<lambda>d. rain d = None \<and> wind_speed d = None \<and> humidity d = None)
     [bare_day, bare_day] \<and>
   heavyRainDays [bare_day, bare_day] = 0 \<and>
   alert_leaching \<notin> set (alerts (analyzeWeather [bare_day, bare_day])) \<and>
   alert_wind \<notin> set (alerts (analyzeWeather [bare_day, bare_day])) \<and>
   alert_fungal \<notin> set (alerts (analyzeWeather [bare_day, bare_day])) \<and>
   heavyRainDays ([rainy_day] @ [bare_day] @ [calm_day]) = heavyRainDays ([rainy_day] @ [calm_day])"
proof -
  have a: "rain bare_day = None" "wind_speed bare_day = None" "humidity bare_day = None"
    by (simp_all add: bare_day_def)
  have b: "\<forall>d \<in> set [bare_day, bare_day]. rain d = None"
    "\<forall>d \<in> set [bare_day, bare_day]. wind_speed d = None"
    "\<forall>d \<in> set [bare_day, bare_day]. humidity d = None"
    using a by simp_all
  note t1 = analyzeWeather_absent_readings
    [of "[bare_day, bare_day]" bare_day "[rainy_day]" "[calm_day]"]
  have c: "list_all (\<lambda>d. rain d = None \<and> wind_speed d = None \<and> humidity d = None)
      [bare_day, bare_day]"
    using a by simp
  show ?thesis using a b c t1 by blast
qed

section \<open>The claims about the polygon centroid\<close>

text \<open>
  C6. \<open>computeCentroid\<close> returns no result for the empty list and, the area being
  below the epsilon, the first vertex as it is for any number of copies of one point and for
  three points of the diagonal with integral coordinates; for the square of side 100
  centred at the origin it returns the shoelace centroid. For collinear vertices in
  general the claimed result does not hold of the code. The three points of \<open>collinear3\<close>
  lie on one line, the second exactly half way between the other two, and their shoelace
  area is exactly 0; but the rounded cross products of the loop add up to \<open>2\<^sup>-\<^sup>3\<^sup>8\<close>, the
  halved area \<open>2\<^sup>-\<^sup>3\<^sup>9\<close> is above the epsilon, and the function divides by \<open>6 * 2\<^sup>-\<^sup>3\<^sup>9\<close>:
  it returns about \<open>(40.07, 97.27)\<close>, not the first vertex, and 20 degrees of latitude
  away from the three points.
\<close>

theorem computeCentroid_collinear_divides:
  "computeCentroid [] = None \<and>
   computeCentroid (replicate (Suc n) (x, y)) = Some \<lparr>lat = x, lon = y\<rparr> \<and>
   computeCentroid diagonal3 = Some \<lparr>lat = 1, lon = 1\<rparr> \<and>
   computeCentroid square100 = Some \<lparr>lat = spec_Cx square100, lon = spec_Cy square100\<rparr> \<and>
   fst (collinear3 ! 1) = (fst (collinear3 ! 0) + fst (collinear3 ! 2)) / 2 \<and>
   snd (collinear3 ! 1) = (snd (collinear3 ! 0) + snd (collinear3 ! 2)) / 2 \<and>
   spec_area collinear3 = 0 \<and>
   centroidLoop collinear3 0 (0, 0, 0) = (1 / 2 ^ 38, 61547 / 2 ^ 47, 4669 / 2 ^ 42) \<and>
   fl (1 / 10 ^ 12) < fl (1 / 2 ^ 38 * 0.5) \<and>
   computeCentroid collinear3 =
     Some \<lparr>lat = 5639303512894123 / 2 ^ 47, lon = 6844826386781525 / 2 ^ 46\<rparr> \<and>
   computeCentroid collinear3 \<noteq>
     Some \<lparr>lat = fst (collinear3 ! 0), lon = snd (collinear3 ! 0)\<rparr> \<and>
   list_all (\<lambda>p. 60 < fst p) collinear3 \<and>
   5639303512894123 / 2 ^ 47 < (41 :: real)"
proof -
  have empty: "computeCentroid [] = None"
    by (simp add: computeCentroid_def)
  have square: "computeCentroid square100 =
      Some \<lparr>lat = spec_Cx square100, lon = spec_Cy square100\<rparr>"
    by (simp add: square100_centroid square100_formula)
  have mid: "fst (collinear3 ! 1) = (fst (collinear3 ! 0) + fst (collinear3 ! 2)) / 2"
    "snd (collinear3 ! 1) = (snd (collinear3 ! 0) + snd (collinear3 ! 2)) / 2"
    by (simp_all add: collinear3_vertices)
  have loop: "centroidLoop collinear3 0 (0, 0, 0) = (1 / 2 ^ 38, 61547 / 2 ^ 47, 4669 / 2 ^ 42)"
    by (simp add: collinear3_loop)
  have eps: "fl (1 / 10 ^ 12) < fl (1 / 2 ^ 38 * 0.5)"
    by (simp add: fl_eval)
  have res: "computeCentroid collinear3 =
      Some \<lparr>lat = 5639303512894123 / 2 ^ 47, lon = 6844826386781525 / 2 ^ 46\<rparr>"
    by (simp add: collinear3_centroid)
  have differs: "computeCentroid collinear3 \<noteq>
      Some \<lparr>lat = fst (collinear3 ! 0), lon = snd (collinear3 ! 0)\<rparr>"
    unfolding collinear3_centroid by (simp add: collinear3_vertices)
  have far: "list_all (\<lambda>p. 60 < fst p) collinear3" "5639303512894123 / 2 ^ 47 < (41 :: real)"
    by (simp_all add: collinear3_vertices)
  show ?thesis
    using empty computeCentroid_replicate [of n x y] diagonal3_centroid square mid
      collinear3_area loop eps res differs far
    by blast
qed

text \<open>
  C7. For a polygon of at least 3 vertices that are not all collinear the point returned
  by \<open>computeCentroid\<close> lies in the convex hull of the vertices. This does not hold of
  the code. The field \<open>delhi_square\<close> is a rectangle listed along its boundary: its
  corners are in convex position and not collinear, and the shoelace centroid of the
  formula, the middle of the rectangle, lies in their hull, as it does for every convex
  polygon (\<open>centroid_in_hull\<close>, \<open>convex_order_fan_oriented\<close>). In the loop the
  cross products, of magnitude \<open>2 * 10\<^sup>3\<close>, cancel down to an area of \<open>10\<^sup>-\<^sup>8\<close>, and
  what is left of the rounded sums \<open>cx\<close> and \<open>cy\<close> gives the point
  \<open>(28.61405087, 77.20932218)\<close>: north of every corner, so outside their hull.
\<close>

theorem computeCentroid_square_outside_hull:
  "3 \<le> length delhi_square \<and> spec_convex_order delhi_square \<and>
   \<not> spec_collinear delhi_square \<and> spec_area delhi_square \<noteq> 0 \<and>
   spec_in_hull delhi_square \<lparr>lat = spec_Cx delhi_square, lon = spec_Cy delhi_square\<rparr> \<and>
   computeCentroid delhi_square =
     Some \<lparr>lat = 8054139302312637 / 2 ^ 48, lon = 5433123040265515 / 2 ^ 46\<rparr> \<and>
   list_all (\<lambda>p. fst p < 8054139302312637 / 2 ^ 48) delhi_square \<and>
   \<not> spec_in_hull delhi_square
       \<lparr>lat = 8054139302312637 / 2 ^ 48, lon = 5433123040265515 / 2 ^ 46\<rparr>"
proof -
  have len: "3 \<le> length delhi_square"
    by (simp add: delhi_square_length)
  have area: "spec_area delhi_square \<noteq> 0"
    by (simp add: delhi_square_area)
  then have line: "\<not> spec_collinear delhi_square"
    using collinear_area by blast
  have res: "computeCentroid delhi_square =
      Some \<lparr>lat = 8054139302312637 / 2 ^ 48, lon = 5433123040265515 / 2 ^ 46\<rparr>"
    by (simp add: delhi_square_centroid)
  have north: "list_all (\<lambda>p. fst p < 8054139302312637 / 2 ^ 48) delhi_square"
    by (simp add: delhi_square_vertices)
  then have out: "\<not> spec_in_hull delhi_square
      \<lparr>lat = 8054139302312637 / 2 ^ 48, lon = 5433123040265515 / 2 ^ 46\<rparr>"
    by (intro beyond_vertices_outside_hull) simp
  show ?thesis
    using len delhi_square_convex line area delhi_square_formula_in_hull res north out
    by blast
qed

text \<open>
  The returned point in decimals, and its distance from the middle of the rectangle: more
  than \<open>10\<^sup>-\<^sup>4\<close> degrees of latitude, the width of the whole field.
\<close>

theorem computeCentroid_square_outside_hull_witness:
  "\<exists>c. computeCentroid delhi_square = Some c \<and> \<not> spec_in_hull delhi_square c \<and>
     3 \<le> length delhi_square \<and> \<not> spec_collinear delhi_square \<and>
     28.61405087 < lat c \<and> lat c < 28.61405088 \<and>
     77.20932217 < lon c \<and> lon c < 77.20932218 \<and>
     1 / 10 ^ 4 < lat c - spec_Cx delhi_square"
proof -
  have "28.61405087 < (8054139302312637 / 2 ^ 48 :: real)"
    "(8054139302312637 / 2 ^ 48 :: real) < 28.61405088"
    "77.20932217 < (5433123040265515 / 2 ^ 46 :: real)"
    "(5433123040265515 / 2 ^ 46 :: real) < 77.20932218"
    "1 / 10 ^ 4 < 8054139302312637 / 2 ^ 48 - spec_Cx delhi_square"
    by (simp_all add: delhi_square_formula)
  then show ?thesis
    using computeCentroid_square_outside_hull by simp
qed


lemma laidOut_dom: "dom (laidOut n v h) \<subseteq> dom h \<union> {n..n + 10}"
  by (auto simp: laidOut_def split: if_splits)

lemma moduleLoaded_eq:
  "moduleLoaded =
     (10, \<lparr>heap = laidOut 0 detailedSoilData Map.empty, next_free = 11\<rparr>)"
  by (simp add: moduleLoaded_def parseSoil_laidOut [OF baseline_names_detailed])

lemma rain_heat_week: "adjustedSoil (analyzeWeather [rainy_day, hot_day, hot_day, hot_day]) = soil_rain_heat"
  by code_simp

text \<open>
  C8. \<open>analyzeWeather\<close> never mutates the baseline soil record. In any store that holds
  the baseline record, after the call every object that existed before is what it was, so
  the baseline still reads as the constant; the returned record is made of objects that did
  not exist before the call, none of them an object of the baseline, and it reads as the
  adjusted record of \<open>analyzeWeather\<close>; overwriting any object of one of the two
  records leaves what the other one reads unchanged. The store after the call satisfies the
  assumptions again, so the same holds for every later call.
\<close>

theorem analyzeWeather_baseline_untouched:
  assumes ok: "store_ok s"
    and base: "stringifySoil s baseline = Some detailedSoilData"
  shows "\<exists>adjusted s'.
     analyzeWeather_store daily baseline s =
       Some ((alerts (analyzeWeather daily), adjusted, recs (analyzeWeather daily)), s') \<and>
     (\<forall>a \<in> dom (heap s). heap s' a = heap s a) \<and>
     stringifySoil s' baseline = Some detailedSoilData \<and>
     stringifySoil s' adjusted = Some (adjustedSoil (analyzeWeather daily)) \<and>
     soilObjects s' adjusted \<inter> dom (heap s) = {} \<and>
     soilObjects s' adjusted \<inter> soilObjects s' baseline = {} \<and>
     (\<forall>a \<in> soilObjects s' adjusted. \<forall>ob.
        stringifySoil (s'\<lparr>heap := (heap s')(a \<mapsto> ob)\<rparr>) baseline = Some detailedSoilData) \<and>
     (\<forall>a \<in> soilObjects s' baseline. \<forall>ob.
        stringifySoil (s'\<lparr>heap := (heap s')(a \<mapsto> ob)\<rparr>) adjusted
          = Some (adjustedSoil (analyzeWeather daily))) \<and>
     store_ok s'"
proof -
  define n where "n = next_free s"
  define v where "v = adjustedSoil (analyzeWeather daily)"
  define s' where "s' = s\<lparr>heap := laidOut n v (heap s), next_free := n + 11\<rparr>"
  have run: "analyzeWeather_store daily baseline s =
      Some ((alerts (analyzeWeather daily), n + 10, recs (analyzeWeather daily)), s')"
    by (simp add: analyzeWeather_store_result [OF base] n_def v_def s'_def)
  have names: "baseline_names v"
    by (simp add: v_def analyzeWeather_def adjustSoil_names baseline_names_detailed)
  have h': "heap s' = laidOut n v (heap s)"
    by (simp add: s'_def)
  have old: "a < n" if "a \<in> dom (heap s)" for a
    using ok that unfolding store_ok_def n_def by auto
  have frame: "\<forall>a \<in> dom (heap s). heap s' a = heap s a"
    using old by (simp add: h' laidOut_below)
  have base_objs: "soilObjects s baseline \<subseteq> dom (heap s)"
    using base by (rule stringifySoil_dom)
  have base_same: "\<forall>a \<in> soilObjects s baseline. heap s' a = heap s a"
    using frame base_objs by blast
  have base': "stringifySoil s' baseline = Some detailedSoilData"
    using stringifySoil_cong [OF base_same] base by simp
  have base_objs': "soilObjects s' baseline = soilObjects s baseline"
    using base_same by (rule soilObjects_cong)
  have adj': "stringifySoil s' (n + 10) = Some v"
    using names h' by (rule laidOut_read)
  have adj_objs: "soilObjects s' (n + 10) = {n..n + 10}"
    using h' by (rule laidOut_objects)
  have fresh: "soilObjects s' (n + 10) \<inter> dom (heap s) = {}"
    using old unfolding adj_objs by fastforce
  have apart: "soilObjects s' (n + 10) \<inter> soilObjects s' baseline = {}"
    using fresh base_objs unfolding base_objs' by blast
  have upd_adj: "stringifySoil (s'\<lparr>heap := (heap s')(a \<mapsto> ob)\<rparr>) baseline = Some detailedSoilData"
    if "a \<in> soilObjects s' (n + 10)" for a ob
  proof -
    have "\<forall>x \<in> soilObjects s' baseline. heap (s'\<lparr>heap := (heap s')(a \<mapsto> ob)\<rparr>) x = heap s' x"
      using that apart by auto
    from stringifySoil_cong [OF this] base' show ?thesis by simp
  qed
  have upd_base: "stringifySoil (s'\<lparr>heap := (heap s')(a \<mapsto> ob)\<rparr>) (n + 10) = Some v"
    if "a \<in> soilObjects s' baseline" for a ob
  proof -
    have "\<forall>x \<in> soilObjects s' (n + 10). heap (s'\<lparr>heap := (heap s')(a \<mapsto> ob)\<rparr>) x = heap s' x"
      using that apart by auto
    from stringifySoil_cong [OF this] adj' show ?thesis by simp
  qed
  have ok': "store_ok s'"
  proof -
    have "dom (heap s') \<subseteq> dom (heap s) \<union> {n..n + 10}"
      unfolding h' by (rule laidOut_dom)
    then show ?thesis
      using old by (fastforce simp: store_ok_def s'_def)
  qed
  show ?thesis
    using run frame base' adj' fresh apart upd_adj upd_base ok'
    unfolding v_def by blast
qed

text \<open>
  The store right after the module is loaded, and a forecast that triggers both
  adjustments: the copy reads as the doubly adjusted record, the baseline as before.
\<close>

theorem analyzeWeather_baseline_untouched_witness:
  "store_ok (snd moduleLoaded) \<and>
   stringifySoil (snd moduleLoaded) (fst moduleLoaded) = Some detailedSoilData \<and>
   (\<exists>adjusted s'.
      analyzeWeather_store [rainy_day, hot_day, hot_day, hot_day] (fst moduleLoaded)
          (snd moduleLoaded)
        = Some ((alerts (analyzeWeather [rainy_day, hot_day, hot_day, hot_day]), adjusted,
                 recs (analyzeWeather [rainy_day, hot_day, hot_day, hot_day])), s') \<and>
      stringifySoil s' (fst moduleLoaded) = Some detailedSoilData \<and>
      stringifySoil s' adjusted = Some soil_rain_heat \<and>
      soil_rain_heat \<noteq> detailedSoilData \<and>
      soilObjects s' adjusted \<inter> soilObjects s' (fst moduleLoaded) = {})"
proof -
  have ok: "store_ok (snd moduleLoaded)"
    using laidOut_dom [of 0 detailedSoilData Map.empty]
    by (fastforce simp: moduleLoaded_eq store_ok_def)
  have "stringifySoil (snd moduleLoaded) (0 + 10) = Some detailedSoilData"
    by (rule laidOut_read [OF baseline_names_detailed]) (simp add: moduleLoaded_eq)
  then have base: "stringifySoil (snd moduleLoaded) (fst moduleLoaded) = Some detailedSoilData"
    by (simp add: moduleLoaded_eq)
  have ne: "soil_rain_heat \<noteq> detailedSoilData"
    by (simp add: soil_rain_heat_def detailedSoilData_def)
  from analyzeWeather_baseline_untouched [OF ok base, of "[rainy_day, hot_day, hot_day, hot_day]"]
  show ?thesis
    using ok base ne unfolding rain_heat_week by blast
qed

end
